(* ===== verification/RG_Prelude.thy ===== *)
theory RG_Prelude
  imports Main "HOL-Library.State_Monad" "HOL-Library.Sublist"
begin

text \<open>
  Shared vocabulary of the development: the parts of the Go language and of its standard
  library that the RestoreGuard sources use, and the proof rules for stateful code.
  \<^item> errors as values, with the wrapping of \<open>fmt.Errorf("...: %w", err)\<close> and \<open>errors.Is\<close>;
  \<^item> \<open>int64\<close> arithmetic (two's complement wrap-around), \<open>time.Time\<close> and \<open>time.Duration\<close>;
  \<^item> Go strings, which are byte sequences, and the functions of package \<open>strings\<close>, \<open>hex\<close>
    and \<open>strconv\<close> in use;
  \<^item> \<open>io.Reader\<close>, \<open>io.LimitReader\<close> and \<open>io.Copy\<close>;
  \<^item> Hoare triples and invariants for programs of the state monad.
\<close>

named_theorems keeps_intros \<open>rules that an invariant is kept by a program\<close>
named_theorems yields_intros \<open>rules that every result of a program has a property\<close>
named_theorems frame_simps \<open>parts of the state an operation leaves alone\<close>


section \<open>Errors\<close>

datatype go_error =
    ErrInvalidTransition
  | ErrNoRows
  | Canceled
  | DeadlineExceeded
  | ErrNotExist
  | Errorf string
  | Wrapped string go_error
  | External string

fun errors_Is :: "go_error \<Rightarrow> go_error \<Rightarrow> bool" where
  "errors_Is (Wrapped s e) target = (Wrapped s e = target \<or> errors_Is e target)"
| "errors_Is e target = (e = target)"

fun error_string :: "go_error \<Rightarrow> string" where
  "error_string ErrInvalidTransition = ''invalid drill state transition''"
| "error_string ErrNoRows = ''no rows in result set''"
| "error_string Canceled = ''context canceled''"
| "error_string DeadlineExceeded = ''context deadline exceeded''"
| "error_string ErrNotExist = ''file does not exist''"
| "error_string (Errorf s) = s"
| "error_string (Wrapped s e) = s @ '': '' @ error_string e"
| "error_string (External s) = s"

type_synonym 'a result = "go_error + 'a"

definition is_ok :: "'a result \<Rightarrow> bool" where
  "is_ok r = (case r of Inl _ \<Rightarrow> False | Inr _ \<Rightarrow> True)"

lemma is_ok_simps [simp]: "is_ok (Inr a)" "\<not> is_ok (Inl e)"
  by (simp_all add: is_ok_def)


section \<open>Machine integers, instants and durations\<close>

text \<open>
  \<open>int64\<close> values are integers kept in range by \<open>wrap64\<close>. An instant (\<open>time.Time\<close>) counts
  nanoseconds from Go's zero time, so \<open>IsZero\<close> is equality with 0. A duration is an
  \<open>int64\<close> number of nanoseconds and \<open>Sub\<close> saturates, as package \<open>time\<close> documents.
\<close>

type_synonym int64 = int
type_synonym instant = int
type_synonym duration = int

abbreviation (input) min_int64 :: int where "min_int64 \<equiv> - (2 ^ 63)"
abbreviation (input) max_int64 :: int where "max_int64 \<equiv> 2 ^ 63 - 1"

definition wrap64 :: "int \<Rightarrow> int64" where
  "wrap64 x = (x + 2 ^ 63) mod 2 ^ 64 - 2 ^ 63"

definition int64_range :: "int \<Rightarrow> bool" where
  "int64_range x = (min_int64 \<le> x \<and> x \<le> max_int64)"

lemma wrap64_id: "int64_range x \<Longrightarrow> wrap64 x = x"
  by (auto simp: int64_range_def wrap64_def)

lemma wrap64_range: "int64_range (wrap64 x)"
proof -
  have "0 \<le> (x + 2 ^ 63) mod 2 ^ 64" and "(x + 2 ^ 63) mod 2 ^ 64 < 2 ^ 64"
    by simp_all
  then show ?thesis by (simp add: int64_range_def wrap64_def)
qed

abbreviation time_Second :: duration where "time_Second \<equiv> 1000000000"
abbreviation time_Minute :: duration where "time_Minute \<equiv> 60 * time_Second"

definition IsZero :: "instant \<Rightarrow> bool" where
  "IsZero t = (t = 0)"

definition time_Sub :: "instant \<Rightarrow> instant \<Rightarrow> duration" where
  "time_Sub t u = max min_int64 (min max_int64 (t - u))"


section \<open>Strings\<close>

text \<open>A Go string is a byte sequence, and so is a HOL \<^typ>\<open>string\<close>; \<open>[]byte\<close> is the same type.\<close>

type_synonym bytes = string

definition HasPrefix :: "string \<Rightarrow> string \<Rightarrow> bool" where
  "HasPrefix s p = (take (length p) s = p)"

definition HasSuffix :: "string \<Rightarrow> string \<Rightarrow> bool" where
  "HasSuffix s p = (length p \<le> length s \<and> drop (length s - length p) s = p)"

fun Contains :: "string \<Rightarrow> string \<Rightarrow> bool" where
  "Contains [] sub = (sub = [])"
| "Contains (c # cs) sub = (HasPrefix (c # cs) sub \<or> Contains cs sub)"

fun strings_Join :: "string list \<Rightarrow> string \<Rightarrow> string" where
  "strings_Join [] sep = []"
| "strings_Join [x] sep = x"
| "strings_Join (x # y # xs) sep = x @ sep @ strings_Join (y # xs) sep"

fun strings_Split :: "char \<Rightarrow> string \<Rightarrow> string list" where
  "strings_Split sep [] = [[]]"
| "strings_Split sep (c # cs) =
     (if c = sep then [] # strings_Split sep cs
      else (case strings_Split sep cs of
              [] \<Rightarrow> [[c]]
            | p # ps \<Rightarrow> (c # p) # ps))"

lemma HasPrefix_append [simp]: "HasPrefix (p @ s) p"
  by (simp add: HasPrefix_def)

lemma HasPrefix_prefix: "HasPrefix s p \<longleftrightarrow> prefix p s"
  by (auto simp: HasPrefix_def prefix_def) (metis append_take_drop_id)

lemma HasSuffix_suffix: "HasSuffix s p \<longleftrightarrow> suffix p s"
  by (auto simp: HasSuffix_def suffix_def) (metis append_take_drop_id)

lemma Contains_sublist: "Contains s sub \<longleftrightarrow> sublist sub s"
  by (induction s) (auto simp: HasPrefix_prefix sublist_Cons_right)

lemma strings_Split_ne [simp]: "strings_Split sep s \<noteq> []"
  by (cases s) (auto split: list.splits)

lemma strings_Split_no_sep: "p \<in> set (strings_Split sep s) \<Longrightarrow> sep \<notin> set p"
  by (induction s arbitrary: p) (auto split: list.splits if_splits)

lemma strings_Join_Split: "strings_Join (strings_Split sep s) [sep] = s"
proof (induction s)
  case (Cons c cs)
  then show ?case
    by (cases "strings_Split sep cs"; cases "tl (strings_Split sep cs)")
      (auto split: list.splits)
qed simp

lemma strings_Split_append:
  "sep \<notin> set p \<Longrightarrow> strings_Split sep (p @ sep # s) = p # strings_Split sep s"
  by (induction p) auto

lemma strings_Split_single: "sep \<notin> set p \<Longrightarrow> strings_Split sep p = [p]"
  by (induction p) auto

lemma strings_Split_last: "sep \<notin> set s \<Longrightarrow> strings_Split sep (p @ sep # s) = strings_Split sep p @ [s]"
  by (induction p) (auto simp: strings_Split_single split: list.split)

text \<open>Decimal output (\<open>strconv.FormatInt\<close>, \<open>%d\<close>) and hexadecimal output (\<open>hex.EncodeToString\<close>).\<close>

abbreviation digit_char :: "nat \<Rightarrow> char" where
  "digit_char d \<equiv> char_of (48 + d)"

function format_dec :: "int \<Rightarrow> string" where
  "format_dec i =
     (if i < 10 then [digit_char (nat i)] else format_dec (i div 10) @ [digit_char (nat (i mod 10))])"
  by auto
termination by (relation "measure nat") auto

declare format_dec.simps [simp del]

definition format_int :: "int \<Rightarrow> string" where
  "format_int i = (if i < 0 then CHR ''-'' # format_dec (- i) else format_dec i)"

definition format_nat :: "nat \<Rightarrow> string" where
  "format_nat n = format_int (int n)"

definition hex_digit :: "nat \<Rightarrow> char" where
  "hex_digit d = (if d < 10 then char_of (48 + d) else char_of (87 + d))"

fun hex_EncodeToString :: "bytes \<Rightarrow> string" where
  "hex_EncodeToString [] = []"
| "hex_EncodeToString (c # cs) =
     hex_digit (of_char c div 16) # hex_digit (of_char c mod 16) # hex_EncodeToString cs"

lemma length_hex_EncodeToString [simp]: "length (hex_EncodeToString bs) = 2 * length bs"
  by (induction bs) auto

definition is_lower :: "char \<Rightarrow> bool" where
  "is_lower c = (97 \<le> (of_char c :: nat) \<and> (of_char c :: nat) \<le> 122)"

definition is_upper :: "char \<Rightarrow> bool" where
  "is_upper c = (65 \<le> (of_char c :: nat) \<and> (of_char c :: nat) \<le> 90)"

definition is_digit :: "char \<Rightarrow> bool" where
  "is_digit c = (48 \<le> (of_char c :: nat) \<and> (of_char c :: nat) \<le> 57)"

definition is_alnum :: "char \<Rightarrow> bool" where
  "is_alnum c = (is_lower c \<or> is_upper c \<or> is_digit c)"


section \<open>Readers\<close>

text \<open>
  An \<open>io.Reader\<close> delivers its bytes and then either \<open>io.EOF\<close> or an error.
  \<open>io.LimitReader r n\<close> stops with \<open>EOF\<close> after \<open>n\<close> bytes (at once when \<open>n \<le> 0\<close>), so an error
  of \<open>r\<close> shows only when \<open>r\<close> delivers fewer than \<open>n\<close> bytes. A \<open>contextReader\<close> checks its
  context before every read: when the context is done after \<open>n\<close> bytes it reports the
  context's error there. \<open>io.Copy\<close> returns the number of bytes written and the error.
\<close>

record reader =
  r_data :: bytes
  r_err :: "go_error option"

definition io_LimitReader :: "reader \<Rightarrow> int64 \<Rightarrow> reader" where
  "io_LimitReader r n =
     (if n \<le> 0 then \<lparr>r_data = [], r_err = None\<rparr>
      else if int (length (r_data r)) < n then r
      else \<lparr>r_data = take (nat n) (r_data r), r_err = None\<rparr>)"

definition context_reader :: "(nat \<times> go_error) option \<Rightarrow> reader \<Rightarrow> reader" where
  "context_reader done r =
     (case done of
        None \<Rightarrow> r
      | Some (n, e) \<Rightarrow>
          if n \<le> length (r_data r) then \<lparr>r_data = take n (r_data r), r_err = Some e\<rparr> else r)"

lemma context_reader_ok: "r_err (context_reader d r) = None \<Longrightarrow> context_reader d r = r \<and> r_err r = None"
  by (auto simp: context_reader_def split: option.splits if_splits)

definition io_Copy :: "reader \<Rightarrow> bytes \<times> int64 \<times> go_error option" where
  "io_Copy r = (r_data r, int (length (r_data r)), r_err r)"

definition bytes_NewReader :: "bytes \<Rightarrow> reader" where
  "bytes_NewReader b = \<lparr>r_data = b, r_err = None\<rparr>"

lemma LimitReader_length: "0 < n \<Longrightarrow> int (length (r_data (io_LimitReader r n))) \<le> n"
  by (auto simp: io_LimitReader_def)

lemma LimitReader_short:
  "int (length (r_data (io_LimitReader r (n + 1)))) \<le> n \<Longrightarrow> 0 \<le> n \<Longrightarrow> io_LimitReader r (n + 1) = r"
  by (auto simp: io_LimitReader_def split: if_splits)


section \<open>Programs over a state\<close>

text \<open>
  Stateful code is a program of the state monad. \<open>hoare P m Q\<close> is total correctness (every
  program here terminates): from a state with \<open>P\<close>, \<open>m\<close> returns a value and a state with \<open>Q\<close>.
\<close>

definition hoare :: "('s \<Rightarrow> bool) \<Rightarrow> ('s, 'a) state \<Rightarrow> ('a \<Rightarrow> 's \<Rightarrow> bool) \<Rightarrow> bool" where
  "hoare P m Q = (\<forall>s. P s \<longrightarrow> Q (fst (run_state m s)) (snd (run_state m s)))"

definition keeps :: "('s \<Rightarrow> bool) \<Rightarrow> ('s, 'a) state \<Rightarrow> bool" where
  "keeps I m = hoare I m (\<lambda>_. I)"

lemma hoareI: "(\<And>s a t. P s \<Longrightarrow> run_state m s = (a, t) \<Longrightarrow> Q a t) \<Longrightarrow> hoare P m Q"
  by (metis hoare_def prod.collapse)

lemma hoareD: "hoare P m Q \<Longrightarrow> P s \<Longrightarrow> run_state m s = (a, t) \<Longrightarrow> Q a t"
  by (metis hoare_def fst_conv snd_conv)

lemma hoare_run: "hoare P m Q \<Longrightarrow> P s \<Longrightarrow> Q (fst (run_state m s)) (snd (run_state m s))"
  by (simp add: hoare_def)

lemma hoare_bind:
  assumes "hoare P m Q" and "\<And>a. hoare (Q a) (f a) R"
  shows "hoare P (m \<bind> f) R"
  using assms by (auto simp: hoare_def split: prod.splits)

lemma hoare_return: "(\<And>s. P s \<Longrightarrow> Q a s) \<Longrightarrow> hoare P (State_Monad.return a) Q"
  by (simp add: hoare_def)

lemma hoare_pre: "hoare P m Q \<Longrightarrow> (\<And>s. P' s \<Longrightarrow> P s) \<Longrightarrow> hoare P' m Q"
  by (auto simp: hoare_def)

lemma hoare_post: "hoare P m Q \<Longrightarrow> (\<And>a s. Q a s \<Longrightarrow> Q' a s) \<Longrightarrow> hoare P m Q'"
  by (auto simp: hoare_def)

lemma hoare_conj: "hoare P m Q \<Longrightarrow> hoare P' m Q' \<Longrightarrow> hoare (\<lambda>s. P s \<and> P' s) m (\<lambda>a s. Q a s \<and> Q' a s)"
  by (auto simp: hoare_def)

lemma hoare_if:
  assumes "b \<Longrightarrow> hoare P m Q" and "\<not> b \<Longrightarrow> hoare P m' Q"
  shows "hoare P (if b then m else m') Q"
  using assms by auto

lemma keeps_bind [keeps_intros]:
  "keeps I m \<Longrightarrow> (\<And>a. keeps I (f a)) \<Longrightarrow> keeps I (m \<bind> f)"
  unfolding keeps_def by (rule hoare_bind)

lemma keeps_return [keeps_intros]: "keeps I (State_Monad.return a)"
  by (simp add: keeps_def hoare_return)

lemma keeps_if [keeps_intros]:
  "(b \<Longrightarrow> keeps I m) \<Longrightarrow> (\<not> b \<Longrightarrow> keeps I m') \<Longrightarrow> keeps I (if b then m else m')"
  by auto

lemma keeps_case_sum [keeps_intros]:
  "(\<And>x. r = Inl x \<Longrightarrow> keeps I (f x)) \<Longrightarrow> (\<And>y. r = Inr y \<Longrightarrow> keeps I (g y)) \<Longrightarrow>
   keeps I (case r of Inl x \<Rightarrow> f x | Inr y \<Rightarrow> g y)"
  by (cases r) auto

lemma keeps_case_option [keeps_intros]:
  "(r = None \<Longrightarrow> keeps I m) \<Longrightarrow> (\<And>y. r = Some y \<Longrightarrow> keeps I (g y)) \<Longrightarrow>
   keeps I (case r of None \<Rightarrow> m | Some y \<Rightarrow> g y)"
  by (cases r) auto

lemma keeps_case_prod [keeps_intros]:
  "(\<And>x y. r = (x, y) \<Longrightarrow> keeps I (f x y)) \<Longrightarrow> keeps I (case r of (x, y) \<Rightarrow> f x y)"
  by (cases r) auto

lemma keeps_conj: "keeps I m \<Longrightarrow> keeps J m \<Longrightarrow> keeps (\<lambda>s. I s \<and> J s) m"
  unfolding keeps_def by (rule hoare_conj)

lemma hoare_keeps_bind: "keeps I m \<Longrightarrow> (\<And>a. hoare I (f a) R) \<Longrightarrow> hoare I (m \<bind> f) R"
  unfolding keeps_def by (rule hoare_bind)

lemma keeps_run: "keeps I m \<Longrightarrow> I s \<Longrightarrow> I (snd (run_state m s))"
  by (simp add: keeps_def hoare_def)


subsection \<open>What a program returns\<close>

definition yields :: "('a \<Rightarrow> bool) \<Rightarrow> ('s, 'a) state \<Rightarrow> bool" where
  "yields Q m = (\<forall>w. Q (fst (run_state m w)))"

lemma yields_bind [yields_intros]: "(\<And>a. yields Q (f a)) \<Longrightarrow> yields Q (m \<bind> f)"
  by (auto simp: yields_def split: prod.splits)

lemma yields_return [yields_intros]: "Q a \<Longrightarrow> yields Q (State_Monad.return a)"
  by (simp add: yields_def)

lemma yields_if [yields_intros]: "(b \<Longrightarrow> yields Q m) \<Longrightarrow> (\<not> b \<Longrightarrow> yields Q m') \<Longrightarrow> yields Q (if b then m else m')"
  by simp

lemma yields_case_sum [yields_intros]:
  "(\<And>x. yields Q (f x)) \<Longrightarrow> (\<And>y. yields Q (g y)) \<Longrightarrow> yields Q (case r of Inl x \<Rightarrow> f x | Inr y \<Rightarrow> g y)"
  by (cases r) auto

lemma yields_case_option [yields_intros]:
  "yields Q m \<Longrightarrow> (\<And>y. yields Q (g y)) \<Longrightarrow> yields Q (case r of None \<Rightarrow> m | Some y \<Rightarrow> g y)"
  by (cases r) auto

lemma yields_case_prod [yields_intros]:
  "(\<And>x y. yields Q (f x y)) \<Longrightarrow> yields Q (case r of (x, y) \<Rightarrow> f x y)"
  by (cases r) auto

lemma yieldsD: "yields Q m \<Longrightarrow> run_state m w = (a, w') \<Longrightarrow> Q a"
  by (metis fst_conv yields_def)

lemma yields_finally: "yields Q m \<Longrightarrow> yields Q (m \<bind> (\<lambda>r. m' \<bind> (\<lambda>_. State_Monad.return r)))"
  by (auto simp: yields_def split: prod.splits) (metis fst_conv)

lemma keeps_bind_yields:
  assumes "keeps I m" and "yields Q m" and "\<And>a. Q a \<Longrightarrow> keeps I (f a)"
  shows "keeps I (m \<bind> f)"
  unfolding keeps_def
proof (rule hoareI)
  fix s b s''
  assume s: "I s" and run: "run_state (m \<bind> f) s = (b, s'')"
  obtain a s' where m: "run_state m s = (a, s')" by fastforce
  have "I s'" using keeps_run [OF assms(1) s] m by simp
  moreover have "Q a" using yieldsD [OF assms(2) m] .
  moreover have "run_state (f a) s' = (b, s'')" using run m by simp
  ultimately show "I s''" using keeps_run [OF assms(3)] by (metis snd_conv)
qed

end
