(* ===== verification/Go_Float.thy ===== *)
theory Go_Float
  imports Complex_Main "HOL-Library.Log_Nat" RG_Prelude
begin

text \<open>
  The \<open>float64\<close> arithmetic behind \<open>int64(d.Seconds())\<close>. Package \<open>time\<close> computes
  \<open>float64(d / Second) + float64(d % Second) / 1e9\<close>; every operation rounds to the nearest
  number with a 53-bit significand, ties to even, and the conversion back to \<open>int64\<close>
  truncates. The lemmas say when the result is the exact number of whole seconds: always
  below \<open>2^24\<close> seconds, and for every duration that is a whole number of microseconds.
\<close>

definition round_half_even :: "rat \<Rightarrow> int" where
  "round_half_even x =
     (let f = \<lfloor>x\<rfloor>; r = x - of_int f in
      if r < 1 / 2 then f else if r > 1 / 2 then f + 1 else if even f then f else f + 1)"

text \<open>\<open>float64_exp x\<close> is the binary exponent of a positive number; exponents stay far inside
  the normal range of \<open>float64\<close> in every use.\<close>

definition float64_exp :: "rat \<Rightarrow> int" where
  "float64_exp x =
     (let (p, q) = quotient_of x; k = bitlen p - bitlen q
      in if 2 powi k \<le> x then k else k - 1)"

definition float64 :: "rat \<Rightarrow> rat" where
  "float64 x =
     (if x \<le> 0 then 0
      else let u = 2 powi (float64_exp x - 52) in of_int (round_half_even (x / u)) * u)"

definition seconds_nonneg :: "duration \<Rightarrow> rat" where
  "seconds_nonneg d =
     float64 (of_int (d div time_Second) + float64 (of_int (d mod time_Second) / 1000000000))"

text \<open>\<open>int64(d.Seconds())\<close>: division and rounding are symmetric in the sign.\<close>

definition int64_Seconds :: "duration \<Rightarrow> int64" where
  "int64_Seconds d =
     (if d < 0 then - \<lfloor>seconds_nonneg (- d)\<rfloor> else \<lfloor>seconds_nonneg d\<rfloor>)"

lemma round_half_even_error: "\<bar>of_int (round_half_even x) - x\<bar> \<le> 1 / 2"
proof -
  have "of_int \<lfloor>x\<rfloor> \<le> x" and "x < of_int \<lfloor>x\<rfloor> + 1"
    by linarith+
  then show ?thesis
    unfolding round_half_even_def Let_def abs_le_iff by (simp split: if_splits) linarith
qed

lemma round_half_even_ge: "of_int z \<le> x \<Longrightarrow> z \<le> round_half_even x"
  unfolding round_half_even_def Let_def le_floor_iff [symmetric] by auto

lemma float64_exp_lower:
  assumes "0 < x"
  shows "2 powi (float64_exp x) \<le> x"
proof -
  obtain p q where pq: "quotient_of x = (p, q)" by fastforce
  then have q: "0 < q" by (rule quotient_of_denom_pos)
  have x: "x = of_int p / of_int q" using pq by (rule quotient_of_div)
  with assms q have p: "0 < p" by (simp add: zero_less_divide_iff)
  have lo: "(2::int) ^ nat (bitlen p - 1) \<le> p" using p by (simp add: bitlen_bounds)
  have hi: "q < (2::int) ^ nat (bitlen q)" using q by (simp add: bitlen_bounds)
  have bp: "0 \<le> bitlen p - 1" using p by (simp add: bitlen_alt_def)
  have "(2::rat) powi (bitlen p - 1) \<le> of_int p"
    using lo bp by (simp add: power_int_def del: of_int_power)
  moreover have "of_int q \<le> (2::rat) powi (bitlen q)"
    using hi bitlen_nonneg [of q]
    by (simp add: power_int_def del: of_int_power)
  ultimately have "(2::rat) powi (bitlen p - 1) / 2 powi (bitlen q) \<le> x"
    unfolding x using p q by (intro frac_le) auto
  then have "(2::rat) powi (bitlen p - bitlen q - 1) \<le> x"
    by (simp add: power_int_diff)
  then show ?thesis by (simp add: float64_exp_def pq Let_def)
qed

lemma float64_exp_upper:
  assumes "0 < x" and "x < 2 powi n"
  shows "float64_exp x \<le> n - 1"
proof -
  have "(2::rat) powi (float64_exp x) < 2 powi n"
    using float64_exp_lower [OF assms(1)] assms(2) by linarith
  then show ?thesis
    using power_int_increasing [of n "float64_exp x" "2::rat"] by fastforce
qed

lemma float64_error:
  assumes "0 < x" and "x < 2 powi n"
  shows "\<bar>float64 x - x\<bar> \<le> 2 powi (n - 54)"
proof -
  define u :: rat where "u = 2 powi (float64_exp x - 52)"
  have u: "0 < u" by (simp add: u_def)
  have "\<bar>of_int (round_half_even (x / u)) - x / u\<bar> * u \<le> 1 / 2 * u"
    using round_half_even_error u by (intro mult_right_mono) auto
  then have "\<bar>float64 x - x\<bar> \<le> u / 2"
    using assms u by (simp add: float64_def Let_def u_def [symmetric] abs_mult_pos left_diff_distrib)
  also have "u / 2 \<le> 2 powi (n - 54)"
  proof -
    have "u \<le> 2 powi (n - 53)"
      unfolding u_def using float64_exp_upper [OF assms] by (intro power_int_increasing) auto
    also have "\<dots> = 2 * 2 powi (n - 54)"
      by (subst power_int_add_1' [symmetric]) (simp_all add: algebra_simps)
    finally show ?thesis by simp
  qed
  finally show ?thesis .
qed

lemma float64_ge_int:
  assumes "of_int z \<le> x" and "0 < x" and "x < 2 powi 53"
  shows "of_int z \<le> float64 x"
proof -
  define k where "k = nat (52 - float64_exp x)"
  define u :: rat where "u = 2 powi (float64_exp x - 52)"
  have u: "0 < u" by (simp add: u_def)
  have "float64_exp x \<le> 52" using float64_exp_upper [OF assms(2,3)] by simp
  then have uk: "1 / u = of_int (2 ^ k)"
    unfolding u_def k_def by (simp add: power_int_def field_simps nat_diff_distrib)
  have "of_int (z * 2 ^ k) \<le> x / u"
  proof -
    have "of_int (z * 2 ^ k) = of_int z / u"
      unfolding of_int_mult uk [symmetric] by simp
    then show ?thesis using assms(1) u by (simp add: divide_right_mono)
  qed
  then have "z * 2 ^ k \<le> round_half_even (x / u)" by (rule round_half_even_ge)
  then have "of_int (z * 2 ^ k) * u \<le> of_int (round_half_even (x / u)) * u"
    using u by (intro mult_right_mono) (simp_all del: of_int_mult)
  moreover have "of_int (z * 2 ^ k) * u = of_int z"
    using uk u by (simp add: field_simps)
  ultimately have "of_int z \<le> of_int (round_half_even (x / u)) * u" by (simp only:)
  then show ?thesis
    using assms(2) unfolding float64_def Let_def u_def by simp
qed

lemma fraction_bounds:
  assumes "0 \<le> n" and "n < (1000000000::int)"
  defines "f \<equiv> float64 (of_int n / 1000000000)"
  shows "0 \<le> f" and "f \<le> of_int n / 1000000000 + 1 / 18014398509481984"
proof -
  have "0 \<le> f \<and> \<bar>f - of_int n / 1000000000\<bar> \<le> 1 / 18014398509481984"
  proof (cases "n = 0")
    case True
    then show ?thesis by (simp add: f_def float64_def)
  next
    case False
    with assms(1,2) have pos: "0 < (of_int n / 1000000000 :: rat)" and lt: "(of_int n / 1000000000 :: rat) < 1"
      by simp_all
    have "of_int 0 \<le> f"
      unfolding f_def using pos lt by (intro float64_ge_int) simp_all
    moreover have "\<bar>f - of_int n / 1000000000\<bar> \<le> 2 powi (0 - 54)"
      unfolding f_def using pos lt by (intro float64_error) simp_all
    ultimately show ?thesis by (simp add: power_int_def power_one_over)
  qed
  then show "0 \<le> f" and "f \<le> of_int n / 1000000000 + 1 / 18014398509481984"
    by linarith+
qed

text \<open>
  The general bound: with \<open>n\<close> nanoseconds beyond \<open>s\<close> whole seconds, \<open>s < 2^k\<close>, truncation
  gives \<open>s\<close> whenever the rounding error \<open>2^(k-54)\<close> is smaller than the distance to \<open>s + 1\<close>.
\<close>

lemma seconds_nonneg_floor:
  assumes d: "0 \<le> d" and k: "d div time_Second < 2 ^ k" "k \<le> 53"
    and gap: "of_int (d mod time_Second) / 1000000000 + 1 / 18014398509481984 + 2 powi (int k - 54) < (1::rat)"
  shows "\<lfloor>seconds_nonneg d\<rfloor> = d div time_Second"
proof -
  define s n where "s = d div time_Second" and "n = d mod time_Second"
  define f where "f = float64 (of_int n / 1000000000)"
  have s: "0 \<le> s" using d by (simp add: s_def pos_imp_zdiv_nonneg_iff)
  have n: "0 \<le> n" "n < 1000000000" by (simp_all add: n_def)
  have f0: "0 \<le> f" and f1: "f \<le> of_int n / 1000000000 + 1 / 18014398509481984"
    unfolding f_def using fraction_bounds [OF n] by simp_all
  have "(0::rat) < 2 powi (int k - 54)" by simp
  with f1 gap have flt: "f < 1" by (simp add: n_def)
  have sn: "seconds_nonneg d = float64 (of_int s + f)"
    by (simp add: seconds_nonneg_def s_def n_def f_def)
  show ?thesis
  proof (cases "of_int s + f = 0")
    case True
    with s f0 have "s = 0"
      by (metis add_nonneg_eq_0_iff of_int_0_eq_iff of_int_0_le_iff)
    then show ?thesis using sn True by (simp add: float64_def s_def [symmetric])
  next
    case False
    have "(0::rat) \<le> of_int s + f" using s f0 by simp
    with False have pos: "0 < of_int s + f" by simp
    have "s + 1 \<le> 2 ^ k" using k(1) by (simp add: s_def)
    then have "(of_int (s + 1) :: rat) \<le> of_int (2 ^ k)" by (simp only: of_int_le_iff)
    then have lt: "of_int s + f < 2 powi (int k)" using flt by simp
    have "(2::rat) powi (int k) \<le> 2 powi 53" using k(2) by (intro power_int_increasing) simp_all
    with lt have "of_int s + f < 2 powi 53" by linarith
    then have lo: "of_int s \<le> seconds_nonneg d"
      unfolding sn using f0 pos by (intro float64_ge_int) simp_all
    have "\<bar>seconds_nonneg d - (of_int s + f)\<bar> \<le> 2 powi (int k - 54)"
      unfolding sn using pos lt by (rule float64_error)
    with f1 gap have "seconds_nonneg d < of_int s + 1" by (simp add: n_def)
    with lo show ?thesis by (simp add: s_def floor_eq_iff)
  qed
qed

lemma int64_Seconds_exact:
  assumes "0 \<le> d" and "d < 16777216 * time_Second"
  shows "int64_Seconds d = d div time_Second"
proof -
  have "of_int (d mod time_Second) \<le> (999999999 :: rat)"
  proof -
    have "d mod time_Second \<le> 999999999"
      using pos_mod_bound [of time_Second d] by linarith
    then have "(of_int (d mod time_Second) :: rat) \<le> of_int 999999999" by (simp only: of_int_le_iff)
    then show ?thesis by simp
  qed
  moreover have "(2::rat) powi (int 24 - 54) = 1 / 1073741824" by (simp add: power_int_def power_one_over)
  ultimately have "\<lfloor>seconds_nonneg d\<rfloor> = d div time_Second"
    using assms by (intro seconds_nonneg_floor [of d 24]) (simp_all add: div_less_iff_less_mult)
  with assms show ?thesis by (simp add: int64_Seconds_def)
qed

lemma int64_Seconds_micros:
  assumes "0 \<le> d" and "d \<le> max_int64" and "1000 dvd d"
  shows "int64_Seconds d = d div time_Second"
proof -
  have "d mod time_Second \<le> 999999000"
  proof -
    from assms(3) have "1000 dvd d mod time_Second" by (simp add: dvd_mod)
    then obtain m where m: "d mod time_Second = 1000 * m" by blast
    have "1000 * m < 1000000000" using pos_mod_bound [of time_Second d] by (simp add: m [symmetric])
    then show ?thesis by (simp add: m)
  qed
  then have "(of_int (d mod time_Second) :: rat) \<le> of_int 999999000" by (simp only: of_int_le_iff)
  moreover have "(2::rat) powi (int 34 - 54) = 1 / 1048576" by (simp add: power_int_def power_one_over)
  ultimately have "\<lfloor>seconds_nonneg d\<rfloor> = d div time_Second"
    using assms by (intro seconds_nonneg_floor [of d 34]) (simp_all add: div_less_iff_less_mult)
  with assms show ?thesis by (simp add: int64_Seconds_def)
qed

end
