(* ===== verification/Domain.thy ===== *)
theory Domain
  imports Go_Float
begin

text \<open>
  Package \<open>domain\<close> (\<open>model.go\<close>, \<open>recovery.go\<close>): the drill life cycle, the RPO and RTO
  measurements, their policy evaluation and the recovery assessment. The string-valued Go
  enumerations are datatypes; the empty string of an unset \<open>PolicyResult\<close> is a constructor
  of its own, an unset \<open>Assessment\<close> or \<open>Confidence\<close> is \<open>None\<close>.
\<close>

section \<open>Data\<close>

datatype DrillStatus =
    DrillQueued | DrillPreparing | DrillRestoring | DrillValidating | DrillFinalizing
  | DrillSucceeded | DrillFailed | DrillCancelled | DrillInconclusive

fun status_string :: "DrillStatus \<Rightarrow> string" where
  "status_string DrillQueued = ''QUEUED''"
| "status_string DrillPreparing = ''PREPARING''"
| "status_string DrillRestoring = ''RESTORING''"
| "status_string DrillValidating = ''VALIDATING''"
| "status_string DrillFinalizing = ''FINALIZING''"
| "status_string DrillSucceeded = ''SUCCEEDED''"
| "status_string DrillFailed = ''FAILED''"
| "status_string DrillCancelled = ''CANCELLED''"
| "status_string DrillInconclusive = ''INCONCLUSIVE''"

datatype Assessment = Verified | PartiallyVerified | AssessmentFailed | AssessmentUnknown

fun assessment_string :: "Assessment \<Rightarrow> string" where
  "assessment_string Verified = ''VERIFIED''"
| "assessment_string PartiallyVerified = ''PARTIALLY_VERIFIED''"
| "assessment_string AssessmentFailed = ''FAILED''"
| "assessment_string AssessmentUnknown = ''INCONCLUSIVE''"

datatype PolicyResult = PolicyUnset | PolicyPass | PolicyFail | PolicyInconclusive

fun policy_string :: "PolicyResult \<Rightarrow> string" where
  "policy_string PolicyUnset = ''''"
| "policy_string PolicyPass = ''PASS''"
| "policy_string PolicyFail = ''FAIL''"
| "policy_string PolicyInconclusive = ''INCONCLUSIVE''"

datatype Confidence = ConfidenceHigh | ConfidenceMedium | ConfidenceLow

fun confidence_string :: "Confidence \<Rightarrow> string" where
  "confidence_string ConfidenceHigh = ''HIGH''"
| "confidence_string ConfidenceMedium = ''MEDIUM''"
| "confidence_string ConfidenceLow = ''LOW''"

datatype ValidationStatus =
    ValidationPass | ValidationFail | ValidationWarning | ValidationInconclusive

record RecoveryDrill =
  d_ID :: string
  d_OrganizationID :: string
  d_ProtectedAssetID :: string
  d_BackupSnapshotID :: string
  d_RecoveryPolicyID :: string
  d_RequestedBy :: string
  d_TriggerType :: string
  d_Status :: DrillStatus
  d_StartedAt :: "instant option"
  d_CompletedAt :: "instant option"
  d_MeasuredRPOSeconds :: "int64 option"
  d_MeasuredRTOSeconds :: "int64 option"
  d_RPOResult :: PolicyResult
  d_RTOResult :: PolicyResult
  d_RecoveryStatus :: "Assessment option"
  d_Confidence :: "Confidence option"
  d_Summary :: string
  d_CreatedAt :: instant
  d_UpdatedAt :: instant

record ValidationOutcome =
  vo_Status :: ValidationStatus
  vo_Required :: bool


section \<open>The life cycle\<close>

definition transitions :: "(DrillStatus \<times> (DrillStatus \<times> bool) list) list" where
  "transitions =
    [(DrillQueued, [(DrillPreparing, True), (DrillCancelled, True)]),
     (DrillPreparing, [(DrillRestoring, True), (DrillFailed, True), (DrillCancelled, True), (DrillInconclusive, True)]),
     (DrillRestoring, [(DrillValidating, True), (DrillFailed, True), (DrillCancelled, True), (DrillInconclusive, True)]),
     (DrillValidating, [(DrillFinalizing, True), (DrillFailed, True), (DrillCancelled, True), (DrillInconclusive, True)]),
     (DrillFinalizing, [(DrillSucceeded, True), (DrillFailed, True), (DrillCancelled, True), (DrillInconclusive, True)]),
     (DrillSucceeded, []), (DrillFailed, []), (DrillCancelled, []), (DrillInconclusive, [])]"

text \<open>Indexing a Go map of maps: a missing key gives the zero value, a nil map or \<open>false\<close>.\<close>

definition CanTransition :: "DrillStatus \<Rightarrow> DrillStatus \<Rightarrow> bool" where
  "CanTransition from to =
     (case map_of transitions from of
        None \<Rightarrow> False
      | Some m \<Rightarrow> (case map_of m to of None \<Rightarrow> False | Some b \<Rightarrow> b))"

definition Transition :: "DrillStatus \<Rightarrow> DrillStatus \<Rightarrow> go_error option" where
  "Transition from to = (if \<not> CanTransition from to then Some ErrInvalidTransition else None)"


section \<open>Measurements and assessment\<close>

definition MeasureRPO :: "instant \<Rightarrow> instant \<Rightarrow> int64 \<times> PolicyResult" where
  "MeasureRPO drillTime snapshotTime =
     (if IsZero snapshotTime \<or> snapshotTime > drillTime then (0, PolicyInconclusive)
      else (int64_Seconds (time_Sub drillTime snapshotTime), PolicyUnset))"

definition MeasureRTO :: "instant \<Rightarrow> instant \<Rightarrow> int64 \<times> PolicyResult" where
  "MeasureRTO startedAt recoveryReadyAt =
     (if IsZero startedAt \<or> IsZero recoveryReadyAt \<or> recoveryReadyAt < startedAt
      then (0, PolicyInconclusive)
      else (int64_Seconds (time_Sub recoveryReadyAt startedAt), PolicyUnset))"

definition EvaluatePolicy :: "int64 \<Rightarrow> PolicyResult \<Rightarrow> int64 \<Rightarrow> PolicyResult" where
  "EvaluatePolicy measured measurement target =
     (if measurement = PolicyInconclusive \<or> measured < 0 \<or> target \<le> 0 then PolicyInconclusive
      else if measured \<le> target then PolicyPass
      else PolicyFail)"

text \<open>The loop of \<open>Assess\<close>, over the two flags \<open>requiredFailed\<close> and \<open>limited\<close>.\<close>

fun assess_loop :: "ValidationOutcome list \<Rightarrow> bool \<Rightarrow> bool \<Rightarrow> bool \<times> bool" where
  "assess_loop [] requiredFailed limited = (requiredFailed, limited)"
| "assess_loop (result # results) requiredFailed limited =
     assess_loop results
       (if vo_Required result \<and> vo_Status result = ValidationFail then True else requiredFailed)
       (if vo_Status result = ValidationWarning \<or> vo_Status result = ValidationInconclusive
           \<or> (\<not> vo_Required result \<and> vo_Status result = ValidationFail)
        then True else limited)"

definition Assess :: "bool \<Rightarrow> ValidationOutcome list \<Rightarrow> bool \<Rightarrow> Assessment \<times> Confidence" where
  "Assess restorePassed results evidenceIntegrity =
     (if \<not> restorePassed then (AssessmentFailed, ConfidenceLow)
      else if length results = 0 then (AssessmentUnknown, ConfidenceLow)
      else let (requiredFailed, limited) = assess_loop results False False in
        if requiredFailed then (AssessmentFailed, ConfidenceLow)
        else if limited \<or> \<not> evidenceIntegrity then (PartiallyVerified, ConfidenceMedium)
        else (Verified, ConfidenceHigh))"

definition terminal :: "DrillStatus \<Rightarrow> bool" where
  "terminal s = (s = DrillSucceeded \<or> s = DrillFailed \<or> s = DrillCancelled \<or> s = DrillInconclusive)"

text \<open>A run of the life cycle: every status is a permitted successor of the one before.\<close>

fun lifecycle :: "DrillStatus \<Rightarrow> DrillStatus list \<Rightarrow> bool" where
  "lifecycle s [] = True"
| "lifecycle s (t # ts) = (CanTransition s t \<and> lifecycle t ts)"

fun stage :: "DrillStatus \<Rightarrow> nat" where
  "stage DrillQueued = 0"
| "stage DrillPreparing = 1"
| "stage DrillRestoring = 2"
| "stage DrillValidating = 3"
| "stage DrillFinalizing = 4"
| "stage _ = 5"

text \<open>The statuses are ordered: a later one is at a later stage. \<open>QUEUED\<close> is the first.\<close>

instantiation DrillStatus :: order_bot
begin

definition less_eq_DrillStatus :: "DrillStatus \<Rightarrow> DrillStatus \<Rightarrow> bool" where
  "less_eq_DrillStatus s t = (s = t \<or> stage s < stage t)"

definition less_DrillStatus :: "DrillStatus \<Rightarrow> DrillStatus \<Rightarrow> bool" where
  "less_DrillStatus s t = (stage s < stage t)"

definition bot_DrillStatus :: DrillStatus where
  "bot_DrillStatus = DrillQueued"

instance
proof
  show "bot \<le> s" for s :: DrillStatus by (cases s) (simp_all add: less_eq_DrillStatus_def bot_DrillStatus_def)
qed (auto simp: less_eq_DrillStatus_def less_DrillStatus_def)

end


section \<open>Lemmas\<close>

lemma CanTransition_iff:
  "CanTransition from to \<longleftrightarrow>
     from = DrillQueued \<and> to \<in> {DrillPreparing, DrillCancelled} \<or>
     from = DrillPreparing \<and> to \<in> {DrillRestoring, DrillFailed, DrillCancelled, DrillInconclusive} \<or>
     from = DrillRestoring \<and> to \<in> {DrillValidating, DrillFailed, DrillCancelled, DrillInconclusive} \<or>
     from = DrillValidating \<and> to \<in> {DrillFinalizing, DrillFailed, DrillCancelled, DrillInconclusive} \<or>
     from = DrillFinalizing \<and> to \<in> {DrillSucceeded, DrillFailed, DrillCancelled, DrillInconclusive}"
  by (cases "from"; cases to) (simp_all add: CanTransition_def transitions_def)

lemma terminal_simps [simp]:
  "\<not> terminal DrillQueued" "\<not> terminal DrillPreparing" "\<not> terminal DrillRestoring"
  "\<not> terminal DrillValidating" "\<not> terminal DrillFinalizing"
  "terminal DrillSucceeded" "terminal DrillFailed" "terminal DrillCancelled" "terminal DrillInconclusive"
  by (simp_all add: terminal_def)

lemma terminal_no_successor: "terminal s \<longleftrightarrow> (\<forall>t. \<not> CanTransition s t)"
  by (cases s) (auto simp: CanTransition_iff)

lemma CanTransition_stage: "CanTransition s t \<Longrightarrow> stage s < stage t"
  by (auto simp: CanTransition_iff)

lemma CanTransition_le [simp, intro]: "CanTransition s t \<Longrightarrow> s \<le> t"
  by (simp add: less_eq_DrillStatus_def CanTransition_stage)

text \<open>The order is reachability by permitted transitions.\<close>

lemma lifecycle_order: "CanTransition\<^sup>*\<^sup>* s t \<longleftrightarrow> s \<le> t"
proof
  show "CanTransition\<^sup>*\<^sup>* s t \<Longrightarrow> s \<le> t"
    by (induction rule: rtranclp_induct) (auto intro: order.trans)
next
  have next_to: "CanTransition\<^sup>*\<^sup>* u v" if "CanTransition u w" "CanTransition w v \<or> CanTransition\<^sup>*\<^sup>* w v" for u w v
    using that by (meson converse_rtranclp_into_rtranclp r_into_rtranclp)
  assume le: "s \<le> t"
  have fin: "stage t = 5 \<Longrightarrow> CanTransition\<^sup>*\<^sup>* DrillFinalizing t"
    by (cases t) (auto simp: CanTransition_iff)
  have val: "stage t \<ge> 4 \<Longrightarrow> CanTransition\<^sup>*\<^sup>* DrillValidating t"
    using next_to [OF _ disjI2 [OF fin], of DrillValidating] by (cases t) (auto simp: CanTransition_iff)
  have rest: "stage t \<ge> 3 \<Longrightarrow> CanTransition\<^sup>*\<^sup>* DrillRestoring t"
    using next_to [OF _ disjI2 [OF val], of DrillRestoring] by (cases t) (auto simp: CanTransition_iff)
  have prep: "stage t \<ge> 2 \<Longrightarrow> CanTransition\<^sup>*\<^sup>* DrillPreparing t"
    using next_to [OF _ disjI2 [OF rest], of DrillPreparing] by (cases t) (auto simp: CanTransition_iff)
  have "stage t \<ge> 1 \<Longrightarrow> CanTransition\<^sup>*\<^sup>* DrillQueued t"
    using next_to [OF _ disjI2 [OF prep], of DrillQueued] by (cases t) (auto simp: CanTransition_iff)
  with fin val rest prep le show "CanTransition\<^sup>*\<^sup>* s t"
    by (cases s; cases t) (auto simp: less_eq_DrillStatus_def)
qed

lemma CanTransition_cancel: "\<not> terminal s \<Longrightarrow> CanTransition s DrillCancelled"
  by (cases s) (auto simp: CanTransition_iff)

lemma CanTransition_abort:
  "\<not> terminal s \<Longrightarrow> s \<noteq> DrillQueued \<Longrightarrow> t \<in> {DrillFailed, DrillCancelled, DrillInconclusive} \<Longrightarrow>
   CanTransition s t"
  by (cases s) (auto simp: CanTransition_iff)

lemma Transition_None_iff: "Transition s t = None \<longleftrightarrow> CanTransition s t"
  by (simp add: Transition_def)

lemma lifecycle_length: "lifecycle s ts \<Longrightarrow> length ts + stage s \<le> 5"
proof (induction ts arbitrary: s)
  case Nil
  then show ?case by (cases s) simp_all
next
  case (Cons t ts)
  then have "length ts + stage t \<le> 5" and "stage s < stage t"
    by (simp_all add: CanTransition_stage)
  then show ?case by simp
qed

lemma lifecycle_append:
  "lifecycle s (ts @ us) \<longleftrightarrow> lifecycle s ts \<and> lifecycle (last (s # ts)) us"
  by (induction ts arbitrary: s) auto

lemma lifecycle_terminal: "lifecycle s ts \<Longrightarrow> terminal s \<Longrightarrow> ts = []"
  by (cases ts) (auto simp: terminal_no_successor)

lemma before_succeeded: "CanTransition s DrillSucceeded \<longleftrightarrow> s = DrillFinalizing"
  by (auto simp: CanTransition_iff)

lemma lifecycle_to_success:
  "lifecycle s ts \<Longrightarrow> ts \<noteq> [] \<Longrightarrow> last ts = DrillSucceeded \<Longrightarrow>
   ts = drop (Suc (stage s))
     [DrillQueued, DrillPreparing, DrillRestoring, DrillValidating, DrillFinalizing, DrillSucceeded]"
proof (induction ts arbitrary: s)
  case (Cons t ts)
  have "CanTransition s t" and "lifecycle t ts" using Cons.prems by simp_all
  moreover have "ts = [] \<Longrightarrow> t = DrillSucceeded" using Cons.prems by simp
  moreover have "ts \<noteq> [] \<Longrightarrow> \<not> terminal t" using calculation(2) lifecycle_terminal by blast
  moreover have "ts \<noteq> [] \<Longrightarrow> ts = drop (Suc (stage t))
     [DrillQueued, DrillPreparing, DrillRestoring, DrillValidating, DrillFinalizing, DrillSucceeded]"
    using Cons.IH [OF \<open>lifecycle t ts\<close>] Cons.prems by simp
  ultimately show ?case
    by (cases "ts = []") (auto simp: CanTransition_iff)
qed simp

lemma time_Sub_nonneg: "u \<le> t \<Longrightarrow> 0 \<le> time_Sub t u"
  by (simp add: time_Sub_def)

lemma time_Sub_exact: "u \<le> t \<Longrightarrow> t - u \<le> max_int64 \<Longrightarrow> time_Sub t u = t - u"
  by (simp add: time_Sub_def)

text \<open>The measurement truncates to whole seconds: for database timestamps (whole
  microseconds) always, for clock readings below \<open>2^24\<close> seconds.\<close>

lemma time_Sub_seconds:
  assumes "u \<le> t" and "t - u \<le> max_int64" and "1000 dvd t - u \<or> t - u < 16777216 * time_Second"
  shows "int64_Seconds (time_Sub t u) = (t - u) div time_Second"
  using assms int64_Seconds_exact [of "t - u"] int64_Seconds_micros [of "t - u"]
  by (auto simp: time_Sub_exact)

lemma int64_Seconds_rounds_up: "int64_Seconds (16777216 * time_Second + 999999999) = 16777217"
  by code_simp

lemma assess_loop_flags:
  "assess_loop vs rf ltd =
     (rf \<or> list_ex (\<lambda>v. vo_Required v \<and> vo_Status v = ValidationFail) vs,
      ltd \<or> list_ex (\<lambda>v. vo_Status v = ValidationWarning \<or> vo_Status v = ValidationInconclusive
                  \<or> (\<not> vo_Required v \<and> vo_Status v = ValidationFail)) vs)"
  by (induction vs rf ltd rule: assess_loop.induct) auto

lemma all_pass_iff:
  "list_all (\<lambda>v. vo_Status v = ValidationPass) vs \<longleftrightarrow>
     \<not> list_ex (\<lambda>v. vo_Required v \<and> vo_Status v = ValidationFail) vs \<and>
     \<not> list_ex (\<lambda>v. vo_Status v = ValidationWarning \<or> vo_Status v = ValidationInconclusive
                  \<or> (\<not> vo_Required v \<and> vo_Status v = ValidationFail)) vs"
proof (induction vs)
  case (Cons v vs)
  then show ?case by (cases "vo_Status v") auto
qed simp


section \<open>Properties\<close>

text \<open>
  The life cycle is rejected nowhere but on the documented path: a run of permitted
  transitions from \<open>QUEUED\<close> that ends in \<open>SUCCEEDED\<close> passes through \<open>PREPARING\<close>, \<open>RESTORING\<close>,
  \<open>VALIDATING\<close> and \<open>FINALIZING\<close>, in this order and without a skip.
\<close>

theorem success_only_by_full_lifecycle:
  assumes "lifecycle DrillQueued ts" and "ts \<noteq> []" and "last ts = DrillSucceeded"
  shows "ts = [DrillPreparing, DrillRestoring, DrillValidating, DrillFinalizing, DrillSucceeded]"
  using lifecycle_to_success [OF assms] by simp

theorem success_only_by_full_lifecycle_witness:
  "lifecycle DrillQueued [DrillPreparing, DrillRestoring, DrillValidating, DrillFinalizing, DrillSucceeded] \<and>
   [DrillPreparing, DrillRestoring, DrillValidating, DrillFinalizing, DrillSucceeded] =
     [DrillPreparing, DrillRestoring, DrillValidating, DrillFinalizing, DrillSucceeded]"
proof -
  have run: "lifecycle DrillQueued
      [DrillPreparing, DrillRestoring, DrillValidating, DrillFinalizing, DrillSucceeded]"
    by (simp add: CanTransition_iff)
  show ?thesis using run success_only_by_full_lifecycle [OF run] by simp
qed

text \<open>
  C22. Every run of the life cycle is finite: at most five transitions, none after a
  terminal status, and every status that is not terminal can still be cancelled.
\<close>

theorem lifecycle_terminates:
  "(lifecycle DrillQueued ts \<longrightarrow> length ts \<le> 5) \<and>
   (terminal s \<longleftrightarrow> (\<forall>t. Transition s t = Some ErrInvalidTransition)) \<and>
   (\<not> terminal s \<longrightarrow> Transition s DrillCancelled = None)"
  using lifecycle_length [of DrillQueued ts] terminal_no_successor [of s] CanTransition_cancel [of s]
  by (auto simp: Transition_def)

theorem lifecycle_terminates_witness:
  "lifecycle DrillQueued [DrillPreparing, DrillFailed] \<and> length [DrillPreparing, DrillFailed] \<le> 5 \<and>
   Transition DrillPreparing DrillCancelled = None"
  using lifecycle_terminates [of "[DrillPreparing, DrillFailed]" DrillPreparing]
  by (simp add: CanTransition_iff)

text \<open>
  C23. RPO: the decision over a snapshot is \<open>INCONCLUSIVE\<close> when its completion time is
  missing or lies after the drill, or the target is not positive; otherwise it is \<open>PASS\<close>
  exactly when the snapshot's age in whole seconds is at most the target. Timestamps are
  database timestamps, whole microseconds, at most 292 years apart.
\<close>

theorem rpo_decision:
  assumes "1000 dvd drill - snap" and "drill - snap \<le> max_int64"
  shows "EvaluatePolicy (fst (MeasureRPO drill snap)) (snd (MeasureRPO drill snap)) target =
    (if snap = 0 \<or> drill < snap \<or> target \<le> 0 then PolicyInconclusive
     else if (drill - snap) div time_Second \<le> target then PolicyPass else PolicyFail)"
proof (cases "snap = 0 \<or> drill < snap")
  case True
  then show ?thesis by (auto simp: MeasureRPO_def EvaluatePolicy_def IsZero_def)
next
  case False
  then have "int64_Seconds (time_Sub drill snap) = (drill - snap) div time_Second"
    using assms by (intro time_Sub_seconds) auto
  with False show ?thesis
    by (simp add: MeasureRPO_def EvaluatePolicy_def IsZero_def pos_imp_zdiv_neg_iff)
qed

theorem rpo_decision_witness:
  "EvaluatePolicy (fst (MeasureRPO (20000 * time_Second) (5600 * time_Second)))
     (snd (MeasureRPO (20000 * time_Second) (5600 * time_Second))) 86400 = PolicyPass \<and>
   EvaluatePolicy (fst (MeasureRPO (20000 * time_Second) (5600 * time_Second)))
     (snd (MeasureRPO (20000 * time_Second) (5600 * time_Second))) 3600 = PolicyFail"
  using rpo_decision [of "20000 * time_Second" "5600 * time_Second"] by simp

text \<open>
  RTO: the same decision over the time from the drill's start to the completed
  validation, for clock readings of nanosecond resolution and recoveries shorter than
  \<open>2^24\<close> seconds (194 days; targets are capped at seven days).
\<close>

theorem rto_decision:
  assumes "ready - started < 16777216 * time_Second"
  shows "EvaluatePolicy (fst (MeasureRTO started ready)) (snd (MeasureRTO started ready)) target =
    (if started = 0 \<or> ready = 0 \<or> ready < started \<or> target \<le> 0 then PolicyInconclusive
     else if (ready - started) div time_Second \<le> target then PolicyPass else PolicyFail)"
proof (cases "started = 0 \<or> ready = 0 \<or> ready < started")
  case True
  then show ?thesis by (auto simp: MeasureRTO_def EvaluatePolicy_def IsZero_def)
next
  case False
  then have "int64_Seconds (time_Sub ready started) = (ready - started) div time_Second"
    using assms by (intro time_Sub_seconds) auto
  with False show ?thesis
    by (simp add: MeasureRTO_def EvaluatePolicy_def IsZero_def pos_imp_zdiv_neg_iff)
qed

theorem rto_decision_witness:
  "EvaluatePolicy (fst (MeasureRTO 7 (7 + 31 * time_Minute))) (snd (MeasureRTO 7 (7 + 31 * time_Minute))) 1800
     = PolicyFail"
  using rto_decision [of "7 + 31 * time_Minute" 7 1800] by simp

text \<open>
  The assessment: \<open>VERIFIED\<close> needs a passed restore, at least one validation, no result
  other than \<open>PASS\<close> and intact evidence; a failed restore or a failed required validation is
  \<open>FAILED\<close>, and nothing else is; \<open>INCONCLUSIVE\<close> is a passed restore without any validation.
  The confidence follows the assessment.
\<close>

theorem assess_characterised:
  "(fst (Assess restorePassed vs integrity) = Verified \<longleftrightarrow>
      restorePassed \<and> vs \<noteq> [] \<and> integrity \<and> list_all (\<lambda>v. vo_Status v = ValidationPass) vs) \<and>
   (fst (Assess restorePassed vs integrity) = AssessmentFailed \<longleftrightarrow>
      \<not> restorePassed \<or> list_ex (\<lambda>v. vo_Required v \<and> vo_Status v = ValidationFail) vs) \<and>
   (fst (Assess restorePassed vs integrity) = AssessmentUnknown \<longleftrightarrow> restorePassed \<and> vs = []) \<and>
   snd (Assess restorePassed vs integrity) =
     (case fst (Assess restorePassed vs integrity) of
        Verified \<Rightarrow> ConfidenceHigh | PartiallyVerified \<Rightarrow> ConfidenceMedium | _ \<Rightarrow> ConfidenceLow)"
  by (cases vs) (auto simp: Assess_def assess_loop_flags all_pass_iff Let_def split: if_splits)

theorem assess_characterised_witness:
  "fst (Assess True [\<lparr>vo_Status = ValidationPass, vo_Required = True\<rparr>] True) = Verified \<and>
   fst (Assess True [\<lparr>vo_Status = ValidationFail, vo_Required = True\<rparr>] True) = AssessmentFailed"
  using assess_characterised [of True "[\<lparr>vo_Status = ValidationPass, vo_Required = True\<rparr>]" True]
    assess_characterised [of True "[\<lparr>vo_Status = ValidationFail, vo_Required = True\<rparr>]" True]
  by simp

end
