(* ===== verification/Utf8.thy ===== *)
theory Utf8
  imports RG_Prelude
begin

text \<open>
  Runes of a byte string (\<open>utf8.DecodeRune\<close>) and \<open>bytes.EqualFold\<close>, the comparison behind the
  worker's \<open>equalHash\<close>. Below 128 folding is ASCII lower case; two runes outside ASCII fold to
  an ASCII letter (the Kelvin sign to k, the long s to s); the classes of the other runes are a
  parameter.
\<close>

definition cont :: "nat \<Rightarrow> bool" where
  "cont b = (128 \<le> b \<and> b \<le> 191)"

text \<open>The second byte's range after a lead byte of a three or four byte sequence.\<close>

definition second_ok :: "nat \<Rightarrow> nat \<Rightarrow> bool" where
  "second_ok b0 b1 =
     (if b0 = 224 then 160 \<le> b1 \<and> b1 \<le> 191
      else if b0 = 237 then 128 \<le> b1 \<and> b1 \<le> 159
      else if b0 = 240 then 144 \<le> b1 \<and> b1 \<le> 191
      else if b0 = 244 then 128 \<le> b1 \<and> b1 \<le> 143
      else cont b1)"

text \<open>The rune at the head of a non-empty string and its width; an invalid byte is the
  replacement character with width one.\<close>

definition decode_rune :: "nat list \<Rightarrow> nat \<times> nat" where
  "decode_rune bs =
     (case bs of
        [] \<Rightarrow> (65533, 1)
      | b0 # r \<Rightarrow>
          if b0 < 128 then (b0, 1)
          else if 194 \<le> b0 \<and> b0 \<le> 223 then
            (case r of b1 # _ \<Rightarrow> if cont b1 then ((b0 - 192) * 64 + (b1 - 128), 2) else (65533, 1) | _ \<Rightarrow> (65533, 1))
          else if 224 \<le> b0 \<and> b0 \<le> 239 then
            (case r of b1 # b2 # _ \<Rightarrow>
                if second_ok b0 b1 \<and> cont b2
                then ((b0 - 224) * 4096 + (b1 - 128) * 64 + (b2 - 128), 3) else (65533, 1)
             | _ \<Rightarrow> (65533, 1))
          else if 240 \<le> b0 \<and> b0 \<le> 244 then
            (case r of b1 # b2 # b3 # _ \<Rightarrow>
                if second_ok b0 b1 \<and> cont b2 \<and> cont b3
                then ((b0 - 240) * 262144 + (b1 - 128) * 4096 + (b2 - 128) * 64 + (b3 - 128), 4)
                else (65533, 1)
             | _ \<Rightarrow> (65533, 1))
          else (65533, 1))"

lemma decode_width: "0 < snd (decode_rune bs)"
  by (auto simp: decode_rune_def split: list.splits)

function rune_list :: "nat list \<Rightarrow> nat list" where
  "rune_list bs =
     (if bs = [] then [] else fst (decode_rune bs) # rune_list (drop (snd (decode_rune bs)) bs))"
  by auto
termination by (relation "measure length") (auto simp: decode_width)

declare rune_list.simps [simp del]

definition runes :: "string \<Rightarrow> nat list" where
  "runes s = rune_list (map of_char s)"

text \<open>\<open>utf8.Valid\<close>: no byte decodes to the replacement character with width one.\<close>

function valid_utf8 :: "nat list \<Rightarrow> bool" where
  "valid_utf8 bs =
     (if bs = [] then True
      else decode_rune bs \<noteq> (65533, 1) \<and> valid_utf8 (drop (snd (decode_rune bs)) bs))"
  by auto
termination by (relation "measure length") (auto simp: decode_width)

declare valid_utf8.simps [simp del]

lemma valid_utf8_ascii: "list_all (\<lambda>b. b < 128) bs \<Longrightarrow> valid_utf8 bs"
proof (induction bs)
  case (Cons b bs)
  then show ?case by (subst valid_utf8.simps) (simp add: decode_rune_def)
qed (simp add: valid_utf8.simps)

definition fold_rune :: "(nat \<Rightarrow> nat) \<Rightarrow> nat \<Rightarrow> nat" where
  "fold_rune nf r =
     (if r < 128 then (if 65 \<le> r \<and> r \<le> 90 then r + 32 else r)
      else if r = 8490 then 107
      else if r = 383 then 115
      else 128 + nf r)"

definition EqualFold :: "(nat \<Rightarrow> nat) \<Rightarrow> string \<Rightarrow> string \<Rightarrow> bool" where
  "EqualFold nf s t = (map (fold_rune nf) (runes s) = map (fold_rune nf) (runes t))"

text \<open>ASCII lower case of a byte.\<close>

definition lower_char :: "char \<Rightarrow> char" where
  "lower_char c = (if is_upper c then char_of ((of_char c :: nat) + 32) else c)"


section \<open>Comparison with an ASCII string\<close>

lemma rune_list_Cons:
  "rune_list (b # bs) = fst (decode_rune (b # bs)) # rune_list (drop (snd (decode_rune (b # bs))) (b # bs))"
  by (subst rune_list.simps) simp

lemma rune_list_ascii: "list_all (\<lambda>b. b < 128) bs \<Longrightarrow> rune_list bs = bs"
proof (induction bs)
  case (Cons b bs)
  then show ?case by (simp add: rune_list.simps [of "b # bs"] decode_rune_def)
qed (simp add: rune_list.simps)

lemma decode_ascii: "fst (decode_rune (b # bs)) < 128 \<Longrightarrow> b < 128"
  by (auto simp: decode_rune_def cont_def second_ok_def split: if_splits list.splits)

lemma decode_one: "b < 128 \<Longrightarrow> decode_rune (b # bs) = (b, 1)"
  by (simp add: decode_rune_def)

text \<open>When the folded runes are those of an ASCII string without k and s, every byte is ASCII.\<close>

lemma fold_plain: "fold_rune nf r < 128 \<Longrightarrow> fold_rune nf r \<noteq> 107 \<Longrightarrow> fold_rune nf r \<noteq> 115 \<Longrightarrow> r < 128"
  by (auto simp: fold_rune_def split: if_splits)

lemma rune_list_plain:
  "list_all (\<lambda>r. fold_rune nf r < 128 \<and> fold_rune nf r \<noteq> 107 \<and> fold_rune nf r \<noteq> 115) (rune_list bs) \<Longrightarrow>
   list_all (\<lambda>b. b < 128) bs"
proof (induction bs rule: rune_list.induct)
  case (1 bs)
  show ?case
  proof (cases bs)
    case (Cons b rest)
    have "fst (decode_rune bs) < 128"
      using 1(2) fold_plain [of nf] by (auto simp: Cons rune_list_Cons)
    then have b: "b < 128" using decode_ascii Cons by blast
    have "list_all (\<lambda>b. b < 128) (drop (snd (decode_rune bs)) bs)"
      using 1 by (auto simp: Cons rune_list_Cons)
    then show ?thesis using b Cons by (simp add: decode_one)
  qed simp
qed

definition hex_text :: "string \<Rightarrow> bool" where
  "hex_text s = list_all (\<lambda>c. is_digit c \<or> (97 \<le> (of_char c :: nat) \<and> (of_char c :: nat) \<le> 102)) s"

lemma fold_hex:
  "is_digit c \<or> (97 \<le> (of_char c :: nat) \<and> (of_char c :: nat) \<le> 102) \<Longrightarrow>
   fold_rune nf (of_char c) = of_char c \<and> (of_char c :: nat) < 128 \<and> (of_char c :: nat) \<noteq> 107 \<and> (of_char c :: nat) \<noteq> 115"
  by (auto simp: fold_rune_def is_digit_def)

lemma fold_lower: "(of_char c :: nat) < 128 \<Longrightarrow> fold_rune nf (of_char c) = of_char (lower_char c)"
  by (auto simp: fold_rune_def lower_char_def is_upper_def of_char_of)

lemma lower_small:
  "is_digit (lower_char c) \<or> (97 \<le> (of_char (lower_char c) :: nat) \<and> (of_char (lower_char c) :: nat) \<le> 102) \<Longrightarrow>
   (of_char c :: nat) < 128"
  by (auto simp: lower_char_def is_upper_def is_digit_def split: if_splits)

lemma EqualFold_hex:
  assumes "hex_text t"
  shows "EqualFold nf s t \<longleftrightarrow> map lower_char s = t"
proof -
  let ?n = "map of_char :: string \<Rightarrow> nat list"
  have "runes t = ?n t"
    unfolding runes_def
    by (rule rune_list_ascii) (use assms fold_hex in \<open>auto simp: hex_text_def list_all_iff\<close>)
  then have t: "map (fold_rune nf) (runes t) = ?n t"
    using assms fold_hex by (auto simp: hex_text_def list_all_iff)
  have ascii: "list_all (\<lambda>b. b < 128) (?n s)" if "map (fold_rune nf) (runes s) = ?n t"
  proof (rule rune_list_plain [of nf])
    have "set (map (fold_rune nf) (rune_list (?n s))) = of_char ` set t"
      using that by (metis list.set_map runes_def)
    then have "fold_rune nf r \<in> of_char ` set t" if "r \<in> set (rune_list (?n s))" for r
      using that by auto
    then show "list_all (\<lambda>r. fold_rune nf r < 128 \<and> fold_rune nf r \<noteq> 107 \<and> fold_rune nf r \<noteq> 115) (rune_list (?n s))"
      using assms fold_hex by (fastforce simp: hex_text_def list_all_iff)
  qed
  have lower_ascii: "list_all (\<lambda>b. b < 128) (?n s)" if "map lower_char s = t"
    using that assms lower_small by (auto simp: hex_text_def list_all_iff)
  have "map (fold_rune nf) (runes s) = ?n (map lower_char s)" if "list_all (\<lambda>b. b < 128) (?n s)"
    using that rune_list_ascii [OF that] by (auto simp: runes_def list_all_iff fold_lower)
  then show ?thesis
    unfolding EqualFold_def t using ascii lower_ascii
    by (metis (no_types, lifting) inj_map_eq_map inj_of_char)
qed

end
