(* ===== verification/Text_Formats.thy ===== *)
theory Text_Formats
  imports Utf8
begin

text \<open>
  The text formats of the Go standard library that the accounts, the HTTP interface and the
  report rely on: decimal numbers (\<open>fmt.Sscanf\<close> with \<open>%d\<close>, \<open>strconv.Atoi\<close>, \<open>%010d\<close>), base64
  (\<open>StdEncoding\<close> and \<open>RawStdEncoding\<close>), \<open>strings.TrimSpace\<close> and \<open>time.Duration.String\<close>.
\<close>

section \<open>Decimal numbers\<close>

definition digit_value :: "char \<Rightarrow> int" where
  "digit_value c = int (of_char c) - 48"

definition dec_value :: "string \<Rightarrow> int" where
  "dec_value s = foldl (\<lambda>n c. 10 * n + digit_value c) 0 s"

text \<open>\<open>%0wd\<close> for a number that is not negative.\<close>

definition zero_pad :: "nat \<Rightarrow> string \<Rightarrow> string" where
  "zero_pad w s = replicate (w - length s) (CHR ''0'') @ s"

text \<open>
  \<open>strconv.ParseUint(s, 10, 64)\<close> from the left: a number that overflows is a range error even
  when a later byte is not a digit. \<open>strconv.Atoi\<close> with its error ignored: 0 for a syntax
  error, the nearest \<open>int64\<close> for a range error.
\<close>

datatype parsed = Syntax_Error | Range_Error | Parsed int

fun ParseUint :: "int \<Rightarrow> string \<Rightarrow> parsed" where
  "ParseUint n [] = Parsed n"
| "ParseUint n (c # cs) =
     (if \<not> is_digit c then Syntax_Error
      else if 10 * n + digit_value c \<ge> 2 ^ 64 then Range_Error
      else ParseUint (10 * n + digit_value c) cs)"

definition Atoi :: "string \<Rightarrow> int64" where
  "Atoi s =
     (let neg = HasPrefix s ''-'';
          ds = (if HasPrefix s ''-'' \<or> HasPrefix s ''+'' then tl s else s)
      in if ds = [] then 0
         else case ParseUint 0 ds of
             Syntax_Error \<Rightarrow> 0
           | Range_Error \<Rightarrow> if neg then min_int64 else max_int64
           | Parsed n \<Rightarrow> if neg then max min_int64 (- n) else min max_int64 n)"

text \<open>
  \<open>fmt.Sscanf\<close> on runes: the verb \<open>%d\<close> into an unsigned integer of \<open>bits\<close> bits skips white
  space (a newline is an error), needs a digit, and fails when the number does not fit; a
  literal must match. Input after the format is left alone.
\<close>

definition is_space_rune :: "nat \<Rightarrow> bool" where
  "is_space_rune r =
     ((9 \<le> r \<and> r \<le> 13) \<or> r = 32 \<or> r = 133 \<or> r = 160 \<or> r = 5760 \<or> (8192 \<le> r \<and> r \<le> 8202) \<or>
      r = 8232 \<or> r = 8233 \<or> r = 8239 \<or> r = 8287 \<or> r = 12288)"

abbreviation (input) digit_rune :: "nat \<Rightarrow> bool" where
  "digit_rune r \<equiv> 48 \<le> r \<and> r \<le> 57"

fun skip_space :: "nat list \<Rightarrow> nat list option" where
  "skip_space [] = Some []"
| "skip_space (r # rs) =
     (if r = 10 then None else if is_space_rune r then skip_space rs else Some (r # rs))"

definition scan_uint :: "nat \<Rightarrow> nat list \<Rightarrow> (nat \<times> nat list) option" where
  "scan_uint bits rs =
     (case skip_space rs of
        None \<Rightarrow> None
      | Some rs' \<Rightarrow>
          let ds = takeWhile (\<lambda>r. digit_rune r) rs'; v = foldl (\<lambda>n r. 10 * n + (r - 48)) 0 ds
          in if ds = [] \<or> v \<ge> 2 ^ bits then None else Some (v, dropWhile (\<lambda>r. digit_rune r) rs'))"

definition scan_literal :: "string \<Rightarrow> nat list \<Rightarrow> nat list option" where
  "scan_literal lit rs =
     (if take (length lit) rs = map of_char lit then Some (drop (length lit) rs) else None)"


section \<open>base64\<close>

definition b64_char :: "nat \<Rightarrow> char" where
  "b64_char n =
     (if n < 26 then char_of (65 + n) else if n < 52 then char_of (71 + n)
      else if n < 62 then char_of (n - 4) else if n = 62 then CHR ''+'' else CHR ''/'')"

definition b64_value :: "char \<Rightarrow> nat option" where
  "b64_value c =
     (if is_upper c then Some (of_char c - 65) else if is_lower c then Some (of_char c - 71)
      else if is_digit c then Some (of_char c + 4) else if c = CHR ''+'' then Some 62
      else if c = CHR ''/'' then Some 63 else None)"

fun b64_encode :: "bool \<Rightarrow> bytes \<Rightarrow> string" where
  "b64_encode pad [] = []"
| "b64_encode pad [a] =
     b64_char (of_char a div 4) # b64_char (of_char a mod 4 * 16) # (if pad then ''=='' else [])"
| "b64_encode pad [a, b] =
     (let n = ((of_char a :: nat) * 256 + of_char b) * 4 in
      b64_char (n div 4096) # b64_char (n div 64 mod 64) # b64_char (n mod 64) # (if pad then ''='' else []))"
| "b64_encode pad (a # b # c # r) =
     (let n = (of_char a :: nat) * 65536 + of_char b * 256 + of_char c in
      b64_char (n div 262144) # b64_char (n div 4096 mod 64) # b64_char (n div 64 mod 64) # b64_char (n mod 64) #
        b64_encode pad r)"

text \<open>A group of two, three or four values, as one, two or three bytes; bits beyond the last
  byte are ignored.\<close>

definition quantum2 :: "char \<Rightarrow> char \<Rightarrow> bytes option" where
  "quantum2 a b =
     (case (b64_value a, b64_value b) of
        (Some x, Some y) \<Rightarrow> Some [char_of ((x * 64 + y) div 16)]
      | _ \<Rightarrow> None)"

definition quantum3 :: "char \<Rightarrow> char \<Rightarrow> char \<Rightarrow> bytes option" where
  "quantum3 a b c =
     (case (b64_value a, b64_value b, b64_value c) of
        (Some x, Some y, Some z) \<Rightarrow>
          let n = x * 4096 + y * 64 + z in Some [char_of (n div 1024), char_of (n div 4 mod 256)]
      | _ \<Rightarrow> None)"

definition quantum4 :: "char \<Rightarrow> char \<Rightarrow> char \<Rightarrow> char \<Rightarrow> bytes option" where
  "quantum4 a b c d =
     (case (b64_value a, b64_value b, b64_value c, b64_value d) of
        (Some x, Some y, Some z, Some u) \<Rightarrow>
          let n = x * 262144 + y * 4096 + z * 64 + u
          in Some [char_of (n div 65536), char_of (n div 256 mod 256), char_of (n mod 256)]
      | _ \<Rightarrow> None)"

fun b64_quanta :: "bool \<Rightarrow> string \<Rightarrow> bytes option" where
  "b64_quanta pad [] = Some []"
| "b64_quanta pad [a] = None"
| "b64_quanta pad [a, b] = (if pad then None else quantum2 a b)"
| "b64_quanta pad [a, b, c] = (if pad then None else quantum3 a b c)"
| "b64_quanta pad (a # b # c # d # r) =
     (if pad \<and> d = CHR ''='' then
        if r \<noteq> [] then None
        else if c = CHR ''='' then quantum2 a b else quantum3 a b c
      else case (quantum4 a b c d, b64_quanta pad r) of
          (Some x, Some y) \<Rightarrow> Some (x @ y)
        | _ \<Rightarrow> None)"

text \<open>Line ends are ignored anywhere in the input.\<close>

definition b64_decode :: "bool \<Rightarrow> string \<Rightarrow> bytes option" where
  "b64_decode pad s = b64_quanta pad (filter (\<lambda>c. c \<noteq> CHR 0x0A \<and> c \<noteq> CHR 0x0D) s)"


section \<open>White space and durations\<close>

function trim_left :: "nat list \<Rightarrow> nat list" where
  "trim_left bs =
     (if bs \<noteq> [] \<and> is_space_rune (fst (decode_rune bs)) then trim_left (drop (snd (decode_rune bs)) bs)
      else bs)"
  by auto
termination by (relation "measure length") (auto simp: decode_width)

declare trim_left.simps [simp del]

text \<open>\<open>utf8.DecodeLastRune\<close>: back to the last start byte among the last four.\<close>

definition last_start :: "nat list \<Rightarrow> nat" where
  "last_start bs =
     (let n = length bs; back = takeWhile (\<lambda>b. cont b) (rev (drop (n - 4) bs))
      in n - min (length back + 1) n)"

definition decode_last :: "nat list \<Rightarrow> nat \<times> nat" where
  "decode_last bs =
     (let tail = drop (last_start bs) bs; (r, size) = decode_rune tail
      in if size = length tail then (r, size) else (65533, 1))"

lemma decode_last_width: "0 < snd (decode_last bs)"
  using decode_width [of "drop (last_start bs) bs"] by (auto simp: decode_last_def Let_def split: prod.splits)

function trim_right :: "nat list \<Rightarrow> nat list" where
  "trim_right bs =
     (if bs \<noteq> [] \<and> is_space_rune (fst (decode_last bs))
      then trim_right (take (length bs - snd (decode_last bs)) bs) else bs)"
  by auto
termination by (relation "measure length") (auto simp: decode_last_width)

declare trim_right.simps [simp del]

definition TrimSpace :: "string \<Rightarrow> string" where
  "TrimSpace s = map char_of (trim_right (trim_left (map of_char s)))"

text \<open>\<open>fmtFrac\<close>: the last \<open>prec\<close> decimal digits of \<open>v\<close> as a fraction without trailing zeros.\<close>

fun fmt_frac :: "int \<Rightarrow> nat \<Rightarrow> bool \<Rightarrow> string \<Rightarrow> string" where
  "fmt_frac v 0 print acc = (if print then CHR ''.'' # acc else acc)"
| "fmt_frac v (Suc prec) print acc =
     (let digit = v mod 10; print' = (print \<or> digit \<noteq> 0)
      in fmt_frac (v div 10) prec print' (if print' then digit_char (nat digit) # acc else acc))"

definition Duration_String :: "duration \<Rightarrow> string" where
  "Duration_String d =
     (let u = \<bar>d\<bar>;
          body =
            (if u = 0 then ''0s''
             else if u < 1000 then format_dec u @ ''ns''
             else if u < 1000000 then format_dec (u div 1000) @ fmt_frac u 3 False [] @ [CHR 0xC2, CHR 0xB5] @ ''s''
             else if u < time_Second then format_dec (u div 1000000) @ fmt_frac u 6 False [] @ ''ms''
             else
               let secs = u div time_Second; mins = secs div 60; hours = mins div 60 in
               (if hours > 0 then format_dec hours @ ''h'' else []) @
               (if mins > 0 then format_dec (mins mod 60) @ ''m'' else []) @
               format_dec (secs mod 60) @ fmt_frac u 9 False [] @ ''s'')
      in if d < 0 then CHR ''-'' # body else body)"


section \<open>Lemmas\<close>

lemma dec_value_append: "dec_value (s @ [c]) = 10 * dec_value s + digit_value c"
  by (simp add: dec_value_def)

lemma digit_char_value: "0 \<le> d \<Longrightarrow> d < 10 \<Longrightarrow> digit_value (digit_char (nat d)) = d"
  by (simp add: digit_value_def of_char_of)

lemma digit_char_digit: "0 \<le> d \<Longrightarrow> d < 10 \<Longrightarrow> is_digit (digit_char (nat d))"
  by (simp add: is_digit_def of_char_of)

lemma format_dec_value: "0 \<le> i \<Longrightarrow> dec_value (format_dec i) = i"
proof (induction i rule: format_dec.induct)
  case (1 i)
  show ?case
  proof (cases "i < 10")
    case True
    with 1(2) show ?thesis
      by (simp add: format_dec.simps [of i] dec_value_def digit_char_value)
  next
    case False
    with 1 have "dec_value (format_dec (i div 10)) = i div 10" by simp
    with False show ?thesis
      by (simp add: format_dec.simps [of i] dec_value_append digit_char_value)
  qed
qed

lemma format_dec_digits: "0 \<le> i \<Longrightarrow> list_all is_digit (format_dec i)"
proof (induction i rule: format_dec.induct)
  case (1 i)
  then show ?case
    by (cases "i < 10") (simp_all add: format_dec.simps [of i] digit_char_digit)
qed

lemma format_dec_ne [simp]: "format_dec i \<noteq> []"
  by (subst format_dec.simps) simp

lemma format_dec_length: "0 \<le> i \<Longrightarrow> 0 < n \<Longrightarrow> i < 10 ^ n \<Longrightarrow> length (format_dec i) \<le> n"
proof (induction n arbitrary: i)
  case (Suc n)
  show ?case
  proof (cases "i < 10")
    case False
    then have "0 < n" using Suc.prems by (cases n) simp_all
    moreover have "i div 10 < 10 ^ n" using Suc.prems(3) unfolding power_Suc by linarith
    ultimately have "length (format_dec (i div 10)) \<le> n" using Suc by simp
    with False show ?thesis by (simp add: format_dec.simps [of i])
  qed (simp add: format_dec.simps [of i])
qed simp

lemma dec_value_zero_pad: "0 \<le> i \<Longrightarrow> dec_value (zero_pad w (format_dec i)) = i"
proof -
  assume i: "0 \<le> i"
  have "foldl (\<lambda>n c. 10 * n + digit_value c) 0 (replicate k (CHR ''0'')) = 0" for k
    by (induction k) (simp_all add: digit_value_def)
  with i format_dec_value [OF i] show ?thesis by (simp add: zero_pad_def dec_value_def)
qed

lemma length_zero_pad: "length s \<le> w \<Longrightarrow> length (zero_pad w s) = w"
  by (simp add: zero_pad_def)

section \<open>Lemmas on base64\<close>

lemma b64_value_char: "n < 64 \<Longrightarrow> b64_value (b64_char n) = Some n"
  by (auto simp: b64_value_def b64_char_def is_upper_def is_lower_def is_digit_def of_char_of)

lemma char_of_neq: "of_char c \<noteq> (n :: nat) \<Longrightarrow> n < 256 \<Longrightarrow> c \<noteq> char_of n"
  by (auto simp: of_char_of)

text \<open>The alphabet has neither the padding character, nor the separator of the password
  format, nor a line end.\<close>

lemma b64_char_plain:
  "b64_char n \<noteq> CHR ''=''" "b64_char n \<noteq> CHR ''$''" "b64_char n \<noteq> CHR 0x0A" "b64_char n \<noteq> CHR 0x0D"
proof -
  have "(of_char (b64_char n) :: nat) \<notin> {61, 36, 10, 13}"
    by (auto simp: b64_char_def of_char_of)
  moreover have "(of_char (CHR ''='') :: nat) = 61" "(of_char (CHR ''$'') :: nat) = 36"
    "(of_char (CHR 0x0A) :: nat) = 10" "(of_char (CHR 0x0D) :: nat) = 13" by simp_all
  ultimately show "b64_char n \<noteq> CHR ''=''" "b64_char n \<noteq> CHR ''$''" "b64_char n \<noteq> CHR 0x0A"
    "b64_char n \<noteq> CHR 0x0D" by (metis insertCI)+
qed

lemma sextets:
  fixes n :: nat
  shows "n div 64 * 64 + n mod 64 = n" "n div 4096 * 64 + n div 64 mod 64 = n div 64"
    "n div 262144 * 64 + n div 4096 mod 64 = n div 4096"
  using div_mult_mod_eq [of "n div 64" 64] div_mult_mod_eq [of "n div 4096" 64]
  by (simp_all add: div_mult2_eq [symmetric])

lemma octets:
  fixes x :: nat
  assumes "y < 256"
  shows "(x * 256 + y) div 256 = x" "(x * 256 + y) mod 256 = y"
  using assms by simp_all

lemma quantum2_encode: "quantum2 (b64_char (of_char a div 4)) (b64_char (of_char a mod 4 * 16)) = Some [a]"
proof -
  let ?n = "of_char a :: nat"
  have "?n < 64 * 4" using nat_of_char_less_256 [of a] by simp
  then have "?n div 4 < 64" by (rule less_mult_imp_div_less)
  moreover have "?n div 4 * 64 + ?n mod 4 * 16 = ?n * 16" using div_mult_mod_eq [of ?n 4] by linarith
  ultimately show ?thesis by (simp add: quantum2_def b64_value_char)
qed

lemma quantum3_encode:
  assumes "n = ((of_char a :: nat) * 256 + of_char b) * 4"
  shows "quantum3 (b64_char (n div 4096)) (b64_char (n div 64 mod 64)) (b64_char (n mod 64)) = Some [a, b]"
proof -
  have ab: "(of_char a :: nat) \<le> 255" "(of_char b :: nat) \<le> 255"
    using nat_of_char_less_256 [of a] nat_of_char_less_256 [of b] by linarith+
  then have "n < 64 * 4096" using assms by simp
  then have "n div 4096 < 64" by (rule less_mult_imp_div_less)
  moreover have "n div 4096 * 4096 + n div 64 mod 64 * 64 + n mod 64 = n" using sextets [of n] by linarith
  moreover have q: "n div 4 = of_char a * 256 + of_char b" using assms by simp
  moreover have "n div 1024 = n div 4 div 256" by (simp add: div_mult2_eq [symmetric])
  then have "n div 1024 = of_char a" using octets ab q by simp
  moreover have "char_of (n div 4 mod 256) = b" using octets ab q by (simp del: char_of_mod_256)
  ultimately show ?thesis by (simp add: quantum3_def b64_value_char Let_def del: char_of_mod_256)
qed

lemma quantum4_encode:
  assumes "n = (of_char a :: nat) * 65536 + of_char b * 256 + of_char c"
  shows "quantum4 (b64_char (n div 262144)) (b64_char (n div 4096 mod 64)) (b64_char (n div 64 mod 64))
      (b64_char (n mod 64)) = Some [a, b, c]"
proof -
  have abc: "(of_char a :: nat) \<le> 255" "(of_char b :: nat) \<le> 255" "(of_char c :: nat) < 256"
    using nat_of_char_less_256 [of a] nat_of_char_less_256 [of b] nat_of_char_less_256 [of c] by linarith+
  then have "n < 16777216" using assms by linarith
  then have "n < 64 * 262144" by simp
  then have "n div 262144 < 64" by (rule less_mult_imp_div_less)
  moreover have "n div 262144 * 262144 + n div 4096 mod 64 * 4096 + n div 64 mod 64 * 64 + n mod 64 = n"
    using sextets [of n] by linarith
  moreover have n: "n = (of_char a * 256 + of_char b) * 256 + of_char c" using assms by simp
  have q: "n div 256 = of_char a * 256 + of_char b" unfolding n by (rule octets [OF abc(3)])
  have "n mod 256 = of_char c" unfolding n by (rule octets [OF abc(3)])
  then have "char_of (n mod 256) = c" by (simp del: char_of_mod_256)
  moreover have "char_of (n div 256 mod 256) = b" using octets abc q by (simp del: char_of_mod_256)
  moreover have "n div 65536 = n div 256 div 256" by (simp add: div_mult2_eq [symmetric])
  then have "n div 65536 = of_char a" using octets abc q by simp
  ultimately show ?thesis by (simp add: quantum4_def b64_value_char Let_def del: char_of_mod_256)
qed

lemma b64_quanta_encode: "b64_quanta pad (b64_encode pad s) = Some s"
proof (induction pad s rule: b64_encode.induct)
  case (2 pad a)
  then show ?case by (simp add: Let_def quantum2_encode)
next
  case (3 pad a b)
  then show ?case by (simp add: Let_def quantum3_encode b64_char_plain)
next
  case (4 pad a b c r)
  then show ?case by (simp add: Let_def quantum4_encode b64_char_plain)
qed simp

lemma b64_encode_chars: "c \<in> set (b64_encode pad s) \<Longrightarrow> c = CHR ''='' \<or> (\<exists>n. c = b64_char n)"
  by (induction pad s rule: b64_encode.induct) (auto simp: Let_def split: if_splits)

lemma b64_encode_plain:
  "c \<in> set (b64_encode pad s) \<Longrightarrow> c \<noteq> CHR ''$'' \<and> c \<noteq> CHR 0x0A \<and> c \<noteq> CHR 0x0D"
  using b64_encode_chars [of c pad s] b64_char_plain by auto

lemma b64_decode_encode: "b64_decode pad (b64_encode pad s) = Some s"
proof -
  have "filter (\<lambda>c. c \<noteq> CHR 0x0A \<and> c \<noteq> CHR 0x0D) (b64_encode pad s) = b64_encode pad s"
    using b64_encode_plain by (simp add: filter_id_conv)
  then show ?thesis by (simp add: b64_decode_def b64_quanta_encode)
qed

end
