(* ===== verification/Go_Json.thy ===== *)
theory Go_Json
  imports Text_Formats
begin

text \<open>
  JSON as package \<open>encoding/json\<close> writes and reads it: \<open>Marshal\<close> with its HTML-safe strings, and the
  first value a \<open>Decoder\<close> finds in its input. A reader of what was written gets the value back.
  \<open>JNum\<close> is a number written as an integer, \<open>JLit\<close> the literal of any other number.
\<close>

datatype json =
    JNull | JBool bool | JNum int | JLit string | JStr string | JArr "json list" | JObj "(string \<times> json) list"


section \<open>Writing\<close>

text \<open>A rune outside the quoted ones is written as its bytes; a byte that is no UTF-8 as the replacement
  character, the two line separators of Unicode and the characters of HTML as escapes.\<close>

definition u_escape :: "nat \<Rightarrow> string" where
  "u_escape r = CHR 0x5C # CHR ''u'' # map (\<lambda>k. hex_digit (r div 16 ^ k mod 16)) [3, 2, 1, 0]"

definition quote_rune :: "nat \<Rightarrow> string \<Rightarrow> string" where
  "quote_rune r bs =
     (if r = 0x22 \<or> r = 0x5C then [CHR 0x5C, char_of r]
      else if r = 8 then [CHR 0x5C, CHR ''b'']
      else if r = 12 then [CHR 0x5C, CHR ''f'']
      else if r = 10 then [CHR 0x5C, CHR ''n'']
      else if r = 13 then [CHR 0x5C, CHR ''r'']
      else if r = 9 then [CHR 0x5C, CHR ''t'']
      else if r < 32 \<or> r = 0x26 \<or> r = 0x3C \<or> r = 0x3E \<or> r = 0x2028 \<or> r = 0x2029 then u_escape r
      else if r = 65533 \<and> length bs = 1 then u_escape 65533
      else bs)"

function quote_body :: "string \<Rightarrow> string" where
  "quote_body s =
     (if s = [] then []
      else let n = snd (decode_rune (map of_char s)) in
        quote_rune (fst (decode_rune (map of_char s))) (take n s) @ quote_body (drop n s))"
  by auto
termination by (relation "measure length") (auto simp: decode_width)

declare quote_body.simps [simp del]

definition json_quote :: "string \<Rightarrow> string" where
  "json_quote s = CHR 0x22 # quote_body s @ [CHR 0x22]"

fun json_Marshal :: "json \<Rightarrow> string" and json_items :: "json list \<Rightarrow> string" and
    json_members :: "(string \<times> json) list \<Rightarrow> string" where
  "json_Marshal JNull = ''null''"
| "json_Marshal (JBool b) = (if b then ''true'' else ''false'')"
| "json_Marshal (JNum n) = format_int n"
| "json_Marshal (JLit s) = s"
| "json_Marshal (JStr s) = json_quote s"
| "json_Marshal (JArr xs) = ''['' @ json_items xs @ '']''"
| "json_Marshal (JObj kvs) = ''{'' @ json_members kvs @ ''}''"
| "json_items [] = []"
| "json_items (x # xs) = json_Marshal x @ (if xs = [] then [] else CHR '','' # json_items xs)"
| "json_members [] = []"
| "json_members ((k, v) # kvs) =
     json_quote k @ '':'' @ json_Marshal v @ (if kvs = [] then [] else CHR '','' # json_members kvs)"


section \<open>Reading\<close>

definition json_space :: "char \<Rightarrow> bool" where
  "json_space c = (c = CHR '' '' \<or> c = CHR 0x09 \<or> c = CHR 0x0A \<or> c = CHR 0x0D)"

fun skip_json_space :: "string \<Rightarrow> string" where
  "skip_json_space [] = []"
| "skip_json_space (c # s) = (if json_space c then skip_json_space s else c # s)"

definition hex_value :: "char \<Rightarrow> nat option" where
  "hex_value c =
     (let n = of_char c in
      if 48 \<le> n \<and> n \<le> 57 then Some (n - 48)
      else if 97 \<le> n \<and> n \<le> 102 then Some (n - 87)
      else if 65 \<le> n \<and> n \<le> 70 then Some (n - 55)
      else None)"

fun hex4 :: "string \<Rightarrow> (nat \<times> string) option" where
  "hex4 (a # b # c # d # s) =
     (case (hex_value a, hex_value b, hex_value c, hex_value d) of
        (Some w, Some x, Some y, Some z) \<Rightarrow> Some (((w * 16 + x) * 16 + y) * 16 + z, s)
      | _ \<Rightarrow> None)"
| "hex4 _ = None"

text \<open>\<open>utf8.EncodeRune\<close>.\<close>

definition encode_rune :: "nat \<Rightarrow> string" where
  "encode_rune r =
     map char_of
      (if r < 128 then [r]
       else if r < 2048 then [192 + r div 64, 128 + r mod 64]
       else if (55296 \<le> r \<and> r < 57344) \<or> 1114111 < r then [239, 191, 189]
       else if r < 65536 then [224 + r div 4096, 128 + r div 64 mod 64, 128 + r mod 64]
       else [240 + r div 262144, 128 + r div 4096 mod 64, 128 + r div 64 mod 64, 128 + r mod 64])"

text \<open>An escape of four digits: a surrogate pair is one rune, a surrogate alone the replacement character.\<close>

definition read_u :: "string \<Rightarrow> (string \<times> string) option" where
  "read_u s =
     (case hex4 s of
        None \<Rightarrow> None
      | Some (r, s1) \<Rightarrow>
          if 55296 \<le> r \<and> r < 57344 then
            (case (if HasPrefix s1 [CHR 0x5C, CHR ''u''] then hex4 (drop 2 s1) else None) of
               Some (r2, s2) \<Rightarrow>
                 if r < 56320 \<and> 56320 \<le> r2 \<and> r2 < 57344
                 then Some (encode_rune ((r - 55296) * 1024 + (r2 - 56320) + 65536), s2)
                 else Some (encode_rune 65533, s1)
             | None \<Rightarrow> Some (encode_rune 65533, s1))
          else Some (encode_rune r, s1))"

definition read_escape :: "string \<Rightarrow> (string \<times> string) option" where
  "read_escape s =
     (case s of
        [] \<Rightarrow> None
      | c # s1 \<Rightarrow>
          if c = CHR 0x22 \<or> c = CHR 0x5C \<or> c = CHR ''/'' then Some ([c], s1)
          else if c = CHR ''b'' then Some ([CHR 0x08], s1)
          else if c = CHR ''f'' then Some ([CHR 0x0C], s1)
          else if c = CHR ''n'' then Some ([CHR 0x0A], s1)
          else if c = CHR ''r'' then Some ([CHR 0x0D], s1)
          else if c = CHR ''t'' then Some ([CHR 0x09], s1)
          else if c = CHR ''u'' then read_u s1
          else None)"

text \<open>The bytes up to the closing quote. The first argument bounds the number of runes.\<close>

fun read_string :: "nat \<Rightarrow> string \<Rightarrow> (string \<times> string) option" where
  "read_string 0 s = None"
| "read_string (Suc n) s =
     (case s of
        [] \<Rightarrow> None
      | c # s1 \<Rightarrow>
          if c = CHR 0x22 then Some ([], s1)
          else if c = CHR 0x5C then
            (case read_escape s1 of
               None \<Rightarrow> None
             | Some (x, s2) \<Rightarrow> map_option (apfst ((@) x)) (read_string n s2))
          else if (of_char c :: nat) < 32 then None
          else let (r, w) = decode_rune (map of_char s) in
            map_option (apfst ((@) (if r = 65533 \<and> w = 1 then encode_rune 65533 else take w s)))
              (read_string n (drop w s)))"

text \<open>A number: an optional minus, an integer without a leading zero, an optional fraction, an optional
  exponent.\<close>

definition read_digits :: "string \<Rightarrow> (string \<times> string) option" where
  "read_digits s = (case takeWhile is_digit s of [] \<Rightarrow> None | ds \<Rightarrow> Some (ds, dropWhile is_digit s))"

definition read_int :: "string \<Rightarrow> (string \<times> string) option" where
  "read_int s = (case s of [] \<Rightarrow> None | c # s1 \<Rightarrow> if c = CHR ''0'' then Some ([c], s1) else read_digits s)"

definition read_fraction :: "string \<Rightarrow> (string \<times> string) option" where
  "read_fraction s =
     (if HasPrefix s ''.'' then map_option (apfst (Cons (CHR ''.''))) (read_digits (tl s)) else Some ([], s))"

definition read_exponent :: "string \<Rightarrow> (string \<times> string) option" where
  "read_exponent s =
     (case s of
        [] \<Rightarrow> Some ([], s)
      | c # s1 \<Rightarrow>
          if c = CHR ''e'' \<or> c = CHR ''E'' then
            (case s1 of
               [] \<Rightarrow> None
             | sg # s2 \<Rightarrow>
                 if sg = CHR ''+'' \<or> sg = CHR ''-''
                 then map_option (apfst (\<lambda>ds. c # sg # ds)) (read_digits s2)
                 else map_option (apfst (Cons c)) (read_digits s1))
          else Some ([], s))"

definition read_number :: "string \<Rightarrow> (json \<times> string) option" where
  "read_number s =
     (let neg = HasPrefix s ''-'' in
      case read_int (if neg then tl s else s) of
        None \<Rightarrow> None
      | Some (ds, s1) \<Rightarrow>
          (case read_fraction s1 of
             None \<Rightarrow> None
           | Some (fr, s2) \<Rightarrow>
               (case read_exponent s2 of
                  None \<Rightarrow> None
                | Some (ex, s3) \<Rightarrow>
                    Some (if fr = [] \<and> ex = [] then JNum (if neg then - dec_value ds else dec_value ds)
                          else JLit ((if neg then ''-'' else []) @ ds @ fr @ ex), s3))))"

definition read_word :: "string \<Rightarrow> json \<Rightarrow> string \<Rightarrow> (json \<times> string) option" where
  "read_word word v s = (if HasPrefix s word then Some (v, drop (length word) s) else None)"

text \<open>
  A value, with a bound on the steps and the nesting that is left: an array or object more is an error
  when it is 0. The members of an object and the elements of an array are read from behind the opening
  bracket or the comma.
\<close>

fun read_value :: "nat \<Rightarrow> nat \<Rightarrow> string \<Rightarrow> (json \<times> string) option"
  and read_items :: "nat \<Rightarrow> nat \<Rightarrow> string \<Rightarrow> (json list \<times> string) option"
  and read_members :: "nat \<Rightarrow> nat \<Rightarrow> string \<Rightarrow> ((string \<times> json) list \<times> string) option" where
  "read_value 0 d s = None"
| "read_value (Suc n) d s0 =
     (case skip_json_space s0 of
        [] \<Rightarrow> None
      | c # s \<Rightarrow>
          if c = CHR 0x22 then map_option (apfst JStr) (read_string (length s) s)
          else if c = CHR ''{'' then
            (if d = 0 then None
             else case skip_json_space s of
                 [] \<Rightarrow> None
               | b # s1 \<Rightarrow>
                   if b = CHR ''}'' then Some (JObj [], s1) else map_option (apfst JObj) (read_members n (d - 1) s))
          else if c = CHR ''['' then
            (if d = 0 then None
             else case skip_json_space s of
                 [] \<Rightarrow> None
               | b # s1 \<Rightarrow>
                   if b = CHR '']'' then Some (JArr [], s1) else map_option (apfst JArr) (read_items n (d - 1) s))
          else if c = CHR ''t'' then read_word ''true'' (JBool True) (c # s)
          else if c = CHR ''f'' then read_word ''false'' (JBool False) (c # s)
          else if c = CHR ''n'' then read_word ''null'' JNull (c # s)
          else read_number (c # s))"
| "read_items 0 d s = None"
| "read_items (Suc n) d s =
     (case read_value n d s of
        None \<Rightarrow> None
      | Some (v, s1) \<Rightarrow>
          (case skip_json_space s1 of
             [] \<Rightarrow> None
           | c # s2 \<Rightarrow>
               if c = CHR '']'' then Some ([v], s2)
               else if c = CHR '','' then map_option (apfst (Cons v)) (read_items n d s2)
               else None))"
| "read_members 0 d s = None"
| "read_members (Suc n) d s =
     (case skip_json_space s of
        [] \<Rightarrow> None
      | q # s1 \<Rightarrow>
          if q \<noteq> CHR 0x22 then None
          else case read_string (length s1) s1 of
              None \<Rightarrow> None
            | Some (k, s2) \<Rightarrow>
                (case skip_json_space s2 of
                   [] \<Rightarrow> None
                 | c # s3 \<Rightarrow>
                     if c \<noteq> CHR '':'' then None
                     else case read_value n d s3 of
                         None \<Rightarrow> None
                       | Some (v, s4) \<Rightarrow>
                           (case skip_json_space s4 of
                              [] \<Rightarrow> None
                            | b # s5 \<Rightarrow>
                                if b = CHR ''}'' then Some ([(k, v)], s5)
                                else if b = CHR '','' then map_option (apfst (Cons (k, v))) (read_members n d s5)
                                else None)))"

text \<open>
  \<open>Decoder.Decode\<close> on a reader: an array or an object is complete with its bracket, any other value
  when another byte follows or the input ends without an error. At most 10000 levels of nesting.
\<close>

definition json_first :: "reader \<Rightarrow> json option" where
  "json_first rd =
     (case read_value (length (r_data rd) + 1) 10000 (r_data rd) of
        None \<Rightarrow> None
      | Some (v, rest) \<Rightarrow>
          (case v of
             JObj _ \<Rightarrow> Some v
           | JArr _ \<Rightarrow> Some v
           | _ \<Rightarrow> if rest = [] \<and> r_err rd \<noteq> None then None else Some v))"


section \<open>Enough steps\<close>

text \<open>Whatever is read with some number of steps is read with as many steps as it has bytes.\<close>

lemma hex4_shorter: "hex4 s = Some (r, s1) \<Longrightarrow> length s1 < length s"
  by (cases s rule: hex4.cases) (auto split: option.splits)

lemma read_u_shorter: "read_u s = Some (x, s1) \<Longrightarrow> length s1 < length s"
  by (auto simp: read_u_def split: option.splits if_splits dest!: hex4_shorter)

lemma read_escape_shorter: "read_escape s = Some (x, s1) \<Longrightarrow> length s1 < length s"
  by (auto simp: read_escape_def split: list.splits if_splits dest: read_u_shorter)

lemma read_string_shorter: "read_string n s = Some (x, r) \<Longrightarrow> length r < length s"
proof (induction n arbitrary: s x)
  case (Suc n)
  then obtain c s1 where s: "s = c # s1" by (auto split: list.splits)
  consider "c = CHR 0x22" | "c = CHR 0x5C" | "c \<noteq> CHR 0x22" "c \<noteq> CHR 0x5C" by blast
  then show ?case
  proof cases
    case 2
    then obtain e s2 y where "read_escape s1 = Some (e, s2)" "read_string n s2 = Some (y, r)"
      using Suc.prems s by (auto split: option.splits)
    then show ?thesis using Suc.IH [of s2 y] read_escape_shorter s by fastforce
  next
    case 3
    let ?w = "snd (decode_rune (map of_char s))"
    obtain y where "read_string n (drop ?w s) = Some (y, r)"
      using Suc.prems 3 s by (auto simp: Let_def split: prod.splits if_splits)
    then show ?thesis using Suc.IH [of "drop ?w s" y] by simp
  qed (use Suc.prems s in simp)
qed simp

lemma read_string_enough:
  "read_string m s = Some (x, r) \<Longrightarrow> length s \<le> n + length r \<Longrightarrow> read_string n s = Some (x, r)"
proof (induction m arbitrary: n s x)
  case (Suc m)
  then obtain c s1 where s: "s = c # s1" by (auto split: list.splits)
  obtain n' where n: "n = Suc n'" using read_string_shorter [OF Suc.prems(1)] Suc.prems(2) by (cases n) auto
  consider "c = CHR 0x22" | "c = CHR 0x5C" | "c \<noteq> CHR 0x22" "c \<noteq> CHR 0x5C" by blast
  then show ?case
  proof cases
    case 2
    then obtain e s2 y where e: "read_escape s1 = Some (e, s2)" "read_string m s2 = Some (y, r)" "x = e @ y"
      using Suc.prems s by (auto split: option.splits)
    have "length s2 \<le> n' + length r" using read_escape_shorter [OF e(1)] Suc.prems(2) s n by simp
    from Suc.IH [OF e(2) this] show ?thesis using e 2 s n by simp
  next
    case 3
    obtain ru w where w: "decode_rune (map of_char s) = (ru, w)" by fastforce
    then have "0 < w" by (metis decode_width snd_conv)
    have not_ctl: "\<not> (of_char c :: nat) < 32" using Suc.prems(1) 3 s by (auto split: if_splits)
    obtain y where y: "read_string m (drop w s) = Some (y, r)"
        "x = (if ru = 65533 \<and> w = 1 then encode_rune 65533 else take w s) @ y"
      using Suc.prems 3 s w not_ctl by (auto split: if_splits)
    have "length (drop w s) \<le> n' + length r" using \<open>0 < w\<close> Suc.prems(2) n by simp
    from Suc.IH [OF y(1) this] show ?thesis using y(2) 3 s n w not_ctl by simp
  qed (use Suc.prems s n in simp)
qed simp

lemma skip_json_space_shorter: "length (skip_json_space s) \<le> length s"
  by (induction s) auto

lemma skip_json_space_Cons: "skip_json_space s = c # r \<Longrightarrow> length r < length s"
  using skip_json_space_shorter [of s] by simp

lemma read_digits_shorter: "read_digits s = Some (ds, r) \<Longrightarrow> length r < length s"
proof -
  assume "read_digits s = Some (ds, r)"
  then have "takeWhile is_digit s \<noteq> []" "r = dropWhile is_digit s" by (auto simp: read_digits_def split: list.splits)
  moreover have "length s = length (takeWhile is_digit s) + length (dropWhile is_digit s)"
    by (metis length_append takeWhile_dropWhile_id)
  ultimately show ?thesis by simp
qed

lemma read_int_shorter: "read_int s = Some (ds, r) \<Longrightarrow> length r < length s"
  by (auto simp: read_int_def split: list.splits if_splits dest: read_digits_shorter)

lemma read_fraction_shorter: "read_fraction s = Some (ds, r) \<Longrightarrow> length r \<le> length s"
  by (cases s) (fastforce simp: read_fraction_def HasPrefix_def split: if_splits dest: read_digits_shorter)+

lemma read_exponent_shorter: "read_exponent s = Some (ds, r) \<Longrightarrow> length r \<le> length s"
  by (fastforce simp: read_exponent_def split: list.splits if_splits dest: read_digits_shorter)

lemma read_number_shorter: "read_number s = Some (v, r) \<Longrightarrow> length r < length s"
proof -
  assume "read_number s = Some (v, r)"
  then obtain ds s1 fr s2 ex where "read_int (if HasPrefix s ''-'' then tl s else s) = Some (ds, s1)"
      "read_fraction s1 = Some (fr, s2)" "read_exponent s2 = Some (ex, r)"
    by (auto simp: read_number_def Let_def split: option.splits)
  then have "length s1 < length (if HasPrefix s ''-'' then tl s else s)" "length s2 \<le> length s1" "length r \<le> length s2"
    using read_int_shorter read_fraction_shorter read_exponent_shorter by blast+
  moreover have "length (if HasPrefix s ''-'' then tl s else s) \<le> length s" by simp
  ultimately show ?thesis by linarith
qed

lemma read_word_shorter: "read_word word v s = Some (u, r) \<Longrightarrow> word \<noteq> [] \<Longrightarrow> length r < length s"
  by (cases s) (auto simp: read_word_def HasPrefix_def split: if_splits)

text \<open>What is read does not depend on the bound on the steps once it is the number of bytes read.\<close>

lemma read_enough:
  "read_value m d s = Some (v, r) \<Longrightarrow> length r < length s \<and> (\<forall>n. length s \<le> n + length r \<longrightarrow> read_value n d s = Some (v, r))"
  "read_items m d s = Some (vs, r) \<Longrightarrow> length r < length s \<and> (\<forall>n. length s \<le> n + length r \<longrightarrow> read_items n d s = Some (vs, r))"
  "read_members m d s = Some (kvs, r) \<Longrightarrow> length r < length s \<and> (\<forall>n. length s \<le> n + length r \<longrightarrow> read_members n d s = Some (kvs, r))"
proof (induction m d s and m d s and m d s arbitrary: v r and vs r and kvs r
    rule: read_value_read_items_read_members.induct)
  case (2 n d s0)
  obtain c s where s: "skip_json_space s0 = c # s" using 2(3) by (auto split: list.splits)
  note shorter = skip_json_space_Cons [OF s]
  have step: "length r < length s0 \<and> (\<forall>n. length s0 \<le> n + length r \<longrightarrow> read_value n d s0 = Some (v, r))"
    if le: "length r \<le> length s" and more: "\<And>n. length s \<le> n + length r \<Longrightarrow> read_value (Suc n) d s0 = Some (v, r)"
  proof (intro conjI allI impI)
    show "length r < length s0" using le shorter by simp
    fix k
    assume k: "length s0 \<le> k + length r"
    then obtain k' where "k = Suc k'" using le shorter by (cases k) auto
    then show "read_value k d s0 = Some (v, r)" using more [of k'] k shorter by simp
  qed
  consider "c = CHR 0x22" | "c = CHR ''{''" | "c = CHR ''[''" | "c \<notin> {CHR 0x22, CHR ''{'', CHR ''[''}" by blast
  then show ?case
  proof cases
    case 1
    then show ?thesis
      using 2(3) s by (intro step) (auto dest: read_string_shorter)
  next
    case obj: 2
    then obtain b s1 where b: "skip_json_space s = b # s1" and d: "d \<noteq> 0" using 2(3) s by (auto split: list.splits if_splits)
    show ?thesis
    proof (cases "b = CHR ''}''")
      case True
      then show ?thesis
        using 2(3) s obj b d skip_json_space_Cons [OF b] by (intro step) auto
    next
      case False
      then obtain kvs where kvs: "read_members n (d - 1) s = Some (kvs, r)" "v = JObj kvs" using 2(3) s obj b d by auto
      from 2(1) [OF s _ obj d b False kvs(1)] obj
      have "length r < length s" "\<And>k. length s \<le> k + length r \<Longrightarrow> read_members k (d - 1) s = Some (kvs, r)" by auto
      then show ?thesis using False s obj b d kvs by (intro step) auto
    qed
  next
    case arr: 3
    then obtain b s1 where b: "skip_json_space s = b # s1" and d: "d \<noteq> 0" using 2(3) s by (auto split: list.splits if_splits)
    show ?thesis
    proof (cases "b = CHR '']''")
      case True
      then show ?thesis
        using 2(3) s arr b d skip_json_space_Cons [OF b] by (intro step) auto
    next
      case False
      then obtain vs where vs: "read_items n (d - 1) s = Some (vs, r)" "v = JArr vs" using 2(3) s arr b d by auto
      from 2(2) [OF s _ _ arr d b False vs(1)] arr
      have "length r < length s" "\<And>k. length s \<le> k + length r \<Longrightarrow> read_items k (d - 1) s = Some (vs, r)" by auto
      then show ?thesis using False s arr b d vs by (intro step) auto
    qed
  next
    case 4
    then have "length r < length (c # s)"
      using 2(3) s by (auto split: if_splits dest: read_word_shorter read_number_shorter)
    then show ?thesis using 2(3) s 4 by (intro step) auto
  qed
next
  case (4 n d s)
  obtain v1 s1 c s2 where v1: "read_value n d s = Some (v1, s1)" and c: "skip_json_space s1 = c # s2"
    using 4(3) by (auto split: option.splits list.splits)
  note first = 4(1) [OF v1] and shorter = skip_json_space_Cons [OF c]
  have step: "length r < length s \<and> (\<forall>n. length s \<le> n + length r \<longrightarrow> read_items n d s = Some (vs, r))"
    if le: "length r \<le> length s2" and more: "\<And>n. length s2 \<le> n + length r \<Longrightarrow> read_value n d s = Some (v1, s1) \<Longrightarrow> read_items (Suc n) d s = Some (vs, r)"
  proof (intro conjI allI impI)
    show "length r < length s" using le shorter first by linarith
    fix k
    assume k: "length s \<le> k + length r"
    then have "0 < k" using le shorter first by linarith
    then obtain k' where k': "k = Suc k'" using gr0_implies_Suc by blast
    have "length s \<le> k' + length s1" using k k' shorter le by simp
    then show "read_items k d s = Some (vs, r)" using more [of k'] k k' shorter first le by simp
  qed
  show ?case
  proof (cases "c = CHR '']''")
    case True
    then show ?thesis using 4(3) v1 c by (intro step) auto
  next
    case False
    then obtain ws where comma: "c = CHR '',''" and ws: "read_items n d s2 = Some (ws, r)" "vs = v1 # ws"
      using 4(3) v1 c by (auto split: if_splits)
    from 4(2) [OF v1 refl c False comma ws(1)] show ?thesis using c False comma ws(2) by (intro step) auto
  qed
next
  case (6 n d s)
  obtain q s1 k s2 c s3 v1 s4 b s5 where q: "skip_json_space s = q # s1" "q = CHR 0x22"
      and k: "read_string (length s1) s1 = Some (k, s2)" and c: "skip_json_space s2 = c # s3" "c = CHR '':''"
      and v1: "read_value n d s3 = Some (v1, s4)" and b: "skip_json_space s4 = b # s5"
    using 6(3) by (auto split: option.splits list.splits if_splits)
  note first = 6(1) [OF q(1) _ k refl c(1) _ v1] and shorter = skip_json_space_Cons [OF q(1)] read_string_shorter [OF k]
    skip_json_space_Cons [OF c(1)] skip_json_space_Cons [OF b]
  have val: "length s4 < length s3" "\<And>n. length s3 \<le> n + length s4 \<Longrightarrow> read_value n d s3 = Some (v1, s4)"
    using first q(2) c(2) by auto
  have step: "length r < length s \<and> (\<forall>n. length s \<le> n + length r \<longrightarrow> read_members n d s = Some (kvs, r))"
    if le: "length r \<le> length s5" and more: "\<And>n. length s5 \<le> n + length r \<Longrightarrow> read_value n d s3 = Some (v1, s4) \<Longrightarrow> read_members (Suc n) d s = Some (kvs, r)"
  proof (intro conjI allI impI)
    show "length r < length s" using le shorter val(1) by simp
    fix i
    assume i: "length s \<le> i + length r"
    then obtain i' where i': "i = Suc i'" using le shorter val(1) by (cases i) auto
    have "length s3 \<le> i' + length s4" using i i' shorter le by simp
    then show "read_members i d s = Some (kvs, r)" using more [of i'] i i' shorter val by simp
  qed
  show ?case
  proof (cases "b = CHR ''}''")
    case True
    then show ?thesis using 6(3) q k c v1 b by (intro step) auto
  next
    case False
    then obtain ws where comma: "b = CHR '',''" and ws: "read_members n d s5 = Some (ws, r)" "kvs = (k, v1) # ws"
      using 6(3) q k c v1 b by (auto split: if_splits)
    from 6(2) [OF q(1) _ k refl c(1) _ v1 refl b False comma ws(1)] q(2) c(2)
    show ?thesis using q k c b False comma ws(2) by (intro step) auto
  qed
qed simp_all

end
