(* ===== verification/Tables.thy ===== *)
theory Tables
  imports Domain Go_Json
begin

text \<open>
  The PostgreSQL tables of \<open>migrations/001_initial.sql\<close> that the Go code reads and writes,
  as lists of rows, and the constraints the statements of the code rely on (primary and
  unique keys, foreign keys, \<open>CHECK\<close> lists and \<open>varchar\<close> bounds). Columns no statement of
  the code reads or writes are left out. A nullable column is an option; a \<open>jsonb\<close> column
  holds a JSON value.
\<close>

record organization_row =
  o_id :: string
  o_name :: string
  o_slug :: string

record user_row =
  u_id :: string
  u_organization_id :: string
  u_email :: string
  u_password_hash :: string
  u_display_name :: string
  u_active :: bool
  u_password_changed_at :: instant
  u_updated_at :: instant

record session_row =
  se_organization_id :: string
  se_user_id :: string
  se_token_hash :: bytes
  se_csrf_hash :: bytes
  se_expires_at :: instant
  se_revoked_at :: "instant option"

record role_row =
  r_id :: string
  r_name :: string

record user_role_row =
  ur_organization_id :: string
  ur_user_id :: string
  ur_role_id :: string

record asset_row =
  a_id :: string
  a_organization_id :: string
  a_name :: string
  a_type :: string
  a_environment :: string
  a_criticality :: string
  a_owner_name :: "string option"
  a_team :: "string option"
  a_description :: string
  a_enabled :: bool
  a_created_at :: instant
  a_updated_at :: instant

record source_row =
  bs_id :: string
  bs_organization_id :: string
  bs_name :: string
  bs_type :: string
  bs_environment :: string
  bs_description :: string
  bs_enabled :: bool
  bs_last_discovery_at :: "instant option"
  bs_last_discovery_status :: "string option"
  bs_created_at :: instant
  bs_updated_at :: instant

record asset_source_row =
  ab_organization_id :: string
  ab_protected_asset_id :: string
  ab_backup_source_id :: string

record snapshot_row =
  s_id :: string
  s_organization_id :: string
  s_backup_source_id :: string
  s_external_id :: string
  s_name :: string
  s_type :: string
  s_completed_at :: "instant option"
  s_size_bytes :: int64
  s_checksum :: "string option"
  s_status :: string
  s_storage_key :: "string option"
  s_discovered_at :: instant
  s_last_verified_at :: "instant option"

record policy_row =
  p_id :: string
  p_organization_id :: string
  p_name :: string
  p_protected_asset_id :: string
  p_rpo_target_seconds :: int64
  p_rto_target_seconds :: int64
  p_schedule :: string
  p_required_validations :: json
  p_enabled :: bool
  p_created_at :: instant

record drill_row =
  dr_id :: string
  dr_organization_id :: string
  dr_protected_asset_id :: string
  dr_backup_snapshot_id :: "string option"
  dr_recovery_policy_id :: "string option"
  dr_requested_by :: string
  dr_idempotency_key :: string
  dr_trigger_type :: string
  dr_status :: DrillStatus
  dr_started_at :: "instant option"
  dr_completed_at :: "instant option"
  dr_measured_rpo_seconds :: "int64 option"
  dr_measured_rto_seconds :: "int64 option"
  dr_rpo_result :: "PolicyResult option"
  dr_rto_result :: "PolicyResult option"
  dr_recovery_status :: "Assessment option"
  dr_confidence :: "Confidence option"
  dr_summary :: string
  dr_created_at :: instant
  dr_updated_at :: instant

record step_row =
  ds_drill_id :: string
  ds_type :: string
  ds_status :: string
  ds_started_at :: instant
  ds_completed_at :: instant
  ds_summary :: string
  ds_sequence :: int

record sandbox_row =
  sb_organization_id :: string
  sb_drill_id :: string
  sb_executor_type :: string
  sb_status :: string
  sb_created_at :: instant
  sb_ready_at :: instant
  sb_destroyed_at :: "instant option"
  sb_container_name :: string
  sb_network_name :: string

record artifact_row =
  ea_id :: string
  ea_organization_id :: string
  ea_drill_id :: string
  ea_storage_key :: string
  ea_content_type :: string
  ea_size_bytes :: int64
  ea_sha256 :: string
  ea_status :: string

record evidence_row =
  ev_id :: string
  ev_organization_id :: string
  ev_drill_id :: string
  ev_type :: string
  ev_summary :: string
  ev_artifact_id :: string
  ev_sha256 :: string
  ev_created_at :: instant

record report_row =
  rr_organization_id :: string
  rr_drill_id :: string
  rr_status :: string
  rr_generated_at :: instant

record audit_row =
  ae_id :: string
  ae_organization_id :: string
  ae_actor_user_id :: string
  ae_event_type :: string
  ae_resource_type :: string
  ae_resource_id :: "string option"
  ae_metadata :: string
  ae_timestamp :: instant
  ae_ip_address :: "string option"

record job_row =
  sj_policy_id :: string
  sj_next_run_at :: instant
  sj_lease_owner :: "string option"
  sj_lease_until :: "instant option"
  sj_updated_at :: instant

record tables =
  organizations :: "organization_row list"
  users :: "user_row list"
  sessions :: "session_row list"
  roles :: "role_row list"
  user_roles :: "user_role_row list"
  protected_assets :: "asset_row list"
  backup_sources :: "source_row list"
  asset_backup_sources :: "asset_source_row list"
  backup_snapshots :: "snapshot_row list"
  recovery_policies :: "policy_row list"
  recovery_drills :: "drill_row list"
  drill_steps :: "step_row list"
  recovery_sandboxes :: "sandbox_row list"
  evidence_artifacts :: "artifact_row list"
  evidence_rows :: "evidence_row list"
  recovery_reports :: "report_row list"
  audit_events :: "audit_row list"
  scheduler_jobs :: "job_row list"


section \<open>Queries and updates\<close>

text \<open>
  \<open>UPDATE ... WHERE\<close> as a map over the rows, with the number of rows affected, and
  \<open>QueryRow\<close> over the rows a \<open>SELECT\<close> returns: its first row, \<open>ErrNoRows\<close> when there is none.
\<close>

definition update_where :: "('r \<Rightarrow> bool) \<Rightarrow> ('r \<Rightarrow> 'r) \<Rightarrow> 'r list \<Rightarrow> 'r list" where
  "update_where p f rows = map (\<lambda>r. if p r then f r else r) rows"

definition rows_affected :: "('r \<Rightarrow> bool) \<Rightarrow> 'r list \<Rightarrow> nat" where
  "rows_affected p rows = length (filter p rows)"

definition query_row :: "'r list \<Rightarrow> 'r result" where
  "query_row rows = (case rows of [] \<Rightarrow> Inl ErrNoRows | r # _ \<Rightarrow> Inr r)"

definition row_with :: "('r \<Rightarrow> 'k) \<Rightarrow> 'k \<Rightarrow> 'r list \<Rightarrow> 'r option" where
  "row_with key k rows = find (\<lambda>r. key r = k) rows"

text \<open>The drill with a given identifier, and the status of a drill.\<close>

definition drill_by_id :: "tables \<Rightarrow> string \<Rightarrow> drill_row option" where
  "drill_by_id t did = row_with dr_id did (recovery_drills t)"

definition drill_status :: "tables \<Rightarrow> string \<Rightarrow> DrillStatus option" where
  "drill_status t did = map_option dr_status (drill_by_id t did)"

text \<open>The primary keys of the tables whose rows the code addresses by key.\<close>

definition keys_ok :: "tables \<Rightarrow> bool" where
  "keys_ok t =
     (distinct (map dr_id (recovery_drills t)) \<and>
      distinct (map a_id (protected_assets t)) \<and>
      distinct (map s_id (backup_snapshots t)) \<and>
      distinct (map p_id (recovery_policies t)) \<and>
      distinct (map u_id (users t)))"

text \<open>\<open>UNIQUE(organization_id, idempotency_key)\<close> of \<open>recovery_drills\<close>.\<close>

definition idempotency_unique :: "tables \<Rightarrow> bool" where
  "idempotency_unique t =
     distinct (map (\<lambda>d. (dr_organization_id d, dr_idempotency_key d)) (recovery_drills t))"

definition not_terminal_row :: "drill_row \<Rightarrow> bool" where
  "not_terminal_row d = (\<not> terminal (dr_status d))"


section \<open>Lemmas\<close>

lemma map_update_where:
  "(\<And>r. p r \<Longrightarrow> key (f r) = key r) \<Longrightarrow> map key (update_where p f rows) = map key rows"
  by (simp add: update_where_def)

lemma row_with_None_iff: "row_with key k rows = None \<longleftrightarrow> k \<notin> key ` set rows"
  by (auto simp: row_with_def find_None_iff)

lemma row_with_SomeD: "row_with key k rows = Some r \<Longrightarrow> r \<in> set rows \<and> key r = k"
  by (auto simp: row_with_def find_Some_iff)

lemma row_with_unique:
  "distinct (map key rows) \<Longrightarrow> r \<in> set rows \<Longrightarrow> row_with key (key r) rows = Some r"
proof (induction rows)
  case (Cons x rows)
  then show ?case by (auto simp: row_with_def)
qed simp

lemma row_with_update_where:
  assumes "\<And>r. p r \<Longrightarrow> key (f r) = key r"
  shows "row_with key k (update_where p f rows) =
    map_option (\<lambda>r. if p r then f r else r) (row_with key k rows)"
  using assms by (induction rows) (auto simp: row_with_def update_where_def)

lemma row_with_append:
  "row_with key k (rows @ rows') =
     (case row_with key k rows of None \<Rightarrow> row_with key k rows' | Some r \<Rightarrow> Some r)"
  by (induction rows) (auto simp: row_with_def)

lemma row_with_single: "row_with key k [r] = (if key r = k then Some r else None)"
  by (simp add: row_with_def)

lemma query_row_Inr: "query_row rows = Inr r \<Longrightarrow> r \<in> set rows"
  by (auto simp: query_row_def split: list.splits)

lemma query_row_Inl: "query_row rows = Inl e \<longleftrightarrow> rows = [] \<and> e = ErrNoRows"
  by (auto simp: query_row_def split: list.splits)

lemma query_row_not_Nil: "rows \<noteq> [] \<Longrightarrow> query_row rows = Inr (hd rows)"
  by (cases rows) (simp_all add: query_row_def)

end
