(* ===== verification/Statements.thy ===== *)
theory Statements
  imports Tables Utf8
begin

text \<open>
  The SQL statements and transactions of the code on \<open>recovery_drills\<close> and the tables that
  hang off it, as functions on the tables: \<open>Store.CreateDrill\<close>, \<open>Store.CancelDrill\<close> and the
  worker's \<open>transition\<close>, \<open>recordStep\<close>, \<open>setTerminal\<close>, sandbox and finalisation statements.
  A statement is atomic. The last section is what all of them guarantee for the drills.
\<close>

section \<open>Statements of the API\<close>

definition in_org :: "('r \<Rightarrow> string) \<Rightarrow> string \<Rightarrow> ('r \<Rightarrow> string) \<Rightarrow> string \<Rightarrow> 'r list \<Rightarrow> bool" where
  "in_org org_of org id_of i rows = list_ex (\<lambda>r. org_of r = org \<and> id_of r = i) rows"

text \<open>
  \<open>INSERT INTO recovery_drills ... SELECT ... FROM protected_assets a WHERE
  a.organization_id=$1 AND a.id=$2 ON CONFLICT(organization_id,idempotency_key) DO NOTHING
  RETURNING ...\<close>: no row is returned when the asset is not the organization's or the key is
  taken. The foreign keys check existence only, not the organization.
\<close>

text \<open>A text parameter is valid UTF-8 without a zero byte.\<close>

definition pg_text :: "string \<Rightarrow> bool" where
  "pg_text s = (valid_utf8 (map of_char s) \<and> CHR 0x00 \<notin> set s)"

text \<open>The text of a value of type \<open>uuid\<close>.\<close>

definition uuid_form :: "string \<Rightarrow> bool" where
  "uuid_form s = list_all (\<lambda>c. is_alnum c \<or> c = CHR ''-'') s"

definition insert_drill ::
    "string \<Rightarrow> string \<Rightarrow> string option \<Rightarrow> string option \<Rightarrow> string \<Rightarrow> string \<Rightarrow> string \<Rightarrow> instant \<Rightarrow>
     tables \<Rightarrow> tables \<times> drill_row result" where
  "insert_drill org asset snapshot policy user idem new_id now t =
     (if \<not> pg_text idem then (t, Inl (External ''invalid byte sequence for encoding''))
      else if \<not> in_org a_organization_id org a_id asset (protected_assets t) then (t, Inl ErrNoRows)
      else if length (runes idem) > 100 then (t, Inl (External ''value too long for type character varying(100)''))
      else if list_ex (\<lambda>d. dr_organization_id d = org \<and> dr_idempotency_key d = idem) (recovery_drills t)
      then (t, Inl ErrNoRows)
      else if \<not> pred_option (\<lambda>i. i \<in> set (map s_id (backup_snapshots t))) snapshot
           \<or> \<not> pred_option (\<lambda>i. i \<in> set (map p_id (recovery_policies t))) policy
           \<or> user \<notin> set (map u_id (users t))
      then (t, Inl (External ''violates foreign key constraint''))
      else if \<not> uuid_form new_id then (t, Inl (External ''invalid input syntax for type uuid''))
      else if new_id \<in> set (map dr_id (recovery_drills t))
      then (t, Inl (External ''duplicate key value violates unique constraint''))
      else
        let d = \<lparr>dr_id = new_id, dr_organization_id = org, dr_protected_asset_id = asset,
                 dr_backup_snapshot_id = snapshot, dr_recovery_policy_id = policy,
                 dr_requested_by = user, dr_idempotency_key = idem, dr_trigger_type = ''MANUAL'',
                 dr_status = DrillQueued, dr_started_at = None, dr_completed_at = None,
                 dr_measured_rpo_seconds = None, dr_measured_rto_seconds = None,
                 dr_rpo_result = None, dr_rto_result = None, dr_recovery_status = None,
                 dr_confidence = None, dr_summary = [], dr_created_at = now, dr_updated_at = now\<rparr>
        in (t\<lparr>recovery_drills := recovery_drills t @ [d]\<rparr>, Inr d))"

definition cancel_where :: "string \<Rightarrow> string \<Rightarrow> drill_row \<Rightarrow> bool" where
  "cancel_where org did d =
     (dr_organization_id d = org \<and> dr_id d = did \<and>
      dr_status d \<in> {DrillQueued, DrillPreparing, DrillRestoring, DrillValidating, DrillFinalizing})"

definition cancel_drill :: "string \<Rightarrow> string \<Rightarrow> instant \<Rightarrow> tables \<Rightarrow> tables \<times> nat result" where
  "cancel_drill org did now t =
     (t\<lparr>recovery_drills := update_where (cancel_where org did)
          (\<lambda>d. d\<lparr>dr_status := DrillCancelled, dr_completed_at := Some now, dr_updated_at := now,
                dr_summary := ''Cancelled by an authorized user''\<rparr>) (recovery_drills t)\<rparr>,
      Inr (rows_affected (cancel_where org did) (recovery_drills t)))"


section \<open>Statements of the worker\<close>

text \<open>\<open>INSERT INTO drill_steps ... ON CONFLICT(drill_id,sequence) DO NOTHING\<close>.\<close>

definition insert_step :: "string \<Rightarrow> string \<Rightarrow> int \<Rightarrow> string \<Rightarrow> instant \<Rightarrow> tables \<Rightarrow> tables" where
  "insert_step did step sequence summary now t =
     (if list_ex (\<lambda>s. ds_drill_id s = did \<and> ds_sequence s = sequence) (drill_steps t) then t
      else t\<lparr>drill_steps := drill_steps t @
             [\<lparr>ds_drill_id = did, ds_type = step, ds_status = ''PASSED'', ds_started_at = now,
               ds_completed_at = now, ds_summary = summary, ds_sequence = sequence\<rparr>]\<rparr>)"

definition update_status :: "string \<Rightarrow> DrillStatus \<Rightarrow> instant option \<Rightarrow> instant \<Rightarrow> tables \<Rightarrow> tables" where
  "update_status did to started now t =
     t\<lparr>recovery_drills := update_where (\<lambda>d. dr_id d = did)
         (\<lambda>d. d\<lparr>dr_status := to,
               dr_started_at := (case dr_started_at d of None \<Rightarrow> started | Some x \<Rightarrow> Some x),
               dr_updated_at := now\<rparr>) (recovery_drills t)\<rparr>"

definition terminal_where :: "string \<Rightarrow> drill_row \<Rightarrow> bool" where
  "terminal_where did d =
     (dr_id d = did \<and>
      dr_status d \<notin> {DrillSucceeded, DrillFailed, DrillCancelled, DrillInconclusive})"

definition set_terminal :: "string \<Rightarrow> DrillStatus \<Rightarrow> string \<Rightarrow> instant \<Rightarrow> tables \<Rightarrow> tables \<times> unit result" where
  "set_terminal did status summary now t =
     (t\<lparr>recovery_drills := update_where (terminal_where did)
          (\<lambda>d. d\<lparr>dr_status := status, dr_completed_at := Some now, dr_updated_at := now,
                dr_recovery_status :=
                  Some (if status = DrillFailed then AssessmentFailed else AssessmentUnknown),
                dr_confidence := Some ConfidenceLow, dr_summary := summary\<rparr>) (recovery_drills t)\<rparr>,
      Inr ())"

text \<open>\<open>INSERT INTO recovery_sandboxes ... ON CONFLICT(drill_id) DO UPDATE\<close>.\<close>

definition upsert_sandbox :: "string \<Rightarrow> string \<Rightarrow> instant \<Rightarrow> instant \<Rightarrow> string \<Rightarrow> string \<Rightarrow> tables \<Rightarrow> tables \<times> unit result" where
  "upsert_sandbox org did created ready container network t =
     (if did \<in> set (map sb_drill_id (recovery_sandboxes t)) then
        t\<lparr>recovery_sandboxes := update_where (\<lambda>s. sb_drill_id s = did)
            (\<lambda>s. s\<lparr>sb_status := ''READY'', sb_ready_at := ready, sb_container_name := container,
                  sb_network_name := network\<rparr>) (recovery_sandboxes t)\<rparr>
      else
        t\<lparr>recovery_sandboxes := recovery_sandboxes t @
            [\<lparr>sb_organization_id = org, sb_drill_id = did, sb_executor_type = ''DOCKER'',
              sb_status = ''READY'', sb_created_at = created, sb_ready_at = ready,
              sb_destroyed_at = None, sb_container_name = container, sb_network_name = network\<rparr>]\<rparr>,
      Inr ())"

definition sandbox_destroyed :: "string \<Rightarrow> instant \<Rightarrow> tables \<Rightarrow> tables \<times> unit result" where
  "sandbox_destroyed did now t =
     (t\<lparr>recovery_sandboxes := update_where (\<lambda>s. sb_drill_id s = did)
          (\<lambda>s. s\<lparr>sb_status := ''DESTROYED'', sb_destroyed_at := Some now\<rparr>) (recovery_sandboxes t)\<rparr>,
      Inr ())"

text \<open>The statements of the final transaction, in their order.\<close>

definition upsert_artifact ::
    "string \<Rightarrow> string \<Rightarrow> string \<Rightarrow> string \<Rightarrow> int64 \<Rightarrow> string \<Rightarrow> string \<Rightarrow> tables \<Rightarrow> tables \<times> string" where
  "upsert_artifact org did key content_type sz sha new_id t =
     (case row_with ea_storage_key key (evidence_artifacts t) of
        Some a \<Rightarrow> (t\<lparr>evidence_artifacts := update_where (\<lambda>r. ea_storage_key r = key)
                     (\<lambda>r. r\<lparr>ea_sha256 := sha\<rparr>) (evidence_artifacts t)\<rparr>, ea_id a)
      | None \<Rightarrow> (t\<lparr>evidence_artifacts := evidence_artifacts t @
                   [\<lparr>ea_id = new_id, ea_organization_id = org, ea_drill_id = did,
                     ea_storage_key = key, ea_content_type = content_type, ea_size_bytes = sz,
                     ea_sha256 = sha, ea_status = ''AVAILABLE''\<rparr>]\<rparr>, new_id))"

definition evidence_summary :: string where
  "evidence_summary =
     ''Plain dump restored in an isolated Docker sandbox; typed connectivity validation passed''"

definition upsert_evidence :: "string \<Rightarrow> string \<Rightarrow> string \<Rightarrow> string \<Rightarrow> string \<times> instant \<Rightarrow> tables \<Rightarrow> tables" where
  "upsert_evidence org did artifact sha stamp t =
     (if list_ex (\<lambda>e. ev_drill_id e = did \<and> ev_type e = ''POSTGRES_RECOVERY'') (evidence_rows t) then
        t\<lparr>evidence_rows := update_where (\<lambda>e. ev_drill_id e = did \<and> ev_type e = ''POSTGRES_RECOVERY'')
            (\<lambda>e. e\<lparr>ev_artifact_id := artifact, ev_sha256 := sha\<rparr>) (evidence_rows t)\<rparr>
      else
        t\<lparr>evidence_rows := evidence_rows t @
            [\<lparr>ev_id = fst stamp, ev_organization_id = org, ev_drill_id = did, ev_type = ''POSTGRES_RECOVERY'',
              ev_summary = evidence_summary, ev_artifact_id = artifact, ev_sha256 = sha,
              ev_created_at = snd stamp\<rparr>]\<rparr>)"

definition finish_where :: "string \<Rightarrow> drill_row \<Rightarrow> bool" where
  "finish_where did d = (dr_id d = did \<and> dr_status d = DrillFinalizing)"

definition finish_drill ::
    "string \<Rightarrow> instant \<Rightarrow> int64 \<Rightarrow> int64 \<Rightarrow> PolicyResult \<Rightarrow> PolicyResult \<Rightarrow> Assessment \<Rightarrow> Confidence \<Rightarrow>
     tables \<Rightarrow> tables \<times> nat" where
  "finish_drill did now rpo rto rpoResult rtoResult assessment confidence t =
     (t\<lparr>recovery_drills := update_where (finish_where did)
          (\<lambda>d. d\<lparr>dr_status := DrillSucceeded, dr_completed_at := Some now,
                dr_measured_rpo_seconds := Some rpo, dr_measured_rto_seconds := Some rto,
                dr_rpo_result := Some rpoResult, dr_rto_result := Some rtoResult,
                dr_recovery_status := Some assessment, dr_confidence := Some confidence,
                dr_summary := ''Controlled PostgreSQL recovery drill completed under tested conditions'',
                dr_updated_at := now\<rparr>) (recovery_drills t)\<rparr>,
      rows_affected (finish_where did) (recovery_drills t))"

definition upsert_report :: "string \<Rightarrow> string \<Rightarrow> instant \<Rightarrow> tables \<Rightarrow> tables" where
  "upsert_report org did now t =
     (if did \<in> set (map rr_drill_id (recovery_reports t)) then
        t\<lparr>recovery_reports := update_where (\<lambda>r. rr_drill_id r = did)
            (\<lambda>r. r\<lparr>rr_status := ''AVAILABLE''\<rparr>) (recovery_reports t)\<rparr>
      else
        t\<lparr>recovery_reports := recovery_reports t @
            [\<lparr>rr_organization_id = org, rr_drill_id = did, rr_status = ''AVAILABLE'', rr_generated_at = now\<rparr>]\<rparr>)"


section \<open>How drills evolve\<close>

text \<open>
  The guarantee every statement gives: a drill keeps its identity and its start, its status
  moves only forward in the order of the life cycle, which is reachability by permitted transitions, and once it is terminal nothing of the row changes;
  snapshots and policies are never changed or removed.
\<close>

definition row_evolves :: "drill_row \<Rightarrow> drill_row \<Rightarrow> bool" where
  "row_evolves d d' =
     (dr_id d' = dr_id d \<and> dr_organization_id d' = dr_organization_id d \<and>
      dr_protected_asset_id d' = dr_protected_asset_id d \<and>
      dr_backup_snapshot_id d' = dr_backup_snapshot_id d \<and>
      dr_recovery_policy_id d' = dr_recovery_policy_id d \<and>
      dr_idempotency_key d' = dr_idempotency_key d \<and>
      dr_status d \<le> dr_status d' \<and>
      (dr_started_at d \<noteq> None \<longrightarrow> dr_started_at d' = dr_started_at d) \<and>
      (terminal (dr_status d) \<longrightarrow> d' = d))"

definition tables_evolve :: "tables \<Rightarrow> tables \<Rightarrow> bool" where
  "tables_evolve t t' =
     (set (backup_snapshots t) \<subseteq> set (backup_snapshots t') \<and>
      set (recovery_policies t) \<subseteq> set (recovery_policies t') \<and>
      (\<forall>did d. drill_by_id t did = Some d \<longrightarrow>
         (\<exists>d'. drill_by_id t' did = Some d' \<and> row_evolves d d')))"

definition same_inputs :: "tables \<Rightarrow> tables \<Rightarrow> bool" where
  "same_inputs t t' =
     (backup_snapshots t' = backup_snapshots t \<and> recovery_policies t' = recovery_policies t)"

lemma row_evolves_refl [simp]: "row_evolves d d"
  by (simp add: row_evolves_def)

lemma row_evolves_trans:
  assumes "row_evolves d d'" and "row_evolves d' d''"
  shows "row_evolves d d''"
proof -
  have "dr_status d \<le> dr_status d''"
    using assms by (auto simp: row_evolves_def)
  moreover have "terminal (dr_status d) \<Longrightarrow> d'' = d"
  proof -
    assume t: "terminal (dr_status d)"
    with assms(1) have "d' = d" by (simp add: row_evolves_def)
    with t assms(2) show "d'' = d" by (simp add: row_evolves_def)
  qed
  ultimately show ?thesis using assms by (simp add: row_evolves_def)
qed

lemma tables_evolve_refl [simp]: "tables_evolve t t"
  by (simp add: tables_evolve_def)

lemma tables_evolve_trans: "tables_evolve t t' \<Longrightarrow> tables_evolve t' t'' \<Longrightarrow> tables_evolve t t''"
  unfolding tables_evolve_def by (meson row_evolves_trans subset_trans)

lemma drill_by_id_id: "drill_by_id t did = Some d \<Longrightarrow> dr_id d = did"
  unfolding drill_by_id_def by (drule row_with_SomeD) simp

text \<open>An update of drill rows that keeps the identifier evolves the tables when it evolves
  every row it touches.\<close>

lemma tables_evolve_update:
  assumes "recovery_drills t' = update_where p f (recovery_drills t)"
    and "\<And>d. dr_id (f d) = dr_id d"
    and "\<And>d. drill_by_id t (dr_id d) = Some d \<Longrightarrow> p d \<Longrightarrow> row_evolves d (f d)"
    and "same_inputs t t'"
  shows "tables_evolve t t'"
proof -
  have by_id: "drill_by_id t' did = map_option (\<lambda>r. if p r then f r else r) (drill_by_id t did)" for did
    using assms(1,2) by (simp add: drill_by_id_def row_with_update_where)
  have rows: "\<exists>d'. drill_by_id t' did = Some d' \<and> row_evolves d d'" if d: "drill_by_id t did = Some d" for did d
  proof -
    have "drill_by_id t (dr_id d) = Some d" using d by (simp add: drill_by_id_id)
    with assms(3) have "row_evolves d (if p d then f d else d)" by simp
    with d show ?thesis by (simp add: by_id)
  qed
  with assms(4) show ?thesis by (simp add: tables_evolve_def same_inputs_def)
qed

lemma tables_evolve_same_drills:
  "recovery_drills t' = recovery_drills t \<Longrightarrow> same_inputs t t' \<Longrightarrow> tables_evolve t t'"
  by (simp add: tables_evolve_def same_inputs_def drill_by_id_def)

lemma drills_select: "recovery_drills (t\<lparr>recovery_drills := x\<rparr>) = x"
  by simp

lemma drills_simps [simp]:
  "recovery_drills (insert_step did step n su now t) = recovery_drills t"
  "recovery_drills (fst (upsert_sandbox org did c r co ne t)) = recovery_drills t"
  "recovery_drills (fst (sandbox_destroyed did now t)) = recovery_drills t"
  "recovery_drills (fst (upsert_artifact org did key ct sz sha new_id t)) = recovery_drills t"
  "recovery_drills (upsert_evidence org did art sha st t) = recovery_drills t"
  "recovery_drills (upsert_report org did now t) = recovery_drills t"
  by (simp_all add: insert_step_def upsert_sandbox_def sandbox_destroyed_def upsert_artifact_def
      upsert_evidence_def upsert_report_def split: option.splits)

lemma same_inputs_simps [simp]:
  "same_inputs t (insert_step did step n su now t)"
  "same_inputs t (update_status did to started now t)"
  "same_inputs t (fst (cancel_drill org did now t))"
  "same_inputs t (fst (set_terminal did status summary now t))"
  "same_inputs t (fst (upsert_sandbox org did c r co ne t))"
  "same_inputs t (fst (sandbox_destroyed did now t))"
  "same_inputs t (fst (upsert_artifact org did key ct sz sha new_id t))"
  "same_inputs t (upsert_evidence org did art sha st t)"
  "same_inputs t (fst (finish_drill did now rpo rto rr tr asm conf t))"
  "same_inputs t (upsert_report org did now t)"
  by (simp_all add: same_inputs_def insert_step_def update_status_def cancel_drill_def set_terminal_def
      upsert_sandbox_def sandbox_destroyed_def upsert_artifact_def upsert_evidence_def finish_drill_def
      upsert_report_def split: option.splits)

lemma insert_drill_evolves: "tables_evolve t (fst (insert_drill org a s p u k i now t))"
  by (auto simp: insert_drill_def Let_def tables_evolve_def drill_by_id_def row_with_append)

lemma cancel_drill_evolves: "tables_evolve t (fst (cancel_drill org did now t))"
  by (rule tables_evolve_update [where p = "cancel_where org did"], simp add: cancel_drill_def, simp)
    (auto simp: cancel_where_def row_evolves_def CanTransition_cancel)

lemma set_terminal_evolves:
  assumes "status \<in> {DrillFailed, DrillCancelled, DrillInconclusive}"
    and "drill_status t did \<noteq> Some DrillQueued \<or> status = DrillCancelled"
  shows "tables_evolve t (fst (set_terminal did status summary now t))"
proof (rule tables_evolve_update [where p = "terminal_where did"])
  fix d
  assume "drill_by_id t (dr_id d) = Some d" and p: "terminal_where did d"
  then have "drill_status t did = Some (dr_status d)"
    by (simp add: terminal_where_def drill_status_def)
  with assms have "dr_status d \<noteq> DrillQueued \<or> status = DrillCancelled" by auto
  moreover have "\<not> terminal (dr_status d)" using p by (simp add: terminal_where_def terminal_def)
  ultimately have "CanTransition (dr_status d) status"
    using assms(1) CanTransition_abort CanTransition_cancel by blast
  then show "row_evolves d (d\<lparr>dr_status := status, dr_completed_at := Some now, dr_updated_at := now,
      dr_recovery_status := Some (if status = DrillFailed then AssessmentFailed else AssessmentUnknown),
      dr_confidence := Some ConfidenceLow, dr_summary := summary\<rparr>)"
    using \<open>\<not> terminal (dr_status d)\<close> by (simp add: row_evolves_def)
qed (simp add: set_terminal_def, simp_all)

lemma update_status_evolves:
  assumes "drill_status t did = Some s" and "CanTransition s to"
  shows "tables_evolve t (update_status did to started now t)"
proof (rule tables_evolve_update [where p = "\<lambda>d. dr_id d = did"])
  fix d
  assume "drill_by_id t (dr_id d) = Some d" and "dr_id d = did"
  with assms have "CanTransition (dr_status d) to" by (simp add: drill_status_def)
  moreover from this have "\<not> terminal (dr_status d)" by (auto simp: terminal_no_successor)
  ultimately show "row_evolves d (d\<lparr>dr_status := to,
      dr_started_at := (case dr_started_at d of None \<Rightarrow> started | Some x \<Rightarrow> Some x), dr_updated_at := now\<rparr>)"
    by (auto simp: row_evolves_def)
qed (simp add: update_status_def, simp_all)

lemma finish_drill_evolves: "tables_evolve t (fst (finish_drill did now rpo rto rr tr a c t))"
  by (rule tables_evolve_update [where p = "finish_where did"], simp add: finish_drill_def, simp)
    (auto simp: finish_where_def row_evolves_def CanTransition_iff)


end
