(* ===== verification/Outcome.thy ===== *)
theory Outcome
  imports Statements
begin

text \<open>
  The outcome of a successful drill (\<open>drill/worker.go\<close>): the inputs \<open>run\<close> selects, the measurements
  and the assessment it derives from them, and the writes of its last transaction. The description
  of a stored object (\<open>storage/object.go\<close>) is part of what is written.
\<close>

record ObjectInfo =
  oi_Key :: string
  oi_Size :: int64
  oi_SHA256 :: string
  oi_ContentType :: string


section \<open>The drill's inputs\<close>

record drill_job =
  j_orgID :: string
  j_drillStarted :: instant
  j_snapshotAt :: instant
  j_checksum :: "string option"
  j_storageKey :: string
  j_rpoTarget :: int64
  j_rtoTarget :: int64
  j_required :: json

text \<open>The join of the drill with its snapshot and its policy, both of the drill's own
  organization; scanning a null timestamp fails.\<close>

definition job_rows :: "string \<Rightarrow> tables \<Rightarrow> (drill_row \<times> snapshot_row \<times> policy_row) list" where
  "job_rows did t =
     (case drill_by_id t did of None \<Rightarrow> [] | Some d \<Rightarrow> [(d, s, p).
        s \<leftarrow> backup_snapshots t, dr_backup_snapshot_id d = Some (s_id s) \<and> s_organization_id s = dr_organization_id d,
        p \<leftarrow> recovery_policies t, dr_recovery_policy_id d = Some (p_id p) \<and> p_organization_id p = dr_organization_id d])"

definition scan_job :: "drill_row \<times> snapshot_row \<times> policy_row \<Rightarrow> drill_job result" where
  "scan_job row =
     (case row of (d, s, p) \<Rightarrow>
        (case (dr_started_at d, s_completed_at s) of
           (Some started, Some completed) \<Rightarrow>
             Inr \<lparr>j_orgID = dr_organization_id d, j_drillStarted = started, j_snapshotAt = completed,
                  j_checksum = s_checksum s,
                  j_storageKey = (case s_storage_key s of None \<Rightarrow> [] | Some k \<Rightarrow> k),
                  j_rpoTarget = p_rpo_target_seconds p, j_rtoTarget = p_rto_target_seconds p,
                  j_required = p_required_validations p\<rparr>
         | _ \<Rightarrow> Inl (External ''cannot scan NULL'')))"

definition select_job :: "string \<Rightarrow> instant \<Rightarrow> tables \<Rightarrow> tables \<times> drill_job result" where
  "select_job did now t =
     (t, case query_row (job_rows did t) of Inl er \<Rightarrow> Inl er | Inr row \<Rightarrow> scan_job row)"

text \<open>\<open>json.Unmarshal\<close> into a \<open>[]string\<close>, its error ignored: an element that is not a string
  leaves the empty string, a value that is not an array leaves the slice nil.\<close>

definition unmarshal_strings :: "json \<Rightarrow> string list" where
  "unmarshal_strings j =
     (case j of JArr xs \<Rightarrow> map (\<lambda>x. case x of JStr s \<Rightarrow> s | _ \<Rightarrow> []) xs | _ \<Rightarrow> [])"

fun limitations_of :: "string list \<Rightarrow> string list" where
  "limitations_of [] = []"
| "limitations_of (check # required) =
     (if check \<noteq> ''POSTGRES_CONNECTIVITY''
      then (check @ '' was not configured with a typed validation profile'') # limitations_of required
      else limitations_of required)"

definition drill_assessment :: "string list \<Rightarrow> Assessment \<times> Confidence" where
  "drill_assessment limitations =
     (if length limitations > 0 then (PartiallyVerified, ConfidenceMedium) else (Verified, ConfidenceHigh))"

text \<open>A job whose validations cannot be read as a list requires none of them.\<close>

lemma unreadable_validations_verified:
  "drill_assessment (limitations_of (unmarshal_strings (JObj members))) = (Verified, ConfidenceHigh)"
  by (simp add: unmarshal_strings_def drill_assessment_def)

definition evidence_key :: "string \<Rightarrow> string \<Rightarrow> string" where
  "evidence_key orgID did = orgID @ ''/drills/'' @ did @ ''/evidence/recovery.json''"


section \<open>The writes of the final transaction\<close>

record outcome =
  oc_rpo :: int64
  oc_rto :: int64
  oc_rpoResult :: PolicyResult
  oc_rtoResult :: PolicyResult
  oc_assessment :: Assessment
  oc_confidence :: Confidence

definition drill_outcome :: "drill_job \<Rightarrow> instant \<Rightarrow> outcome" where
  "drill_outcome job recoveryReady =
     (let (rpo, state) = MeasureRPO (j_drillStarted job) (j_snapshotAt job);
          (rto, rtoState) = MeasureRTO (j_drillStarted job) recoveryReady;
          (assessment, confidence) = drill_assessment (limitations_of (unmarshal_strings (j_required job)))
      in \<lparr>oc_rpo = rpo, oc_rto = rto,
          oc_rpoResult = EvaluatePolicy rpo state (j_rpoTarget job),
          oc_rtoResult = EvaluatePolicy rto rtoState (j_rtoTarget job),
          oc_assessment = assessment, oc_confidence = confidence\<rparr>)"

definition final_writes :: "string \<Rightarrow> string \<Rightarrow> ObjectInfo \<Rightarrow> string \<times> string \<times> instant \<Rightarrow> instant \<Rightarrow> outcome \<Rightarrow> tables \<Rightarrow> tables" where
  "final_writes orgID did artifact newID now oc t =
     (let (t1, artifactID) = upsert_artifact orgID did (oi_Key artifact) (oi_ContentType artifact)
              (oi_Size artifact) (oi_SHA256 artifact) (fst newID) t;
          t2 = upsert_evidence orgID did artifactID (oi_SHA256 artifact) (snd newID) t1;
          t3 = fst (finish_drill did now (oc_rpo oc) (oc_rto oc) (oc_rpoResult oc) (oc_rtoResult oc)
                 (oc_assessment oc) (oc_confidence oc) t2)
      in upsert_report orgID did now t3)"

lemma final_writes_rows:
  "recovery_drills (final_writes org did art new_id now oc t) = recovery_drills (fst (finish_drill did now
     (oc_rpo oc) (oc_rto oc) (oc_rpoResult oc) (oc_rtoResult oc) (oc_assessment oc) (oc_confidence oc) t))"
  by (simp add: final_writes_def Let_def finish_drill_def upsert_artifact_def split: option.split)

lemma final_writes_evolves: "tables_evolve t (final_writes org did art new_id now oc t)"
proof -
  obtain t1 aid where a: "upsert_artifact org did (oi_Key art) (oi_ContentType art) (oi_Size art) (oi_SHA256 art) (fst new_id) t = (t1, aid)"
    by fastforce
  have "tables_evolve t t1"
    using drills_simps(4) same_inputs_simps(7) a by (metis fst_conv tables_evolve_same_drills)
  moreover have "tables_evolve t1 (upsert_evidence org did aid (oi_SHA256 art) st t1)" for st
    by (rule tables_evolve_same_drills) simp_all
  ultimately show ?thesis
    unfolding final_writes_def Let_def a prod.case
    by (meson finish_drill_evolves tables_evolve_trans tables_evolve_same_drills drills_simps(6) same_inputs_simps(10))
qed

end
