(* ===== verification/Interference.thy ===== *)
theory Interference
  imports Outcome
begin

text \<open>
  What other requests and other workers may do to the database between two calls of an operation,
  and that it evolves the drills along their life cycle.
\<close>

section \<open>Operations of other requests and workers\<close>

text \<open>
  What another request or another worker can do to the tables, or to the context of a running
  drill, between two calls of a worker. A worker of the pool reaches \<open>setTerminal\<close> only after
  its drill has left \<open>QUEUED\<close>, and \<open>transition\<close> only through \<open>domain.Transition\<close>.
\<close>

datatype other =
    OtherCreate string string "string option" "string option" string string string
  | OtherCancel string string
  | OtherCtxCancel string
  | OtherTransition string DrillStatus string
  | OtherStep string string int string
  | OtherSandbox string string instant instant string string
  | OtherDestroyed string
  | OtherTerminal string DrillStatus string
  | OtherFinish string ObjectInfo "string \<times> string \<times> instant" instant
  | OtherSnapshot snapshot_row
  | OtherPolicy policy_row
  | OtherRows "tables \<Rightarrow> tables"

text \<open>The sequence number \<open>run\<close> records with each transition.\<close>

fun step_number :: "DrillStatus \<Rightarrow> int" where
  "step_number DrillPreparing = 1"
| "step_number DrillRestoring = 3"
| "step_number DrillValidating = 4"
| "step_number DrillFinalizing = 5"
| "step_number _ = 0"

definition transition_tx :: "string \<Rightarrow> DrillStatus \<Rightarrow> string \<Rightarrow> int \<Rightarrow> instant \<Rightarrow> tables \<Rightarrow> tables \<times> unit result" where
  "transition_tx did to step sequence now t =
     (case drill_by_id t did of
        None \<Rightarrow> (t, Inl ErrNoRows)
      | Some d \<Rightarrow>
          (case Transition (dr_status d) to of
             Some err \<Rightarrow> (t, Inl err)
           | None \<Rightarrow>
               (insert_step did step sequence (step @ '' completed'') now
                  (update_status did to (if to = DrillPreparing then Some now else None) now t), Inr ())))"

text \<open>
  The last transaction of another worker: it writes the outcome of its drill under the key of the
  drill's evidence, and is rolled back when the drill is not \<open>FINALIZING\<close>. The inputs are those of
  the drill: a snapshot or a policy is never changed.
\<close>

definition final_tx_of ::
    "string \<Rightarrow> ObjectInfo \<Rightarrow> string \<times> string \<times> instant \<Rightarrow> instant \<Rightarrow> instant \<Rightarrow> tables \<Rightarrow> tables \<times> unit result" where
  "final_tx_of did artifact newID ready now t =
     (case snd (select_job did now t) of
        Inl err \<Rightarrow> (t, Inl err)
      | Inr job \<Rightarrow>
          if drill_status t did \<noteq> Some DrillFinalizing then (t, Inl ErrNoRows)
          else (final_writes (j_orgID job) did (artifact\<lparr>oi_Key := evidence_key (j_orgID job) did\<rparr>) newID now
                  (drill_outcome job ready) t, Inr ()))"

text \<open>Requests that do not touch drills change accounts, sessions, assets, sources and the audit
  log; they may do so in any way.\<close>

definition other_rows :: "tables \<Rightarrow> tables \<Rightarrow> tables" where
  "other_rows t' t = t\<lparr>organizations := organizations t', users := users t', sessions := sessions t',
     user_roles := user_roles t', protected_assets := protected_assets t',
     backup_sources := backup_sources t', asset_backup_sources := asset_backup_sources t',
     audit_events := audit_events t', scheduler_jobs := scheduler_jobs t'\<rparr>"

definition apply_other :: "instant \<Rightarrow> other \<Rightarrow> tables \<Rightarrow> tables" where
  "apply_other now op t =
     (case op of
        OtherCreate org asset snapshot policy user idem new_id \<Rightarrow>
          fst (insert_drill org asset snapshot policy user idem new_id now t)
      | OtherCancel org did \<Rightarrow> fst (cancel_drill org did now t)
      | OtherCtxCancel did \<Rightarrow> t
      | OtherTransition did to step \<Rightarrow>
          if terminal to then t else fst (transition_tx did to step (step_number to) now t)
      | OtherStep did step sequence summary \<Rightarrow> insert_step did step sequence summary now t
      | OtherSandbox org did created ready container network \<Rightarrow>
          fst (upsert_sandbox org did created ready container network t)
      | OtherDestroyed did \<Rightarrow> fst (sandbox_destroyed did now t)
      | OtherTerminal did status summary \<Rightarrow>
          if drill_status t did \<noteq> Some DrillQueued \<and> status \<in> {DrillFailed, DrillCancelled, DrillInconclusive}
          then fst (set_terminal did status summary now t) else t
      | OtherFinish did artifact newID ready \<Rightarrow> fst (final_tx_of did artifact newID ready now t)
      | OtherSnapshot s \<Rightarrow>
          if s_id s \<in> set (map s_id (backup_snapshots t)) then t
          else t\<lparr>backup_snapshots := backup_snapshots t @ [s]\<rparr>
      | OtherPolicy p \<Rightarrow>
          if p_id p \<in> set (map p_id (recovery_policies t)) then t
          else t\<lparr>recovery_policies := recovery_policies t @ [p]\<rparr>
      | OtherRows f \<Rightarrow> other_rows (f t) t)"

text \<open>A worker owns its drill: no other worker writes the row.\<close>

definition other_allowed :: "string option \<Rightarrow> other \<Rightarrow> bool" where
  "other_allowed mine op =
     (case op of
        OtherTransition did _ _ \<Rightarrow> mine \<noteq> Some did
      | OtherStep did _ _ _ \<Rightarrow> mine \<noteq> Some did
      | OtherSandbox _ did _ _ _ _ \<Rightarrow> mine \<noteq> Some did
      | OtherDestroyed did \<Rightarrow> mine \<noteq> Some did
      | OtherTerminal did _ _ \<Rightarrow> mine \<noteq> Some did
      | OtherFinish did _ _ _ \<Rightarrow> mine \<noteq> Some did
      | _ \<Rightarrow> True)"


section \<open>They evolve the drills\<close>

lemma transition_tx_evolves: "tables_evolve t (fst (transition_tx did to step n now t))"
proof (cases "drill_by_id t did")
  case (Some d)
  show ?thesis
  proof (cases "CanTransition (dr_status d) to")
    case True
    then have "tables_evolve t (update_status did to x now t)" for x
      using Some by (intro update_status_evolves [where s = "dr_status d"]) (simp_all add: drill_status_def)
    moreover have "tables_evolve (update_status did to x now t)
        (insert_step did step n su now (update_status did to x now t))" for x su
      by (rule tables_evolve_same_drills) simp_all
    ultimately show ?thesis
      using Some True by (auto simp: transition_tx_def Transition_def intro: tables_evolve_trans)
  qed (simp add: transition_tx_def Transition_def Some)
qed (simp add: transition_tx_def)

lemma final_tx_of_evolves: "tables_evolve t (fst (final_tx_of did artifact newID ready now t))"
  by (simp add: final_tx_of_def final_writes_evolves split: sum.split)

lemma new_inputs_evolve:
  "tables_evolve t (t\<lparr>backup_snapshots := backup_snapshots t @ [s]\<rparr>)"
  "tables_evolve t (t\<lparr>recovery_policies := recovery_policies t @ [p]\<rparr>)"
  by (auto simp: tables_evolve_def drill_by_id_def)

lemma other_rows_simps [simp]:
  "recovery_drills (other_rows t' t) = recovery_drills t"
  "drill_steps (other_rows t' t) = drill_steps t"
  "recovery_sandboxes (other_rows t' t) = recovery_sandboxes t"
  "evidence_artifacts (other_rows t' t) = evidence_artifacts t"
  "evidence_rows (other_rows t' t) = evidence_rows t"
  "recovery_reports (other_rows t' t) = recovery_reports t"
  "backup_snapshots (other_rows t' t) = backup_snapshots t"
  "recovery_policies (other_rows t' t) = recovery_policies t"
  "same_inputs t (other_rows t' t)"
  by (simp_all add: other_rows_def same_inputs_def)

lemma other_rows_drill [simp]: "drill_by_id (other_rows t' t) did = drill_by_id t did"
  by (simp add: drill_by_id_def)

lemma other_rows_evolve: "tables_evolve t (other_rows t' t)"
  by (rule tables_evolve_same_drills) simp_all

lemma apply_other_evolves: "tables_evolve t (apply_other now op t)"
  by (auto simp: apply_other_def insert_drill_evolves cancel_drill_evolves transition_tx_evolves
      final_tx_of_evolves new_inputs_evolve other_rows_evolve intro: set_terminal_evolves tables_evolve_same_drills
      split: other.splits)

end
