(* ===== verification/Event_Hub.thy ===== *)
theory Event_Hub
  imports Go_Json "HOL-Library.AList" "HOL-Library.Char_ord" "HOL-Library.List_Lexorder"
begin

text \<open>
  The event hub of \<open>drill/hub.go\<close>, which fans drill events out to the SSE handlers.
  Channels live in an explicit store and are referred to by index, because the hub and the
  handler share them. Closing a closed channel and sending on a closed channel panic in Go;
  a panic is the value \<open>None\<close>. Every operation runs under the hub's mutex, so a run of the hub
  is a sequence of operations, in any order the handlers and workers choose.
\<close>

record Event =
  evt_DrillID :: string
  evt_Type :: string
  evt_Data :: "(string \<times> string) list"

text \<open>\<open>json.Marshal\<close> of an event: the keys of a map are sorted. It cannot fail.\<close>

definition marshal_event :: "Event \<Rightarrow> bytes option" where
  "marshal_event ev =
     Some (json_Marshal (JObj [(''drillId'', JStr (evt_DrillID ev)), (''type'', JStr (evt_Type ev)),
       (''data'', JObj (map (\<lambda>(k, v). (k, JStr v)) (sort_key fst (evt_Data ev))))]))"

record channel =
  ch_buf :: "bytes list"
  ch_closed :: bool

record EventHub =
  subscribers :: "(string \<times> nat list) list"
  channels :: "channel list"

definition NewEventHub :: EventHub where
  "NewEventHub = \<lparr>subscribers = [], channels = []\<rparr>"

definition chan_cap :: nat where
  "chan_cap = 32"

text \<open>The inner map of a drill; a missing key gives the nil map, which has no channel.\<close>

definition subs_of :: "EventHub \<Rightarrow> string \<Rightarrow> nat list" where
  "subs_of h drillID = (case map_of (subscribers h) drillID of None \<Rightarrow> [] | Some cs \<Rightarrow> cs)"

definition Subscribe :: "string \<Rightarrow> EventHub \<Rightarrow> EventHub \<times> nat" where
  "Subscribe drillID h =
     (let c = length (channels h) in
      (h\<lparr>channels := channels h @ [\<lparr>ch_buf = [], ch_closed = False\<rparr>],
         subscribers := AList.update drillID (subs_of h drillID @ [c]) (subscribers h)\<rparr>, c))"

definition close_chan :: "nat \<Rightarrow> channel list \<Rightarrow> channel list option" where
  "close_chan c cs =
     (if c < length cs \<and> \<not> ch_closed (cs ! c) then Some (cs[c := (cs ! c)\<lparr>ch_closed := True\<rparr>])
      else None)"

text \<open>The function \<open>Subscribe\<close> returns: it removes and closes the channel once.\<close>

definition unsubscribe :: "string \<Rightarrow> nat \<Rightarrow> EventHub \<Rightarrow> EventHub option" where
  "unsubscribe drillID c h =
     (if c \<in> set (subs_of h drillID) then
        (case close_chan c (channels h) of
           None \<Rightarrow> None
         | Some cs \<Rightarrow> Some (h\<lparr>channels := cs,
             subscribers := AList.update drillID (removeAll c (subs_of h drillID)) (subscribers h)\<rparr>))
      else Some h)"

text \<open>One \<open>select\<close> with a \<open>default\<close>: the payload is dropped when the buffer is full.\<close>

definition send_chan :: "bytes \<Rightarrow> nat \<Rightarrow> channel list \<Rightarrow> channel list option" where
  "send_chan payload c cs =
     (if c < length cs \<and> \<not> ch_closed (cs ! c) then
        Some (if length (ch_buf (cs ! c)) < chan_cap
              then cs[c := (cs ! c)\<lparr>ch_buf := ch_buf (cs ! c) @ [payload]\<rparr>] else cs)
      else None)"

fun send_all :: "bytes \<Rightarrow> nat list \<Rightarrow> channel list \<Rightarrow> channel list option" where
  "send_all payload [] cs = Some cs"
| "send_all payload (c # rest) cs =
     (case send_chan payload c cs of None \<Rightarrow> None | Some cs' \<Rightarrow> send_all payload rest cs')"

definition Publish :: "(Event \<Rightarrow> bytes option) \<Rightarrow> Event \<Rightarrow> EventHub \<Rightarrow> EventHub option" where
  "Publish marshal event h =
     (case marshal event of
        None \<Rightarrow> Some h
      | Some payload \<Rightarrow>
          map_option (\<lambda>cs. h\<lparr>channels := cs\<rparr>)
            (send_all payload (subs_of h (evt_DrillID event)) (channels h)))"

fun close_all :: "nat list \<Rightarrow> channel list \<Rightarrow> channel list option" where
  "close_all [] cs = Some cs"
| "close_all (c # rest) cs =
     (case close_chan c cs of None \<Rightarrow> None | Some cs' \<Rightarrow> close_all rest cs')"

definition hub_Close :: "EventHub \<Rightarrow> EventHub option" where
  "hub_Close h =
     map_option (\<lambda>cs. h\<lparr>channels := cs, subscribers := []\<rparr>)
       (close_all (concat (map snd (subscribers h))) (channels h))"

text \<open>The receiving side: \<open>payload, ok := <-events\<close> on a channel with something to deliver.\<close>

definition receive :: "nat \<Rightarrow> EventHub \<Rightarrow> (bytes option \<times> EventHub) option" where
  "receive c h =
     (if c < length (channels h) then
        (case ch_buf (channels h ! c) of
           p # ps \<Rightarrow> Some (Some p, h\<lparr>channels := (channels h)[c := (channels h ! c)\<lparr>ch_buf := ps\<rparr>]\<rparr>)
         | [] \<Rightarrow> if ch_closed (channels h ! c) then Some (None, h) else None)
      else None)"


section \<open>Runs of the hub\<close>

inductive hub_step :: "(Event \<Rightarrow> bytes option) \<Rightarrow> EventHub \<Rightarrow> EventHub \<Rightarrow> bool" for marshal where
  subscribe: "hub_step marshal h (fst (Subscribe d h))"
| unsubscribe: "unsubscribe d c h = Some h' \<Longrightarrow> hub_step marshal h h'"
| publish: "Publish marshal ev h = Some h' \<Longrightarrow> hub_step marshal h h'"
| close: "hub_Close h = Some h' \<Longrightarrow> hub_step marshal h h'"
| receive: "receive c h = Some (p, h') \<Longrightarrow> hub_step marshal h h'"

inductive hub_reachable :: "(Event \<Rightarrow> bytes option) \<Rightarrow> EventHub \<Rightarrow> bool" for marshal where
  start: "hub_reachable marshal NewEventHub"
| step: "hub_reachable marshal h \<Longrightarrow> hub_step marshal h h' \<Longrightarrow> hub_reachable marshal h'"

text \<open>Each channel is subscribed at most once, every subscribed channel is open, and no
  buffer exceeds its capacity.\<close>

definition all_subs :: "EventHub \<Rightarrow> nat list" where
  "all_subs h = concat (map snd (subscribers h))"

definition open_at :: "channel list \<Rightarrow> nat \<Rightarrow> bool" where
  "open_at cs c = (c < length cs \<and> \<not> ch_closed (cs ! c))"

definition hub_inv :: "EventHub \<Rightarrow> bool" where
  "hub_inv h =
     (distinct (map fst (subscribers h)) \<and> distinct (all_subs h) \<and>
      list_all (open_at (channels h)) (all_subs h) \<and>
      list_all (\<lambda>ch. length (ch_buf ch) \<le> chan_cap) (channels h))"


section \<open>Lemmas\<close>

inductive_cases hub_stepE: "hub_step marshal h h'"

lemma map_of_in_concat: "map_of al d = Some cs \<Longrightarrow> set cs \<subseteq> set (concat (map snd al))"
  by (induction al) (auto split: if_splits)

lemma subs_of_subset: "set (subs_of h d) \<subseteq> set (all_subs h)"
  unfolding subs_of_def all_subs_def
  using map_of_in_concat [of "subscribers h" d] by (cases "map_of (subscribers h) d") simp_all

lemma concat_update_snoc:
  fixes d :: string and c :: nat
  assumes "distinct (concat (map snd al))" and "c \<notin> set (concat (map snd al))"
  defines "al' \<equiv> AList.update d ((case map_of al d of None \<Rightarrow> [] | Some cs \<Rightarrow> cs) @ [c]) al"
  shows "distinct (concat (map snd al')) \<and> set (concat (map snd al')) = insert c (set (concat (map snd al)))"
  using assms(1,2) unfolding al'_def
  by (induction al) (auto split: option.splits dest!: map_of_SomeD)

lemma concat_update_remove:
  assumes "distinct (concat (map snd al))" and "map_of al d = Some cs" and "c \<in> set cs"
  shows "distinct (concat (map snd (AList.update d (removeAll c cs) al))) \<and>
         set (concat (map snd (AList.update d (removeAll c cs) al))) = set (concat (map snd al)) - {c}"
  using assms
proof (induction al)
  case (Cons kv al)
  obtain k v where kv: "kv = (k, v)" by (cases kv)
  show ?case
  proof (cases "k = d")
    case True
    then show ?thesis using Cons.prems kv by (auto simp: distinct_removeAll)
  next
    case False
    then have IH: "distinct (concat (map snd (AList.update d (removeAll c cs) al)))"
      "set (concat (map snd (AList.update d (removeAll c cs) al))) = set (concat (map snd al)) - {c}"
      using Cons kv by auto
    have "c \<in> set (concat (map snd al))"
      using Cons.prems False kv map_of_in_concat [of al d cs] by auto
    then show ?thesis using IH Cons.prems False kv by auto
  qed
qed simp

lemma close_chan_open: "open_at cs c \<Longrightarrow> close_chan c cs = Some (cs[c := (cs ! c)\<lparr>ch_closed := True\<rparr>])"
  by (simp add: close_chan_def open_at_def)

lemma close_all_open:
  assumes "distinct l" and "list_all (open_at cs) l"
  shows "\<exists>cs'. close_all l cs = Some cs' \<and> length cs' = length cs \<and>
    (\<forall>c < length cs. cs' ! c = (if c \<in> set l then (cs ! c)\<lparr>ch_closed := True\<rparr> else cs ! c))"
  using assms
proof (induction l arbitrary: cs)
  case (Cons c l)
  let ?cs = "cs[c := (cs ! c)\<lparr>ch_closed := True\<rparr>]"
  have c: "open_at cs c" using Cons.prems by simp
  have "list_all (open_at ?cs) l"
    using Cons.prems by (auto simp: list_all_iff open_at_def nth_list_update)
  with Cons.IH [of ?cs] Cons.prems obtain cs' where cs': "close_all l ?cs = Some cs'"
    "length cs' = length cs"
    "\<forall>x < length cs. cs' ! x = (if x \<in> set l then (?cs ! x)\<lparr>ch_closed := True\<rparr> else ?cs ! x)"
    by auto
  then show ?case using c by (auto simp: close_chan_open nth_list_update open_at_def)
qed simp

lemma send_all_open:
  assumes "distinct l" and "list_all (open_at cs) l"
  shows "\<exists>cs'. send_all p l cs = Some cs' \<and> length cs' = length cs \<and>
    (\<forall>c < length cs. cs' ! c =
       (if c \<in> set l \<and> length (ch_buf (cs ! c)) < chan_cap
        then (cs ! c)\<lparr>ch_buf := ch_buf (cs ! c) @ [p]\<rparr> else cs ! c))"
  using assms
proof (induction l arbitrary: cs)
  case (Cons c l)
  define ds where "ds = (if length (ch_buf (cs ! c)) < chan_cap
              then cs[c := (cs ! c)\<lparr>ch_buf := ch_buf (cs ! c) @ [p]\<rparr>] else cs)"
  have c: "send_chan p c cs = Some ds" "c < length cs"
    using Cons.prems by (simp_all add: send_chan_def open_at_def ds_def)
  have keep: "\<And>x. x \<noteq> c \<Longrightarrow> ds ! x = cs ! x" and len: "length ds = length cs"
    by (auto simp: ds_def)
  then have "list_all (open_at ds) l"
    using Cons.prems by (auto simp: list_all_iff open_at_def) (metis keep)
  with Cons.IH [of ds] Cons.prems len obtain cs' where cs': "send_all p l ds = Some cs'"
    "length cs' = length cs"
    "\<forall>x < length cs. cs' ! x = (if x \<in> set l \<and> length (ch_buf (ds ! x)) < chan_cap
        then (ds ! x)\<lparr>ch_buf := ch_buf (ds ! x) @ [p]\<rparr> else ds ! x)"
    by auto
  have "c \<notin> set l" using Cons.prems by simp
  then have "\<forall>x < length cs. cs' ! x =
       (if x \<in> set (c # l) \<and> length (ch_buf (cs ! x)) < chan_cap
        then (cs ! x)\<lparr>ch_buf := ch_buf (cs ! x) @ [p]\<rparr> else cs ! x)"
    using cs'(3) keep c(2) by (metis ds_def insert_iff list.set(2) nth_list_update_eq)
  then show ?case using c cs' by auto
qed simp

lemma hub_inv_subs:
  "hub_inv h \<Longrightarrow> distinct (subs_of h d) \<and> list_all (open_at (channels h)) (subs_of h d)"
proof -
  assume inv: "hub_inv h"
  have "distinct (subs_of h d)"
    using inv unfolding hub_inv_def all_subs_def subs_of_def
    by (auto split: option.splits dest!: map_of_SomeD simp: distinct_concat_iff)
  moreover have "list_all (open_at (channels h)) (subs_of h d)"
    using inv subs_of_subset [of h d] by (auto simp: hub_inv_def list_all_iff)
  ultimately show ?thesis ..
qed

text \<open>Each operation from a state with the invariant: it does not panic and keeps it.\<close>

lemma Subscribe_inv: "hub_inv h \<Longrightarrow> hub_inv (fst (Subscribe d h))"
proof -
  assume inv: "hub_inv h"
  let ?c = "length (channels h)"
  have lt: "\<forall>x \<in> set (all_subs h). x < ?c"
    using inv by (auto simp: hub_inv_def list_all_iff open_at_def)
  then have "?c \<notin> set (concat (map snd (subscribers h)))"
    by (auto simp: all_subs_def)
  moreover have "distinct (concat (map snd (subscribers h)))"
    using inv by (simp add: hub_inv_def all_subs_def)
  ultimately have "distinct (all_subs (fst (Subscribe d h)))"
    and "set (all_subs (fst (Subscribe d h))) = insert ?c (set (all_subs h))"
    using concat_update_snoc [of "subscribers h" ?c d]
    by (simp_all add: all_subs_def Subscribe_def Let_def subs_of_def)
  moreover have "distinct (map fst (subscribers (fst (Subscribe d h))))"
    using inv by (simp add: Subscribe_def Let_def hub_inv_def distinct_update)
  moreover have "list_all (open_at (channels (fst (Subscribe d h)))) (all_subs (fst (Subscribe d h)))"
    using inv lt calculation(2)
    by (auto simp: list_all_iff open_at_def hub_inv_def Subscribe_def Let_def nth_append)
  ultimately show ?thesis
    using inv by (auto simp: hub_inv_def Subscribe_def Let_def list_all_iff)
qed

lemma unsubscribe_inv: "hub_inv h \<Longrightarrow> \<exists>h'. unsubscribe d c h = Some h' \<and> hub_inv h'"
proof (cases "c \<in> set (subs_of h d)")
  case True
  assume inv: "hub_inv h"
  with True have c: "open_at (channels h) c"
    using hub_inv_subs [OF inv, of d] by (auto simp: list_all_iff)
  from True obtain cs where cs: "map_of (subscribers h) d = Some cs" "c \<in> set cs" "subs_of h d = cs"
    by (cases "map_of (subscribers h) d") (simp_all add: subs_of_def)
  let ?al = "AList.update d (removeAll c cs) (subscribers h)"
  have al: "distinct (concat (map snd ?al))" "set (concat (map snd ?al)) = set (all_subs h) - {c}"
    using concat_update_remove [of "subscribers h" d cs c] inv cs
    by (simp_all add: hub_inv_def all_subs_def)
  let ?h = "h\<lparr>channels := (channels h)[c := (channels h ! c)\<lparr>ch_closed := True\<rparr>], subscribers := ?al\<rparr>"
  have "unsubscribe d c h = Some ?h"
    using True c cs by (simp add: unsubscribe_def close_chan_open)
  moreover have "list_all (open_at (channels ?h)) (all_subs ?h)"
    using inv al(2) by (auto simp: hub_inv_def list_all_iff open_at_def all_subs_def nth_list_update)
  moreover have "list_all (\<lambda>ch. length (ch_buf ch) \<le> chan_cap) (channels ?h)"
    using inv c by (auto simp: hub_inv_def list_all_length open_at_def nth_list_update)
  ultimately show ?thesis
    using inv al(1) by (auto simp: hub_inv_def all_subs_def distinct_update)
qed (simp add: unsubscribe_def)

lemma Publish_inv: "hub_inv h \<Longrightarrow> \<exists>h'. Publish marshal ev h = Some h' \<and> hub_inv h'"
proof (cases "marshal ev")
  case (Some p)
  assume inv: "hub_inv h"
  let ?l = "subs_of h (evt_DrillID ev)"
  obtain cs' where cs': "send_all p ?l (channels h) = Some cs'" "length cs' = length (channels h)"
    "\<forall>c < length (channels h). cs' ! c =
       (if c \<in> set ?l \<and> length (ch_buf (channels h ! c)) < chan_cap
        then (channels h ! c)\<lparr>ch_buf := ch_buf (channels h ! c) @ [p]\<rparr> else channels h ! c)"
    using send_all_open hub_inv_subs [OF inv] by metis
  then have "list_all (open_at cs') (all_subs h)"
    and "list_all (\<lambda>ch. length (ch_buf ch) \<le> chan_cap) cs'"
    using inv by (auto simp: hub_inv_def list_all_length open_at_def)
  then show ?thesis
    using Some cs' inv by (auto simp: Publish_def hub_inv_def all_subs_def)
qed (simp add: Publish_def)

lemma hub_Close_inv: "hub_inv h \<Longrightarrow> \<exists>h'. hub_Close h = Some h' \<and> hub_inv h'"
proof -
  assume inv: "hub_inv h"
  obtain cs' where cs': "close_all (all_subs h) (channels h) = Some cs'"
    "length cs' = length (channels h)"
    "\<forall>c < length (channels h). cs' ! c =
       (if c \<in> set (all_subs h) then (channels h ! c)\<lparr>ch_closed := True\<rparr> else channels h ! c)"
    using close_all_open [of "all_subs h" "channels h"] inv by (auto simp: hub_inv_def)
  then have "list_all (\<lambda>ch. length (ch_buf ch) \<le> chan_cap) cs'"
    using inv by (auto simp: hub_inv_def list_all_length)
  then show ?thesis
    using cs' by (auto simp: hub_Close_def hub_inv_def all_subs_def)
qed

lemma receive_inv: "hub_inv h \<Longrightarrow> receive c h = Some (p, h') \<Longrightarrow> hub_inv h'"
  by (auto simp: receive_def hub_inv_def all_subs_def list_all_length open_at_def nth_list_update
      split: list.splits if_splits) (metis Suc_leD length_Cons)

lemma hub_step_inv: "hub_step marshal h h' \<Longrightarrow> hub_inv h \<Longrightarrow> hub_inv h'"
proof (erule hub_stepE)
  fix d assume "h' = fst (Subscribe d h)" "hub_inv h"
  then show ?thesis by (simp add: Subscribe_inv)
next
  fix d c assume "unsubscribe d c h = Some h'" "hub_inv h"
  then show ?thesis using unsubscribe_inv [of h d c] by auto
next
  fix ev assume "Publish marshal ev h = Some h'" "hub_inv h"
  then show ?thesis using Publish_inv [of h marshal ev] by auto
next
  assume "hub_Close h = Some h'" "hub_inv h"
  then show ?thesis using hub_Close_inv [of h] by auto
next
  fix c p assume "receive c h = Some (p, h')" "hub_inv h"
  then show ?thesis by (rule receive_inv [rotated])
qed

lemma hub_reachable_inv: "hub_reachable marshal h \<Longrightarrow> hub_inv h"
proof (induction rule: hub_reachable.induct)
  case start
  show ?case by (simp add: hub_inv_def NewEventHub_def all_subs_def)
next
  case (step h h')
  then show ?case by (blast intro: hub_step_inv)
qed


section \<open>Properties\<close>

text \<open>
  The hub never panics: in every reachable state, unsubscribing any channel (also twice,
  also after the hub was closed), publishing any event and closing the hub all return, so no
  channel is closed twice and nothing is sent on a closed channel.
\<close>

theorem hub_never_panics:
  assumes "hub_reachable marshal h"
  shows "unsubscribe d c h \<noteq> None \<and> Publish marshal ev h \<noteq> None \<and> hub_Close h \<noteq> None"
  using hub_reachable_inv [OF assms] unsubscribe_inv [of h d c] Publish_inv [of h marshal ev]
    hub_Close_inv [of h] by auto

theorem hub_never_panics_witness:
  "hub_reachable (\<lambda>_. Some ''{}'') (fst (Subscribe ''d1'' NewEventHub)) \<and>
   unsubscribe ''d1'' 0 (fst (Subscribe ''d1'' NewEventHub)) \<noteq> None"
proof -
  have "hub_reachable (\<lambda>_. Some ''{}'') (fst (Subscribe ''d1'' NewEventHub))"
    by (rule hub_reachable.step [OF hub_reachable.start hub_step.subscribe])
  then show ?thesis using hub_never_panics by blast
qed

text \<open>
  Delivery: publishing appends the payload to the buffer of exactly the channels
  subscribed to the event's drill that have room; every other channel is untouched, so a slow
  or foreign subscriber never blocks the worker nor receives another drill's event.
\<close>

theorem publish_delivers:
  assumes "hub_reachable marshal h" and "marshal ev = Some p"
  shows "\<exists>h'. Publish marshal ev h = Some h' \<and> subscribers h' = subscribers h \<and>
    channels h' = map (\<lambda>c.
      if c \<in> set (subs_of h (evt_DrillID ev)) \<and> length (ch_buf (channels h ! c)) < chan_cap
      then (channels h ! c)\<lparr>ch_buf := ch_buf (channels h ! c) @ [p]\<rparr>
      else channels h ! c) [0..<length (channels h)]"
proof -
  have inv: "hub_inv h" using assms(1) by (rule hub_reachable_inv)
  obtain cs' where "send_all p (subs_of h (evt_DrillID ev)) (channels h) = Some cs'"
    "length cs' = length (channels h)"
    "\<forall>c < length (channels h). cs' ! c =
       (if c \<in> set (subs_of h (evt_DrillID ev)) \<and> length (ch_buf (channels h ! c)) < chan_cap
        then (channels h ! c)\<lparr>ch_buf := ch_buf (channels h ! c) @ [p]\<rparr> else channels h ! c)"
    using send_all_open hub_inv_subs [OF inv] by metis
  then show ?thesis
    using assms(2) by (auto simp: Publish_def intro: nth_equalityI)
qed

theorem publish_delivers_witness:
  "\<exists>h'. Publish (\<lambda>_. Some ''p'') \<lparr>evt_DrillID = ''d1'', evt_Type = ''t'', evt_Data = []\<rparr>
      (fst (Subscribe ''d1'' NewEventHub)) = Some h' \<and> channels h' = [\<lparr>ch_buf = [''p''], ch_closed = False\<rparr>]"
proof -
  have "hub_reachable (\<lambda>_. Some ''p'') (fst (Subscribe ''d1'' NewEventHub))"
    by (rule hub_reachable.step [OF hub_reachable.start hub_step.subscribe])
  from publish_delivers [OF this, where ev = "\<lparr>evt_DrillID = ''d1'', evt_Type = ''t'', evt_Data = []\<rparr>" and p = "''p''"]
  show ?thesis
    by (auto simp: Subscribe_def NewEventHub_def subs_of_def chan_cap_def)
qed

end
