(* ===== verification/Go_Time.thy ===== *)
theory Go_Time
  imports Text_Formats Go_Float
begin

text \<open>
  Instants and durations in text, as package \<open>time\<close> writes and reads them: the proleptic Gregorian
  calendar, \<open>Format\<close> with \<open>RFC3339\<close> and \<open>RFC3339Nano\<close> in UTC, \<open>Time.MarshalJSON\<close>, and \<open>ParseDuration\<close> with its
  floating-point fractions.
\<close>

section \<open>The calendar\<close>

text \<open>Days since January 1st of year 1.\<close>

definition is_leap :: "int \<Rightarrow> bool" where
  "is_leap y = (y mod 4 = 0 \<and> (y mod 100 \<noteq> 0 \<or> y mod 400 = 0))"

definition days_before_year :: "int \<Rightarrow> int" where
  "days_before_year y = 365 * (y - 1) + (y - 1) div 4 - (y - 1) div 100 + (y - 1) div 400"

definition month_lengths :: "int \<Rightarrow> int list" where
  "month_lengths y = [31, if is_leap y then 29 else 28, 31, 30, 31, 30, 31, 31, 30, 31, 30, 31]"

text \<open>The year of a day is the estimate from the length of 400 years, or one beside it.\<close>

definition year_of :: "int \<Rightarrow> int" where
  "year_of n =
     (let y = n * 400 div 146097 + 1 in
      if n < days_before_year y then y - 1
      else if days_before_year (y + 1) \<le> n then y + 1
      else y)"

fun month_of :: "int list \<Rightarrow> int \<Rightarrow> int \<times> int" where
  "month_of [] d = (1, d + 1)"
| "month_of (len # lens) d =
     (if d < len then (1, d + 1) else (let (m, k) = month_of lens (d - len) in (m + 1, k)))"

definition civil :: "int \<Rightarrow> int \<times> int \<times> int" where
  "civil n = (let y = year_of n in (y, month_of (month_lengths y) (n - days_before_year y)))"

definition day_number :: "int \<times> int \<times> int \<Rightarrow> int" where
  "day_number ymd =
     (case ymd of (y, m, d) \<Rightarrow> days_before_year y + sum_list (take (nat (m - 1)) (month_lengths y)) + (d - 1))"


section \<open>RFC 3339\<close>

definition pad :: "nat \<Rightarrow> int \<Rightarrow> string" where
  "pad w i = (if i < 0 then CHR ''-'' # zero_pad w (format_dec (- i)) else zero_pad w (format_dec i))"

definition date_text :: "int \<times> int \<times> int \<Rightarrow> string" where
  "date_text ymd = (case ymd of (y, m, d) \<Rightarrow> pad 4 y @ ''-'' @ pad 2 m @ ''-'' @ pad 2 d)"

definition clock_text :: "int \<Rightarrow> string" where
  "clock_text s = pad 2 (s div 3600) @ '':'' @ pad 2 (s div 60 mod 60) @ '':'' @ pad 2 (s mod 60)"

definition seconds_text :: "instant \<Rightarrow> string" where
  "seconds_text t =
     (let s = t div time_Second in date_text (civil (s div 86400)) @ ''T'' @ clock_text (s mod 86400))"

definition RFC3339 :: "instant \<Rightarrow> string" where
  "RFC3339 t = seconds_text t @ ''Z''"

definition nano_text :: "int \<Rightarrow> string" where
  "nano_text ns =
     (if ns = 0 then []
      else CHR ''.'' # rev (dropWhile (\<lambda>c. c = CHR ''0'') (rev (pad 9 ns))))"

definition RFC3339Nano :: "instant \<Rightarrow> string" where
  "RFC3339Nano t = seconds_text t @ nano_text (t mod time_Second) @ ''Z''"

text \<open>\<open>MarshalJSON\<close> of an instant in UTC: an error when the year has more than four digits.\<close>

definition time_Marshal :: "instant \<Rightarrow> string option" where
  "time_Marshal t =
     (let y = fst (civil (t div time_Second div 86400)) in
      if y < 0 \<or> 10000 \<le> y then None else Some (RFC3339Nano t))"


section \<open>Durations\<close>

text \<open>\<open>leadingInt\<close>: the digits at the front, an error beyond \<open>2^63\<close>.\<close>

fun leading_int :: "int \<Rightarrow> string \<Rightarrow> (int \<times> string) option" where
  "leading_int x [] = Some (x, [])"
| "leading_int x (c # s) =
     (if \<not> is_digit c then Some (x, c # s)
      else if x > 2 ^ 63 div 10 then None
      else if x * 10 + digit_value c > 2 ^ 63 then None
      else leading_int (x * 10 + digit_value c) s)"

text \<open>\<open>leadingFraction\<close>: digits beyond the range are skipped; the scale is a power of ten.\<close>

fun leading_fraction :: "int \<Rightarrow> nat \<Rightarrow> bool \<Rightarrow> string \<Rightarrow> int \<times> nat \<times> string" where
  "leading_fraction x k overflow [] = (x, k, [])"
| "leading_fraction x k overflow (c # s) =
     (if \<not> is_digit c then (x, k, c # s)
      else if overflow then leading_fraction x k True s
      else if x > (2 ^ 63 - 1) div 10 then leading_fraction x k True s
      else if x * 10 + digit_value c > 2 ^ 63 then leading_fraction x k True s
      else leading_fraction (x * 10 + digit_value c) (Suc k) False s)"

text \<open>The scale is a \<open>float64\<close> that is multiplied by ten for every digit.\<close>

fun float_scale :: "nat \<Rightarrow> rat" where
  "float_scale 0 = 1"
| "float_scale (Suc k) = float64 (float_scale k * 10)"

definition unit_of :: "string \<Rightarrow> int option" where
  "unit_of u = map_of
     [(''ns'', 1), (''us'', 1000), ([CHR 0xC2, CHR 0xB5] @ ''s'', 1000), ([CHR 0xCE, CHR 0xBC] @ ''s'', 1000),
      (''ms'', 1000000), (''s'', time_Second), (''m'', time_Minute), (''h'', 60 * time_Minute)] u"

definition unit_char :: "char \<Rightarrow> bool" where
  "unit_char c = (\<not> (c = CHR ''.'' \<or> is_digit c))"

text \<open>One term of a duration: a number with an optional fraction, and a unit.\<close>

definition duration_term :: "string \<Rightarrow> (int \<times> string) option" where
  "duration_term s =
     (case s of
        [] \<Rightarrow> None
      | c # _ \<Rightarrow>
          if unit_char c then None
          else case leading_int 0 s of
              None \<Rightarrow> None
            | Some (v, s1) \<Rightarrow>
                let pre = (length s1 \<noteq> length s);
                    (f, k, s2) = (if HasPrefix s1 ''.'' then leading_fraction 0 0 False (tl s1) else (0, 0, s1));
                    post = (HasPrefix s1 ''.'' \<and> length s2 \<noteq> length (tl s1));
                    u = takeWhile unit_char s2
                in if \<not> pre \<and> \<not> post then None
                   else if u = [] then None
                   else case unit_of u of
                       None \<Rightarrow> None
                     | Some un \<Rightarrow>
                         if v > 2 ^ 63 div un then None
                         else
                           let w = v * un + (if f > 0
                                 then \<lfloor>float64 (float64 (of_int f) * float64 (float64 (of_int un) / float_scale k))\<rfloor> else 0)
                           in if f > 0 \<and> w > 2 ^ 63 then None else Some (w, dropWhile unit_char s2))"

text \<open>The sum is a \<open>uint64\<close>. A term consumes at least one byte, so the terms are bounded by the length.\<close>

fun duration_terms :: "nat \<Rightarrow> int \<Rightarrow> string \<Rightarrow> int option" where
  "duration_terms 0 d s = (if s = [] then Some d else None)"
| "duration_terms (Suc n) d s =
     (if s = [] then Some d
      else case duration_term s of
          None \<Rightarrow> None
        | Some (v, s1) \<Rightarrow>
            let d1 = (d + v) mod 2 ^ 64 in if d1 > 2 ^ 63 then None else duration_terms n d1 s1)"

definition ParseDuration :: "string \<Rightarrow> duration result" where
  "ParseDuration orig =
     (let neg = HasPrefix orig ''-'';
          s = (if HasPrefix orig ''-'' \<or> HasPrefix orig ''+'' then tl orig else orig);
          bad = Inl (Errorf (''time: invalid duration '' @ orig))
      in if s = ''0'' then Inr 0
         else if s = [] then bad
         else case duration_terms (length s) 0 s of
             None \<Rightarrow> bad
           | Some d \<Rightarrow> if neg then Inr (- d) else if d > 2 ^ 63 - 1 then bad else Inr d)"


section \<open>Lemmas\<close>

text \<open>A day is in the year, month and day that \<open>civil\<close> finds for it.\<close>

lemma div_step:
  fixes x k :: int
  assumes "0 < k"
  shows "(x + 1) div k = x div k + (if (x + 1) mod k = 0 then 1 else 0)"
proof -
  have x: "x + 1 = k * (x div k) + (x mod k + 1)" by simp
  show ?thesis
  proof (cases "x mod k + 1 < k")
    case True
    have m: "0 \<le> x mod k" using assms by simp
    have "(x + 1) div k = x div k" "(x + 1) mod k = x mod k + 1"
      using int_div_pos_eq [OF x _ True] int_mod_pos_eq [OF x _ True] m by auto
    then show ?thesis using m by simp
  next
    case False
    moreover have "x mod k < k" using assms by simp
    ultimately have "x mod k + 1 = k" by linarith
    then have "x + 1 = k * (x div k + 1)" using x by (simp add: distrib_left)
    then have "(x + 1) div k = x div k + 1" "(x + 1) mod k = 0" using assms by (metis nonzero_mult_div_cancel_left less_irrefl, simp)
    then show ?thesis by simp
  qed
qed

lemma days_before_year_Suc:
  "days_before_year (y + 1) = days_before_year y + 365 + (if is_leap y then 1 else 0)"
proof -
  have step: "y div k - (y - 1) div k = (if y mod k = 0 then 1 else 0)" if "0 < k" for k :: int
    using div_step [OF that, of "y - 1"] by simp
  have mods: "y mod 400 = 0 \<longrightarrow> y mod 100 = 0" "y mod 100 = 0 \<longrightarrow> y mod 4 = 0"
    unfolding mod_eq_0_iff_dvd by (auto elim: dvd_trans [rotated])
  have cases: "365 + (if p then 1 else 0) - (if q then 1 else 0) + (if r then 1 else 0) =
      365 + (if p \<and> (\<not> q \<or> r) then 1 else (0 :: int))" if "r \<longrightarrow> q" "q \<longrightarrow> p" for p q r
    by (rule bool.exhaust [of p]; rule bool.exhaust [of q]; rule bool.exhaust [of r]; use that in simp)
  have "days_before_year (y + 1) - days_before_year y =
      365 + (y div 4 - (y - 1) div 4) - (y div 100 - (y - 1) div 100) + (y div 400 - (y - 1) div 400)"
    by (simp add: days_before_year_def)
  also have "\<dots> = 365 + (if is_leap y then 1 else 0)"
    unfolding step [of 4, OF zero_less_numeral] step [of 100, OF zero_less_numeral] step [of 400, OF zero_less_numeral] is_leap_def
    by (rule cases [OF mods])
  finally show ?thesis by simp
qed

lemma sum_month_lengths: "sum_list (month_lengths y) = 365 + (if is_leap y then 1 else 0)"
  by (simp add: month_lengths_def)

lemma year_of_bounds: "days_before_year (year_of n) \<le> n \<and> n < days_before_year (year_of n + 1)"
proof -
  define q r where "q = n * 400 div 146097" and "r = n * 400 mod 146097"
  define y where "y = q + 1"
  have a: "146097 * (y - 1) \<le> n * 400" "n * 400 < 146097 * y"
  proof -
    have "n * 400 = 146097 * q + r" "0 \<le> r" "r < 146097" by (simp_all add: q_def r_def)
    then show "146097 * (y - 1) \<le> n * 400" "n * 400 < 146097 * y" unfolding y_def by (simp_all add: distrib_left)
  qed
  have b: "4 * (z div 4) \<le> z \<and> z < 4 * (z div 4) + 4" "100 * (z div 100) \<le> z \<and> z < 100 * (z div 100) + 100"
    "400 * (z div 400) \<le> z \<and> z < 400 * (z div 400) + 400" for z :: int by presburger+
  have "days_before_year (y - 1) \<le> n" using a b [of "y - 2"] unfolding days_before_year_def by simp
  moreover have "n < days_before_year (y + 2)" using a b [of "y + 1"] unfolding days_before_year_def by simp
  ultimately show ?thesis by (auto simp: year_of_def Let_def y_def q_def)
qed

lemma month_of_bounds:
  assumes "0 \<le> d" and "d < sum_list lens" and "month_of lens d = (m, k)"
  shows "1 \<le> m \<and> nat (m - 1) < length lens \<and> 1 \<le> k \<and> k \<le> lens ! nat (m - 1) \<and>
    sum_list (take (nat (m - 1)) lens) + (k - 1) = d"
  using assms
proof (induction lens arbitrary: d m k)
  case (Cons len lens)
  show ?case
  proof (cases "d < len")
    case False
    then obtain m' where m: "month_of lens (d - len) = (m', k)" "m = m' + 1"
      using Cons.prems(3) by (auto split: prod.splits)
    then have "1 \<le> m' \<and> nat (m' - 1) < length lens \<and> 1 \<le> k \<and> k \<le> lens ! nat (m' - 1) \<and>
        sum_list (take (nat (m' - 1)) lens) + (k - 1) = d - len"
      using Cons.IH [of "d - len" m' k] Cons.prems False by simp
    moreover from this have "nat (m - 1) = Suc (nat (m' - 1))" using m(2) by (simp add: Suc_nat_eq_nat_zadd1)
    ultimately show ?thesis using m(2) by simp
  qed (use Cons.prems in auto)
qed simp

theorem civil_day_number: "day_number (civil n) = n"
proof -
  let ?y = "year_of n"
  obtain m k where mk: "month_of (month_lengths ?y) (n - days_before_year ?y) = (m, k)" by fastforce
  have "0 \<le> n - days_before_year ?y" "n - days_before_year ?y < sum_list (month_lengths ?y)"
    using year_of_bounds [of n] days_before_year_Suc [of ?y] by (auto simp: sum_month_lengths)
  from month_of_bounds [OF this mk] show ?thesis by (simp add: civil_def day_number_def mk Let_def)
qed

lemma civil_range:
  assumes "civil n = (y, m, d)"
  shows "1 \<le> m \<and> m \<le> 12 \<and> 1 \<le> d \<and> d \<le> month_lengths y ! nat (m - 1)"
proof -
  have y: "y = year_of n" "month_of (month_lengths y) (n - days_before_year y) = (m, d)"
    using assms by (auto simp: civil_def Let_def)
  have "0 \<le> n - days_before_year y" "n - days_before_year y < sum_list (month_lengths y)"
    using year_of_bounds [of n] days_before_year_Suc [of y] y(1) by (auto simp: sum_month_lengths)
  from month_of_bounds [OF this y(2)] show ?thesis by (auto simp: month_lengths_def)
qed

text \<open>Every term has a unit, so the length of the input is steps enough.\<close>

lemma leading_int_shorter: "leading_int x s = Some (v, r) \<Longrightarrow> length r \<le> length s"
  by (induction x s rule: leading_int.induct) (auto split: if_splits)

lemma leading_fraction_shorter: "leading_fraction x k ov s = (f, k', r) \<Longrightarrow> length r \<le> length s"
  by (induction x k ov s rule: leading_fraction.induct) (auto split: if_splits)

lemma duration_term_shorter:
  assumes "duration_term s = Some (v, r)"
  shows "length r < length s"
proof -
  obtain c t where s: "s = c # t" "\<not> unit_char c"
    using assms by (auto simp: duration_term_def split: list.splits if_splits)
  obtain x s1 where i: "leading_int 0 s = Some (x, s1)"
    using assms s by (auto simp: duration_term_def split: option.splits)
  obtain f k s2 where f: "(if HasPrefix s1 ''.'' then leading_fraction 0 0 False (tl s1) else (0, 0, s1)) = (f, k, s2)"
    by (metis surj_pair)
  have u: "takeWhile unit_char s2 \<noteq> []" "r = dropWhile unit_char s2"
    using assms s i f by (auto simp: duration_term_def Let_def split: if_splits option.splits)
  have "length s2 \<le> length s1"
    using f leading_fraction_shorter [of 0 0 False "tl s1" f k s2] by (auto split: if_splits)
  moreover have "length s2 = length (takeWhile unit_char s2) + length r"
    using u(2) by (metis length_append takeWhile_dropWhile_id)
  ultimately show ?thesis using leading_int_shorter [OF i] u(1) by (cases "takeWhile unit_char s2") auto
qed

lemma duration_terms_enough:
  "length s \<le> n \<Longrightarrow> length s \<le> m \<Longrightarrow> duration_terms n d s = duration_terms m d s"
proof (induction n arbitrary: m d s)
  case 0
  then show ?case by (cases m) simp_all
next
  case (Suc n)
  show ?case
  proof (cases "s = []")
    case False
    then obtain m' where m: "m = Suc m'" using Suc.prems(2) by (cases m) simp_all
    have "duration_terms n e r = duration_terms m' e r" if "duration_term s = Some (v, r)" for v r e
      using duration_term_shorter [OF that] Suc.prems m by (intro Suc.IH) simp_all
    then show ?thesis by (auto simp: m Let_def split: option.split)
  qed (cases m; simp)
qed

text \<open>The default of the configuration.\<close>

lemma ParseDuration_30m: "ParseDuration ''30m'' = Inr (30 * time_Minute)"
  by code_simp

end
