(* ===== verification/World.thy ===== *)
theory World
  imports Interference Event_Hub Go_Time
begin

text \<open>
  The state a RestoreGuard process works on and the calls that leave the process. The world
  holds the database, the host's files, the object bucket, the Docker commands issued so far with their answers,
  the worker pool's queue and running set, and the event hub. What the world answers is a
  parameter, the environment: for the n-th external call it says whether the call is performed,
  refused, or performed with its answer lost (a connection that breaks after the server has
  acted), what the clocks read, and which operations of other requests and workers happened
  just before. Every theorem over all environments holds for every pattern of failures and
  every interleaving at statement granularity.
\<close>

datatype fate = Performed | Refused go_error | Lost go_error

text \<open>
  Beside the answers to the calls the environment fixes the functions the program does not
  define itself: the SHA-256 digest, the case folding of runes outside ASCII, the Unicode classes of letters and numbers, PostgreSQL's
  rounding of timestamps, the reading of a UUID into its canonical form, its \<open>lower\<close> and its \<open>ILIKE\<close>, the order in which a statement of a given moment
  returns rows that its \<open>ORDER BY\<close> leaves equal, the UUID parser, the Argon2id key derivation (password, salt, rounds, memory, threads and key length;
  no key when it panics), the text forms of instants in the local time zone, the JSON form of what the database driver makes of \<open>uuid\<close> and \<open>jsonb\<close>
  columns, and the directory of temporary files.
\<close>

record env =
  fate_at :: "nat \<Rightarrow> fate"
  ctx_at :: "nat \<Rightarrow> go_error option"
  clock_at :: "nat \<Rightarrow> instant"
  uuid_at :: "nat \<Rightarrow> string"
  rand_at :: "nat \<Rightarrow> bytes"
  temp_at :: "nat \<Rightarrow> string"
  cut_at :: "nat \<Rightarrow> nat"
  runner_at :: "nat \<Rightarrow> string \<times> go_error option"
  ready_done_at :: "nat \<Rightarrow> bool"
  root_done_at :: "nat \<Rightarrow> bool"
  others_at :: "nat \<Rightarrow> other list"
  sha256 :: "bytes \<Rightarrow> bytes"
  rune_fold :: "nat \<Rightarrow> nat"
  temp_dir :: string
  pg_time :: "instant \<Rightarrow> instant"
  pg_uuid :: "string \<Rightarrow> string option"
  pg_lower :: "string \<Rightarrow> string"
  pg_ilike :: "string \<Rightarrow> string \<Rightarrow> bool"
  pg_jsonb :: "string \<Rightarrow> bool"
  pg_ties :: "instant \<Rightarrow> string \<Rightarrow> nat"
  uuid_Parse :: "string \<Rightarrow> string option"
  argon2_IDKey :: "bytes \<Rightarrow> bytes \<Rightarrow> nat \<Rightarrow> nat \<Rightarrow> nat \<Rightarrow> nat \<Rightarrow> bytes option"
  json_time :: "instant \<Rightarrow> string"
  parse_time :: "string \<Rightarrow> instant option"
  letter_number :: "nat \<Rightarrow> bool"
  pgx_uuid :: "string \<Rightarrow> json"
  pgx_jsonb :: "string \<Rightarrow> json"

text \<open>A Docker command as it was issued, with its output and its error.\<close>

type_synonym docker_call = "string list \<times> string \<times> go_error option"

record world =
  w_step :: nat
  w_db :: tables
  w_files :: "string \<rightharpoonup> bytes"
  w_bucket :: "string \<rightharpoonup> bytes \<times> string"
  w_docker :: "docker_call list"
  w_jobs :: "string list"
  w_running :: "string list"
  w_cancelled :: "string list"
  w_hub :: EventHub
  w_crashed :: bool

type_synonym 'a program = "(world, 'a) state"


section \<open>External calls\<close>

definition tick :: "nat program" where
  "tick = State (\<lambda>w. (w_step w, w\<lparr>w_step := Suc (w_step w)\<rparr>))"

definition upd :: "(world \<Rightarrow> world) \<Rightarrow> unit program" where
  "upd f = State (\<lambda>w. ((), f w))"

text \<open>A call without an effect of its own that can fail, such as \<open>Begin\<close> or \<open>Close\<close>.\<close>

definition call :: "env \<Rightarrow> go_error option program" where
  "call e = do {
     n \<leftarrow> tick;
     State_Monad.return (case fate_at e n of Performed \<Rightarrow> None | Refused er \<Rightarrow> Some er | Lost er \<Rightarrow> Some er)
   }"

definition clock_Now :: "env \<Rightarrow> instant program" where
  "clock_Now e = do { n \<leftarrow> tick; State_Monad.return (clock_at e n) }"

definition uuid_NewString :: "env \<Rightarrow> string program" where
  "uuid_NewString e = do { n \<leftarrow> tick; State_Monad.return (uuid_at e n) }"

definition do_other :: "env \<Rightarrow> instant \<Rightarrow> other \<Rightarrow> world \<Rightarrow> world" where
  "do_other e now op w =
     (case op of
        OtherCtxCancel did \<Rightarrow>
          if did \<in> set (w_running w) then w\<lparr>w_cancelled := did # w_cancelled w\<rparr> else w
      | _ \<Rightarrow> w\<lparr>w_db := apply_other now op (w_db w)\<rparr>)"

text \<open>\<open>rand.Read\<close> into a buffer of a given length: it fills the buffer or fails.\<close>

definition fill :: "nat \<Rightarrow> bytes \<Rightarrow> bytes" where
  "fill n bs = take n (bs @ replicate n (CHR 0x00))"

definition rand_Read :: "env \<Rightarrow> nat \<Rightarrow> bytes result program" where
  "rand_Read e len = do {
     n \<leftarrow> tick;
     State_Monad.return (case fate_at e n of
         Performed \<Rightarrow> Inr (fill len (rand_at e n)) | Refused er \<Rightarrow> Inl er | Lost er \<Rightarrow> Inl er)
   }"

text \<open>The other actors' operations up to now; \<open>mine\<close> is the drill whose worker is running.\<close>

definition interleave :: "env \<Rightarrow> string option \<Rightarrow> unit program" where
  "interleave e mine = upd (\<lambda>w.
     fold (do_other e (clock_at e (w_step w)))
       (filter (other_allowed mine) (others_at e (w_step w))) w)"

text \<open>An SQL statement outside a transaction; its \<open>now()\<close> is the server's clock.\<close>

definition db_exec :: "env \<Rightarrow> string option \<Rightarrow> (instant \<Rightarrow> tables \<Rightarrow> tables \<times> 'a result) \<Rightarrow> 'a result program" where
  "db_exec e mine f = do {
     interleave e mine;
     n \<leftarrow> tick;
     State (\<lambda>w.
       let (t, r) = f (clock_at e n) (w_db w) in
       case fate_at e n of
         Performed \<Rightarrow> (r, w\<lparr>w_db := t\<rparr>)
       | Refused er \<Rightarrow> (Inl er, w)
       | Lost er \<Rightarrow> (Inl er, w\<lparr>w_db := t\<rparr>))
   }"

text \<open>\<open>ctx.Err()\<close> of the context of a running drill: cancelled through the pool, or done by
  the drill timeout or the shutdown of the pool.\<close>

definition ctx_Err :: "env \<Rightarrow> string \<Rightarrow> go_error option program" where
  "ctx_Err e did = State (\<lambda>w.
     (if did \<in> set (w_cancelled w) then Some Canceled else ctx_at e (w_step w), w))"

definition publish :: "env \<Rightarrow> Event \<Rightarrow> unit program" where
  "publish e event = upd (\<lambda>w.
     case Publish marshal_event event (w_hub w) of
       None \<Rightarrow> w\<lparr>w_crashed := True\<rparr>
     | Some h \<Rightarrow> w\<lparr>w_hub := h\<rparr>)"

text \<open>\<open>CommandRunner.Run\<close> with the command \<open>docker\<close>: the command is issued, the output and the
  error are the runner's.\<close>

definition docker :: "env \<Rightarrow> string list \<Rightarrow> (string \<times> go_error option) program" where
  "docker e args = do {
     n \<leftarrow> tick;
     upd (\<lambda>w. w\<lparr>w_docker := w_docker w @ [(args, runner_at e n)]\<rparr>);
     State_Monad.return (runner_at e n)
   }"


section \<open>Rules\<close>

lemma length_fill [simp]: "length (fill n bs) = n"
  by (simp add: fill_def)

lemma keeps_rand_Read: "(\<And>w n. I w \<Longrightarrow> I (w\<lparr>w_step := n\<rparr>)) \<Longrightarrow> keeps I (rand_Read e len)"
  by (simp add: keeps_def hoare_def rand_Read_def tick_def)

lemma run_tick [simp]: "run_state tick w = (w_step w, w\<lparr>w_step := Suc (w_step w)\<rparr>)"
  by (simp add: tick_def)

lemma run_upd [simp]: "run_state (upd f) w = ((), f w)"
  by (simp add: upd_def)

lemma run_ctx_Err [simp]:
  "run_state (ctx_Err e did) w =
     (if did \<in> set (w_cancelled w) then Some Canceled else ctx_at e (w_step w), w)"
  by (simp add: ctx_Err_def)

text \<open>
  A world predicate that ignores the call counter is kept by the calls without an effect; the
  rules for the others reduce to the part of the world they write.
\<close>

definition step_free :: "(world \<Rightarrow> bool) \<Rightarrow> bool" where
  "step_free I = (\<forall>w n. I (w\<lparr>w_step := n\<rparr>) = I w)"

lemma keeps_upd: "(\<And>w. I w \<Longrightarrow> I (f w)) \<Longrightarrow> keeps I (upd f)"
  by (simp add: keeps_def hoare_def)

lemma keeps_tick: "step_free I \<Longrightarrow> keeps I tick"
  by (simp add: keeps_def hoare_def step_free_def)

lemma keeps_ctx_Err [keeps_intros]: "keeps I (ctx_Err e did)"
  by (simp add: keeps_def hoare_def)

lemma keeps_call: "step_free I \<Longrightarrow> keeps I (call e)"
  unfolding call_def by (intro keeps_intros keeps_tick)

lemma keeps_clock_Now: "step_free I \<Longrightarrow> keeps I (clock_Now e)"
  unfolding clock_Now_def by (intro keeps_intros keeps_tick)

lemma keeps_uuid: "step_free I \<Longrightarrow> keeps I (uuid_NewString e)"
  unfolding uuid_NewString_def by (intro keeps_intros keeps_tick)

text \<open>Predicates of the database.\<close>

definition on_db :: "(tables \<Rightarrow> bool) \<Rightarrow> world \<Rightarrow> bool" where
  "on_db J w = J (w_db w)"

lemma on_db_step_free [simp]: "step_free (on_db J)"
  by (simp add: step_free_def on_db_def)

definition stable :: "string option \<Rightarrow> (tables \<Rightarrow> bool) \<Rightarrow> bool" where
  "stable mine J = (\<forall>now op t. other_allowed mine op \<longrightarrow> J t \<longrightarrow> J (apply_other now op t))"

lemma do_other_db:
  "w_db (do_other e now op w) = apply_other now op (w_db w)"
  by (cases op) (simp_all add: do_other_def apply_other_def)

lemma on_db_others:
  assumes "stable mine J" and "J (w_db w)" and "list_all (other_allowed mine) ops"
  shows "J (w_db (fold (do_other e now) ops w))"
  using assms(2,3)
proof (induction ops arbitrary: w)
  case (Cons op ops)
  then have "J (w_db (do_other e now op w))"
    using assms(1) by (simp add: stable_def do_other_db)
  with Cons show ?case by simp
qed simp

lemma keeps_interleave: "stable mine J \<Longrightarrow> keeps (on_db J) (interleave e mine)"
  unfolding interleave_def
  by (rule keeps_upd) (auto simp: on_db_def list_all_iff intro: on_db_others)

lemma hoare_db_exec:
  assumes "stable mine J"
    and "\<And>now t. J t \<Longrightarrow> J (fst (f now t)) \<and> (\<forall>r. snd (f now t) = Inr r \<longrightarrow> Q r (fst (f now t)))"
  shows "hoare (on_db J) (db_exec e mine f)
    (\<lambda>r w. J (w_db w) \<and> (\<forall>x. r = Inr x \<longrightarrow> Q x (w_db w)))"
  unfolding db_exec_def
proof (rule hoare_bind)
  show "hoare (on_db J) (interleave e mine) (\<lambda>_. on_db J)"
    using keeps_interleave [OF assms(1)] by (simp add: keeps_def)
  fix u
  show "hoare (on_db J) (tick \<bind> (\<lambda>n. State (\<lambda>w.
       let (t, r) = f (clock_at e n) (w_db w) in
       case fate_at e n of
         Performed \<Rightarrow> (r, w\<lparr>w_db := t\<rparr>)
       | Refused er \<Rightarrow> (Inl er, w)
       | Lost er \<Rightarrow> (Inl er, w\<lparr>w_db := t\<rparr>)))) (\<lambda>r w. J (w_db w) \<and> (\<forall>x. r = Inr x \<longrightarrow> Q x (w_db w)))"
    using assms(2) by (auto simp: hoare_def on_db_def split: prod.splits fate.splits) (metis fst_conv snd_conv)+
qed

lemma keeps_db_exec:
  assumes "stable mine J" and "\<And>now t. J t \<Longrightarrow> J (fst (f now t))"
  shows "keeps (on_db J) (db_exec e mine f)"
  unfolding keeps_def
  by (rule hoare_post [OF hoare_db_exec [where J = J and Q = "\<lambda>_ _. True"]])
    (use assms in \<open>auto simp: on_db_def\<close>)

lemma keeps_publish_db [keeps_intros]: "keeps (on_db J) (publish e ev)"
  unfolding publish_def by (rule keeps_upd) (simp add: on_db_def split: option.splits)

lemma keeps_docker_db [keeps_intros]: "keeps (on_db J) (docker e args)"
  unfolding docker_def
  by (intro keeps_intros keeps_tick keeps_upd) (simp_all add: on_db_def)

lemmas keeps_calls_db [keeps_intros] =
  keeps_tick [OF on_db_step_free] keeps_call [OF on_db_step_free]
  keeps_clock_Now [OF on_db_step_free] keeps_uuid [OF on_db_step_free]

lemma stable_evolve: "stable mine (tables_evolve t0)"
  unfolding stable_def using apply_other_evolves tables_evolve_trans by blast



section \<open>A calm environment\<close>

text \<open>For examples: every call is performed, no other request or worker interferes, and the
  container logs its start-up message at once.\<close>

definition no_rows :: tables where
  "no_rows = \<lparr>organizations = [], users = [], sessions = [], roles = [], user_roles = [],
     protected_assets = [], backup_sources = [], asset_backup_sources = [], backup_snapshots = [],
     recovery_policies = [], recovery_drills = [], drill_steps = [], recovery_sandboxes = [],
     evidence_artifacts = [], evidence_rows = [], recovery_reports = [], audit_events = [],
     scheduler_jobs = []\<rparr>"

definition calm :: env where
  "calm = \<lparr>fate_at = \<lambda>_. Performed, ctx_at = \<lambda>_. None, clock_at = \<lambda>n. 1000000 * time_Second + int n,
     uuid_at = \<lambda>n. ''0123456789ab'', rand_at = \<lambda>_. ''r'', temp_at = \<lambda>_. ''1'', cut_at = \<lambda>_. 0,
     runner_at = \<lambda>_. (''PostgreSQL init process complete; ready for start up.'', None),
     ready_done_at = \<lambda>_. False, root_done_at = \<lambda>_. False, others_at = \<lambda>_. [], sha256 = \<lambda>b. take 1 b,
     rune_fold = \<lambda>r. r, temp_dir = ''/tmp'', pg_time = \<lambda>t. t, pg_uuid = Some,
     pg_lower = \<lambda>s. s, pg_ilike = \<lambda>s p. True, pg_jsonb = \<lambda>_. True, pg_ties = \<lambda>_ _. 0, uuid_Parse = Some,
     argon2_IDKey = \<lambda>pw salt rounds memory threads len.
       if rounds < 1 \<or> threads < 1 then None else Some (take len (pw @ replicate len (CHR 0x00))),
     json_time = \<lambda>_. ''2026-01-01T00:00:00Z'', parse_time = \<lambda>_. None,
     letter_number = \<lambda>r. r \<ge> 65, pgx_uuid = JStr, pgx_jsonb = JStr\<rparr>"

definition idle :: world where
  "idle = \<lparr>w_step = 0, w_db = no_rows, w_files = Map.empty, w_bucket = Map.empty, w_docker = [],
     w_jobs = [], w_running = [], w_cancelled = [], w_hub = NewEventHub, w_crashed = False\<rparr>"

lemma calm_simps [simp]:
  "fate_at calm n = Performed" "ctx_at calm n = None" "clock_at calm n = 1000000 * time_Second + int n"
  "uuid_at calm n = ''0123456789ab''" "temp_at calm n = ''1''" "cut_at calm n = 0"
  "runner_at calm n = (''PostgreSQL init process complete; ready for start up.'', None)"
  "ready_done_at calm n = False" "others_at calm n = []" "sha256 calm b = take 1 b"
  "\<not> root_done_at calm n" "rune_fold calm r = r" "temp_dir calm = ''/tmp''"
  "pg_uuid calm s = Some s" "rand_at calm n = ''r''" "pg_time calm x = x"
  "pg_lower calm s = s" "pg_ilike calm s s'" "pg_jsonb calm s" "pg_ties calm now s = 0" "uuid_Parse calm s = Some s"
  "argon2_IDKey calm pw salt rounds memory threads len =
     (if rounds < 1 \<or> threads < 1 then None else Some (take len (pw @ replicate len (CHR 0x00))))"
  "json_time calm x = ''2026-01-01T00:00:00Z''" "parse_time calm s = None" "letter_number calm r \<longleftrightarrow> r \<ge> 65"
  "pgx_uuid calm s = JStr s" "pgx_jsonb calm s = JStr s"
  by (simp_all add: calm_def)

lemma idle_simps [simp]:
  "w_step idle = 0" "w_db idle = no_rows" "w_files idle = Map.empty" "w_bucket idle = Map.empty"
  "w_docker idle = []" "w_jobs idle = []" "w_running idle = []" "w_cancelled idle = []"
  "w_hub idle = NewEventHub" "\<not> w_crashed idle"
  by (simp_all add: idle_def)

end
