(* ===== verification/Filepath.thy ===== *)
theory Filepath
  imports RG_Prelude
begin

text \<open>
  Package \<open>path/filepath\<close> on Unix, as far as the storage and provider code uses it:
  \<open>Clean\<close>, \<open>Join\<close>, \<open>Rel\<close>, \<open>Dir\<close> and \<open>Abs\<close>, on path components. The lemmas compute the path an
  identifier without \<open>..\<close> resolves to below a clean absolute root.
\<close>

fun clean_comps :: "bool \<Rightarrow> string list \<Rightarrow> string list \<Rightarrow> string list" where
  "clean_comps rooted st [] = rev st"
| "clean_comps rooted st (c # cs) =
     (if c = [] \<or> c = ''.'' then clean_comps rooted st cs
      else if c = ''..'' then
        (case st of
           [] \<Rightarrow> clean_comps rooted (if rooted then [] else [''..'']) cs
         | s # st' \<Rightarrow> if s = ''..'' then clean_comps rooted (''..'' # st) cs
                     else clean_comps rooted st' cs)
      else clean_comps rooted (c # st) cs)"

definition path_comps :: "string \<Rightarrow> string list" where
  "path_comps p = clean_comps (HasPrefix p ''/'') [] (strings_Split (CHR ''/'') p)"

definition Clean :: "string \<Rightarrow> string" where
  "Clean p =
     (if p = [] then ''.''
      else if HasPrefix p ''/'' then ''/'' @ strings_Join (path_comps p) ''/''
      else if path_comps p = [] then ''.''
      else strings_Join (path_comps p) ''/'')"

fun filepath_Join :: "string list \<Rightarrow> string" where
  "filepath_Join [] = []"
| "filepath_Join (e # es) = (if e = [] then filepath_Join es else Clean (strings_Join (e # es) ''/''))"

fun strip_common :: "'a list \<Rightarrow> 'a list \<Rightarrow> 'a list \<times> 'a list" where
  "strip_common (x # xs) (y # ys) = (if x = y then strip_common xs ys else (x # xs, y # ys))"
| "strip_common xs ys = (xs, ys)"

definition Rel :: "string \<Rightarrow> string \<Rightarrow> string result" where
  "Rel basepath targpath =
     (let base = Clean basepath; targ = Clean targpath in
      if targ = base then Inr ''.''
      else if HasPrefix base ''/'' \<noteq> HasPrefix targ ''/''
      then Inl (Errorf (''Rel: can't make '' @ targpath @ '' relative to '' @ basepath))
      else let (b, t) = strip_common (path_comps base) (path_comps targ) in
        if b \<noteq> [] \<and> hd b = ''..''
        then Inl (Errorf (''Rel: can't make '' @ targpath @ '' relative to '' @ basepath))
        else Inr (strings_Join (replicate (length b) ''..'' @ t) ''/''))"

text \<open>\<open>Abs\<close> over the process's working directory; \<open>Dir\<close> is everything before the last slash.\<close>

definition filepath_Abs :: "string \<Rightarrow> string \<Rightarrow> string" where
  "filepath_Abs cwd p = (if HasPrefix p ''/'' then Clean p else filepath_Join [cwd, p])"

definition Dir :: "string \<Rightarrow> string" where
  "Dir p = Clean (rev (dropWhile (\<lambda>c. c \<noteq> CHR ''/'') (rev p)))"


section \<open>Lemmas\<close>

text \<open>A normal component is one \<open>Clean\<close> keeps; an absolute clean path is a slash and its
  normal components joined by slashes.\<close>

definition normal_comp :: "string \<Rightarrow> bool" where
  "normal_comp c = (c \<noteq> [] \<and> c \<noteq> ''.'' \<and> c \<noteq> ''..'' \<and> CHR ''/'' \<notin> set c)"

definition abs_path :: "string list \<Rightarrow> string" where
  "abs_path cs = ''/'' @ strings_Join cs ''/''"

definition abs_clean :: "string \<Rightarrow> bool" where
  "abs_clean p = (p = abs_path (path_comps p) \<and> list_all normal_comp (path_comps p))"

lemma Join_ne: "cs \<noteq> [] \<Longrightarrow> list_all normal_comp cs \<Longrightarrow> strings_Join cs ''/'' \<noteq> []"
  by (cases cs; cases "tl cs") (auto simp: normal_comp_def)

lemma Split_Join_normal:
  "cs \<noteq> [] \<Longrightarrow> list_all normal_comp cs \<Longrightarrow> strings_Split (CHR ''/'') (strings_Join cs ''/'') = cs"
proof (induction cs)
  case (Cons c cs)
  then show ?case
    by (cases cs) (auto simp: strings_Split_append strings_Split_single normal_comp_def)
qed simp

lemma clean_comps_normal:
  "list_all normal_comp cs \<Longrightarrow> clean_comps rooted st (cs @ ds) = clean_comps rooted (rev cs @ st) ds"
  by (induction cs arbitrary: st) (auto simp: normal_comp_def)

lemma clean_comps_no_dots:
  "''..'' \<notin> set cs \<Longrightarrow>
   clean_comps rooted st cs = rev st @ filter (\<lambda>c. c \<noteq> [] \<and> c \<noteq> ''.'') cs"
  by (induction cs arbitrary: st) auto

lemma path_comps_abs: "list_all normal_comp cs \<Longrightarrow> path_comps (abs_path cs) = cs"
proof (cases "cs = []")
  case False
  assume n: "list_all normal_comp cs"
  have "strings_Split (CHR ''/'') (''/'' @ strings_Join cs ''/'') = [] # cs"
    using Split_Join_normal [OF False n] by simp
  then show ?thesis
    using clean_comps_normal [OF n, of True "[]" "[]"]
    by (simp add: path_comps_def abs_path_def HasPrefix_def)
qed (simp add: path_comps_def abs_path_def HasPrefix_def)

lemma Clean_abs: "list_all normal_comp cs \<Longrightarrow> Clean (abs_path cs) = abs_path cs"
  using path_comps_abs [of cs] by (simp add: Clean_def abs_path_def HasPrefix_def)

lemma abs_cleanE:
  assumes "abs_clean p"
  obtains cs where "p = abs_path cs" "list_all normal_comp cs" "path_comps p = cs"
  using assms by (auto simp: abs_clean_def)

lemma abs_clean_abs_path: "list_all normal_comp cs \<Longrightarrow> abs_clean (abs_path cs)"
  by (simp add: abs_clean_def path_comps_abs)

lemma strip_common_append [simp]: "strip_common xs (xs @ ys) = ([], ys)"
  by (induction xs) (cases ys; simp)+

lemma abs_path_inject:
  "list_all normal_comp cs \<Longrightarrow> list_all normal_comp ds \<Longrightarrow> abs_path cs = abs_path ds \<longleftrightarrow> cs = ds"
  by (metis path_comps_abs)

lemma Split_Join_more:
  "cs \<noteq> [] \<Longrightarrow> list_all normal_comp cs \<Longrightarrow>
   strings_Split (CHR ''/'') (strings_Join cs ''/'' @ ''/'' @ key) = cs @ strings_Split (CHR ''/'') key"
proof (induction cs)
  case (Cons c cs)
  then show ?case
    by (cases cs) (simp_all add: strings_Split_append normal_comp_def)
qed simp

text \<open>Joining an absolute clean root with a relative path that has no \<open>..\<close> component.\<close>

lemma Join_below_root:
  assumes root: "list_all normal_comp rs"
    and key: "key \<noteq> []" "''..'' \<notin> set (strings_Split (CHR ''/'') key)"
  shows "filepath_Join [abs_path rs, key] =
    abs_path (rs @ filter (\<lambda>c. c \<noteq> [] \<and> c \<noteq> ''.'') (strings_Split (CHR ''/'') key))"
proof -
  let ?ks = "strings_Split (CHR ''/'') key"
  have split: "strings_Split (CHR ''/'') (strings_Join rs ''/'' @ ''/'' @ key) =
    (if rs = [] then [] # ?ks else rs @ ?ks)"
    using Split_Join_more [OF _ root] by simp
  have "strings_Split (CHR ''/'') (''/'' @ strings_Join rs ''/'' @ ''/'' @ key) =
      [] # (if rs = [] then [] # ?ks else rs @ ?ks)"
    using split by simp
  moreover have "clean_comps True [] (if rs = [] then [] # ?ks else rs @ ?ks) =
      rs @ filter (\<lambda>c. c \<noteq> [] \<and> c \<noteq> ''.'') ?ks"
    using clean_comps_normal [OF root, of True "[]" ?ks] clean_comps_no_dots [OF key(2)] by simp
  ultimately show ?thesis
    by (simp add: Clean_def path_comps_def HasPrefix_def abs_path_def)
qed

lemma Split_comps_normal:
  "''..'' \<notin> set (strings_Split (CHR ''/'') key) \<Longrightarrow>
   list_all normal_comp (filter (\<lambda>c. c \<noteq> [] \<and> c \<noteq> ''.'') (strings_Split (CHR ''/'') key))"
  by (auto simp: list_all_iff normal_comp_def dest: strings_Split_no_sep)

lemma Rel_below:
  assumes "list_all normal_comp rs" and "list_all normal_comp ks"
  shows "Rel (abs_path rs) (abs_path (rs @ ks)) = Inr (if ks = [] then ''.'' else strings_Join ks ''/'')"
proof -
  have n: "list_all normal_comp (rs @ ks)" using assms by simp
  have "abs_path (rs @ ks) = abs_path rs \<longleftrightarrow> ks = []"
    using abs_path_inject [OF n assms(1)] by simp
  then show ?thesis
    using assms n by (simp add: Rel_def Let_def Clean_abs path_comps_abs) (simp add: abs_path_def HasPrefix_def)
qed

lemma Split_sublist: "p \<in> set (strings_Split sep s) \<Longrightarrow> sublist p s"
proof (induction s arbitrary: p)
  case (Cons c s)
  have hd: "prefix (hd (strings_Split sep s)) s"
  proof (induction s)
    case (Cons d s)
    then show ?case by (cases "strings_Split sep s") auto
  qed simp
  show ?case
    using Cons hd by (cases "strings_Split sep s")
      (auto simp: sublist_Cons_right split: if_splits)
qed simp

lemma no_dotdot_split: "\<not> Contains s ''..'' \<Longrightarrow> ''..'' \<notin> set (strings_Split sep s)"
  using Split_sublist by (auto simp: Contains_sublist)

end
