(* ===== verification/Object_Storage.thy ===== *)
theory Object_Storage
  imports World Filepath
begin

text \<open>
  Package \<open>storage\<close>: the object storage interface (\<open>object.go\<close>), the local filesystem adapter
  (\<open>local.go\<close>) and the S3 adapter (\<open>s3.go\<close>). The world's file map holds the regular files by
  their path; directories are not modelled, a call that needs one can fail. The MinIO client
  is third-party code: a record of functions on the bucket, a field of the S3 adapter as in
  the source.
\<close>

section \<open>Operating system calls\<close>

definition join_path :: "string \<Rightarrow> string \<Rightarrow> string" where
  "join_path dir name = (if dir \<noteq> [] \<and> last dir = CHR ''/'' then dir @ name else dir @ ''/'' @ name)"

text \<open>A failing operating system call has no effect. Its error is never \<open>ErrNotExist\<close>: the calls
  below report a missing file themselves.\<close>

definition fate_err :: "fate \<Rightarrow> go_error option" where
  "fate_err f =
     (case f of
        Performed \<Rightarrow> None
      | Refused er \<Rightarrow> Some (External (error_string er))
      | Lost er \<Rightarrow> Some (External (error_string er)))"

text \<open>\<open>os.CreateTemp\<close> creates a new, empty file: a name in use is never handed out.\<close>

definition os_CreateTemp :: "env \<Rightarrow> string \<Rightarrow> string \<Rightarrow> string \<Rightarrow> string result program" where
  "os_CreateTemp e dir pre suf = do {
     n \<leftarrow> tick;
     State (\<lambda>w.
       let name = join_path dir (pre @ temp_at e n @ suf) in
       case fate_err (fate_at e n) of
         Some er \<Rightarrow> (Inl er, w)
       | None \<Rightarrow> if name \<in> dom (w_files w) \<or> CHR ''/'' \<in> set (temp_at e n)
                 then (Inl (External ''createtemp''), w)
                 else (Inr name, w\<lparr>w_files := (w_files w)(name \<mapsto> [])\<rparr>))
   }"

text \<open>\<open>io.Copy\<close> into an open file. A failing write leaves what was written before it.\<close>

definition copy_to_file :: "env \<Rightarrow> string \<Rightarrow> reader \<Rightarrow> (bytes \<times> int64 \<times> go_error option) program" where
  "copy_to_file e name r = do {
     n \<leftarrow> tick;
     let (data, written, rerr) = io_Copy r;
     case fate_err (fate_at e n) of
       None \<Rightarrow> do {
         upd (\<lambda>w. w\<lparr>w_files := (w_files w)(name \<mapsto> data)\<rparr>);
         State_Monad.return (data, written, rerr)
       }
     | Some er \<Rightarrow> do {
         let part = take (cut_at e n) data;
         upd (\<lambda>w. w\<lparr>w_files := (w_files w)(name \<mapsto> part)\<rparr>);
         State_Monad.return (part, int (length part), Some er)
       }
   }"

definition os_Rename :: "env \<Rightarrow> string \<Rightarrow> string \<Rightarrow> go_error option program" where
  "os_Rename e old new = do {
     n \<leftarrow> tick;
     State (\<lambda>w.
       case fate_err (fate_at e n) of
         Some er \<Rightarrow> (Some er, w)
       | None \<Rightarrow>
           (case w_files w old of
              None \<Rightarrow> (Some ErrNotExist, w)
            | Some data \<Rightarrow> (None, w\<lparr>w_files := ((w_files w)(old := None))(new \<mapsto> data)\<rparr>)))
   }"

definition os_Remove :: "env \<Rightarrow> string \<Rightarrow> go_error option program" where
  "os_Remove e name = do {
     n \<leftarrow> tick;
     State (\<lambda>w.
       case fate_err (fate_at e n) of
         Some er \<Rightarrow> (Some er, w)
       | None \<Rightarrow> if w_files w name = None then (Some ErrNotExist, w)
                 else (None, w\<lparr>w_files := (w_files w)(name := None)\<rparr>))
   }"

text \<open>\<open>os.Open\<close> and the reads through the open file, which can fail half-way.\<close>

definition os_Open :: "env \<Rightarrow> string \<Rightarrow> reader result program" where
  "os_Open e name = do {
     n \<leftarrow> tick;
     w \<leftarrow> State_Monad.get;
     case fate_err (fate_at e n) of
       Some er \<Rightarrow> State_Monad.return (Inl er)
     | None \<Rightarrow>
         (case w_files w name of
            None \<Rightarrow> State_Monad.return (Inl ErrNotExist)
          | Some data \<Rightarrow> do {
              m \<leftarrow> tick;
              State_Monad.return (Inr (case fate_err (fate_at e m) of
                None \<Rightarrow> \<lparr>r_data = data, r_err = None\<rparr>
              | Some er \<Rightarrow> \<lparr>r_data = take (cut_at e m) data, r_err = Some er\<rparr>))
            })
   }"

text \<open>\<open>Stat\<close> gives the size of the file.\<close>

definition os_Stat :: "env \<Rightarrow> string \<Rightarrow> int64 result program" where
  "os_Stat e name = do {
     n \<leftarrow> tick;
     w \<leftarrow> State_Monad.get;
     State_Monad.return (case fate_err (fate_at e n) of
       Some er \<Rightarrow> Inl er
     | None \<Rightarrow> (case w_files w name of None \<Rightarrow> Inl ErrNotExist | Some data \<Rightarrow> Inr (int (length data))))
   }"


section \<open>The interface\<close>

definition hex_sha256 :: "env \<Rightarrow> bytes \<Rightarrow> string" where
  "hex_sha256 e data = hex_EncodeToString (sha256 e data)"

text \<open>The regular expression \<open>^[a-zA-Z0-9][a-zA-Z0-9/_.-]{0,499}$\<close>.\<close>

definition key_char :: "char \<Rightarrow> bool" where
  "key_char c = (is_alnum c \<or> c \<in> {CHR ''/'', CHR ''_'', CHR ''.'', CHR ''-''})"

definition safeKey :: "string \<Rightarrow> bool" where
  "safeKey s =
     (case s of [] \<Rightarrow> False | c # cs \<Rightarrow> is_alnum c \<and> length cs \<le> 499 \<and> list_all key_char cs)"


section \<open>The local adapter\<close>

record Local =
  l_root :: string
  l_maxBytes :: int64

definition NewLocal :: "env \<Rightarrow> string \<Rightarrow> string \<Rightarrow> int64 \<Rightarrow> Local result program" where
  "NewLocal e cwd rootDir maxBytes =
     (if maxBytes \<le> 0 then State_Monad.return (Inl (Errorf ''max bytes must be positive''))
      else do {
        let abs = filepath_Abs cwd rootDir;
        m \<leftarrow> call e;
        State_Monad.return (case m of
          Some er \<Rightarrow> Inl er
        | None \<Rightarrow> Inr \<lparr>l_root = abs, l_maxBytes = maxBytes\<rparr>)
      })"

definition local_path :: "Local \<Rightarrow> string \<Rightarrow> string result" where
  "local_path l key =
     (if \<not> safeKey key \<or> Contains key ''..'' \<or> Contains key [CHR 0x5C]
      then Inl (Errorf ''unsafe object key'')
      else
        let candidate = filepath_Join [l_root l, key] in
        case Rel (l_root l) candidate of
          Inl er \<Rightarrow> Inl (Errorf ''object escapes storage root'')
        | Inr rel \<Rightarrow>
            if rel = ''..'' \<or> HasPrefix rel ''../'' then Inl (Errorf ''object escapes storage root'')
            else Inr candidate)"

text \<open>The context the upload runs under, at the time of the copy.\<close>

definition ctx_cut :: "env \<Rightarrow> nat \<Rightarrow> (nat \<times> go_error) option" where
  "ctx_cut e n = map_option (\<lambda>er. (cut_at e n, er)) (ctx_at e n)"

definition put_temp :: "env \<Rightarrow> Local \<Rightarrow> string \<Rightarrow> string \<Rightarrow> string \<Rightarrow> reader \<Rightarrow> int64 \<Rightarrow> string \<Rightarrow> ObjectInfo result program" where
  "put_temp e l path tempName key reader sz contentType = do {
     let limited = io_LimitReader reader (wrap64 (l_maxBytes l + 1));
     n \<leftarrow> tick;
     (data, written, copyErr) \<leftarrow> copy_to_file e tempName (context_reader (ctx_cut e n) limited);
     closeErr \<leftarrow> call e;
     case copyErr of
       Some er \<Rightarrow> State_Monad.return (Inl er)
     | None \<Rightarrow>
         (case closeErr of
            Some er \<Rightarrow> State_Monad.return (Inl er)
          | None \<Rightarrow>
              if written > l_maxBytes l \<or> written \<noteq> sz
              then State_Monad.return (Inl (Errorf ''artifact length mismatch or exceeds limit''))
              else do {
                renameErr \<leftarrow> os_Rename e tempName path;
                State_Monad.return (case renameErr of
                  Some er \<Rightarrow> Inl er
                | None \<Rightarrow> Inr \<lparr>oi_Key = key, oi_Size = written, oi_SHA256 = hex_sha256 e data,
                              oi_ContentType = contentType\<rparr>)
              })
   }"

definition local_Put :: "env \<Rightarrow> Local \<Rightarrow> string \<Rightarrow> reader \<Rightarrow> int64 \<Rightarrow> string \<Rightarrow> ObjectInfo result program" where
  "local_Put e l key reader sz contentType =
     (if sz < 0 \<or> sz > l_maxBytes l
      then State_Monad.return (Inl (Errorf ''artifact size exceeds configured limit''))
      else case local_path l key of
        Inl er \<Rightarrow> State_Monad.return (Inl er)
      | Inr path \<Rightarrow> do {
          mkdirErr \<leftarrow> call e;
          case mkdirErr of
            Some er \<Rightarrow> State_Monad.return (Inl er)
          | None \<Rightarrow> do {
              temp \<leftarrow> os_CreateTemp e (Dir path) ''.upload-'' [];
              case temp of
                Inl er \<Rightarrow> State_Monad.return (Inl er)
              | Inr tempName \<Rightarrow> do {
                  r \<leftarrow> put_temp e l path tempName key reader sz contentType;
                  _ \<leftarrow> os_Remove e tempName;
                  State_Monad.return r
                }
            }
        })"

definition local_Get :: "env \<Rightarrow> Local \<Rightarrow> string \<Rightarrow> (reader \<times> ObjectInfo) result program" where
  "local_Get e l key =
     (case local_path l key of
        Inl er \<Rightarrow> State_Monad.return (Inl er)
      | Inr path \<Rightarrow> do {
          opened \<leftarrow> os_Open e path;
          case opened of
            Inl er \<Rightarrow> State_Monad.return (Inl er)
          | Inr r \<Rightarrow> do {
              stat \<leftarrow> os_Stat e path;
              State_Monad.return (case stat of
                Inl er \<Rightarrow> Inl er
              | Inr n \<Rightarrow> Inr (r, \<lparr>oi_Key = key, oi_Size = n, oi_SHA256 = [], oi_ContentType = []\<rparr>))
            }
        })"

definition local_Delete :: "env \<Rightarrow> Local \<Rightarrow> string \<Rightarrow> go_error option program" where
  "local_Delete e l key =
     (case local_path l key of
        Inl er \<Rightarrow> State_Monad.return (Some er)
      | Inr path \<Rightarrow> do {
          removed \<leftarrow> os_Remove e path;
          State_Monad.return (case removed of
            None \<Rightarrow> None
          | Some er \<Rightarrow> if errors_Is er ErrNotExist then None else Some er)
        })"

definition local_Health :: "env \<Rightarrow> Local \<Rightarrow> go_error option program" where
  "local_Health e l = do {
     file \<leftarrow> os_CreateTemp e (l_root l) ''.health-'' [];
     case file of
       Inl er \<Rightarrow> State_Monad.return (Some (Wrapped ''local storage'' er))
     | Inr name \<Rightarrow> do {
         _ \<leftarrow> call e;
         os_Remove e name
       }
   }"


section \<open>The S3 adapter\<close>

type_synonym bucket = "string \<rightharpoonup> bytes \<times> string"

text \<open>
  The MinIO client: the number of bytes \<open>PutObject\<close> reads from its reader and the size it
  reports, the object's statistics, a reader over it. The first argument numbers the call.
\<close>

record minio_client =
  mc_PutObject :: "nat \<Rightarrow> string \<Rightarrow> string \<Rightarrow> reader \<Rightarrow> int64 \<Rightarrow> string \<Rightarrow> bucket \<Rightarrow> bucket \<times> (nat \<times> int64) result"
  mc_GetObject :: "nat \<Rightarrow> string \<Rightarrow> string \<Rightarrow> bucket \<Rightarrow> reader result"
  mc_Stat :: "nat \<Rightarrow> string \<Rightarrow> string \<Rightarrow> bucket \<Rightarrow> (int64 \<times> string) result"
  mc_RemoveObject :: "nat \<Rightarrow> string \<Rightarrow> string \<Rightarrow> bucket \<Rightarrow> bucket \<times> go_error option"
  mc_BucketExists :: "nat \<Rightarrow> string \<Rightarrow> bool result"
  mc_MakeBucket :: "nat \<Rightarrow> string \<Rightarrow> go_error option"

record S3 =
  s3_client :: minio_client
  s3_bucket :: string
  s3_maxBytes :: int64

record S3Config =
  sc_Endpoint :: string
  sc_AccessKey :: string
  sc_SecretKey :: string
  sc_Bucket :: string
  sc_UseTLS :: bool
  sc_MaxBytes :: int64

definition NewS3 :: "(string \<Rightarrow> string \<Rightarrow> string \<Rightarrow> bool \<Rightarrow> minio_client result) \<Rightarrow> S3Config \<Rightarrow> S3 result" where
  "NewS3 minio_New cfg =
     (if sc_MaxBytes cfg \<le> 0 then Inl (Errorf ''max bytes must be positive'')
      else case minio_New (sc_Endpoint cfg) (sc_AccessKey cfg) (sc_SecretKey cfg) (sc_UseTLS cfg) of
        Inl er \<Rightarrow> Inl er
      | Inr client \<Rightarrow> Inr \<lparr>s3_client = client, s3_bucket = sc_Bucket cfg, s3_maxBytes = sc_MaxBytes cfg\<rparr>)"

definition s3_Put :: "env \<Rightarrow> S3 \<Rightarrow> string \<Rightarrow> reader \<Rightarrow> int64 \<Rightarrow> string \<Rightarrow> ObjectInfo result program" where
  "s3_Put e s key reader sz contentType =
     (if \<not> safeKey key \<or> sz < 0 \<or> sz > s3_maxBytes s
      then State_Monad.return (Inl (Errorf ''unsafe key or artifact size''))
      else do {
        n \<leftarrow> tick;
        State (\<lambda>w.
          let (b, r) = mc_PutObject (s3_client s) n (s3_bucket s) key reader sz contentType (w_bucket w) in
          (case r of
             Inl er \<Rightarrow> Inl er
           | Inr (k, put_size) \<Rightarrow> Inr \<lparr>oi_Key = key, oi_Size = put_size,
                              oi_SHA256 = hex_sha256 e (take k (r_data reader)),
                              oi_ContentType = contentType\<rparr>, w\<lparr>w_bucket := b\<rparr>))
      })"

definition s3_Get :: "S3 \<Rightarrow> string \<Rightarrow> (reader \<times> ObjectInfo) result program" where
  "s3_Get s key =
     (if \<not> safeKey key then State_Monad.return (Inl (Errorf ''unsafe object key''))
      else do {
        n \<leftarrow> tick;
        w \<leftarrow> State_Monad.get;
        case mc_GetObject (s3_client s) n (s3_bucket s) key (w_bucket w) of
          Inl er \<Rightarrow> State_Monad.return (Inl er)
        | Inr obj \<Rightarrow> do {
            m \<leftarrow> tick;
            State_Monad.return (case mc_Stat (s3_client s) m (s3_bucket s) key (w_bucket w) of
              Inl er \<Rightarrow> Inl er
            | Inr (sz, ct) \<Rightarrow> Inr (obj, \<lparr>oi_Key = key, oi_Size = sz, oi_SHA256 = [], oi_ContentType = ct\<rparr>))
          }
      })"

definition s3_Delete :: "S3 \<Rightarrow> string \<Rightarrow> go_error option program" where
  "s3_Delete s key =
     (if \<not> safeKey key then State_Monad.return (Some (Errorf ''unsafe object key''))
      else do {
        n \<leftarrow> tick;
        State (\<lambda>w.
          let (b, r) = mc_RemoveObject (s3_client s) n (s3_bucket s) key (w_bucket w) in
          (r, w\<lparr>w_bucket := b\<rparr>))
      })"

definition s3_Health :: "S3 \<Rightarrow> go_error option program" where
  "s3_Health s = do {
     n \<leftarrow> tick;
     State_Monad.return (case mc_BucketExists (s3_client s) n (s3_bucket s) of
       Inl er \<Rightarrow> Some er | Inr _ \<Rightarrow> None)
   }"

definition s3_EnsureBucket :: "S3 \<Rightarrow> go_error option program" where
  "s3_EnsureBucket s = do {
     n \<leftarrow> tick;
     case mc_BucketExists (s3_client s) n (s3_bucket s) of
       Inl er \<Rightarrow> State_Monad.return (Some er)
     | Inr exists \<Rightarrow>
         if \<not> exists then do { m \<leftarrow> tick; State_Monad.return (mc_MakeBucket (s3_client s) m (s3_bucket s)) }
         else State_Monad.return None
   }"


section \<open>Dynamic dispatch\<close>

text \<open>A value of the interface type \<open>ObjectStorage\<close> is one of the two adapters.\<close>

datatype object_storage = OnLocal Local | OnS3 S3

definition obj_Put :: "env \<Rightarrow> object_storage \<Rightarrow> string \<Rightarrow> reader \<Rightarrow> int64 \<Rightarrow> string \<Rightarrow> ObjectInfo result program" where
  "obj_Put e s = (case s of OnLocal l \<Rightarrow> local_Put e l | OnS3 b \<Rightarrow> s3_Put e b)"

definition obj_Get :: "env \<Rightarrow> object_storage \<Rightarrow> string \<Rightarrow> (reader \<times> ObjectInfo) result program" where
  "obj_Get e s = (case s of OnLocal l \<Rightarrow> local_Get e l | OnS3 b \<Rightarrow> s3_Get b)"

definition obj_Delete :: "env \<Rightarrow> object_storage \<Rightarrow> string \<Rightarrow> go_error option program" where
  "obj_Delete e s = (case s of OnLocal l \<Rightarrow> local_Delete e l | OnS3 b \<Rightarrow> s3_Delete b)"

definition obj_Health :: "env \<Rightarrow> object_storage \<Rightarrow> go_error option program" where
  "obj_Health e s = (case s of OnLocal l \<Rightarrow> local_Health e l | OnS3 b \<Rightarrow> s3_Health b)"


section \<open>The local adapter's paths\<close>

text \<open>\<open>NewLocal\<close> makes the root absolute and clean; a key resolves to the root's components
  followed by the key's own, less empty and single-dot ones.\<close>

definition local_inv :: "Local \<Rightarrow> bool" where
  "local_inv l = (abs_clean (l_root l) \<and> 0 < l_maxBytes l \<and> l_maxBytes l < max_int64)"

definition key_comps :: "string \<Rightarrow> string list" where
  "key_comps key = filter (\<lambda>c. c \<noteq> [] \<and> c \<noteq> ''.'') (strings_Split (CHR ''/'') key)"

lemma clean_comps_normal_result:
  "list_all (\<lambda>c. CHR ''/'' \<notin> set c) cs \<Longrightarrow> list_all normal_comp st \<Longrightarrow>
   list_all normal_comp (clean_comps True st cs)"
proof (induction cs arbitrary: st)
  case (Cons c cs)
  then show ?case by (cases st) (simp_all add: normal_comp_def)
qed (simp add: list_all_iff)

lemma path_comps_rooted: "HasPrefix p ''/'' \<Longrightarrow> list_all normal_comp (path_comps p)"
  using strings_Split_no_sep [of _ "CHR ''/''" p]
  by (simp add: path_comps_def clean_comps_normal_result list_all_iff [of "\<lambda>c. CHR ''/'' \<notin> set c"])

lemma abs_clean_Clean: "HasPrefix p ''/'' \<Longrightarrow> abs_clean (Clean p)"
  using abs_clean_abs_path [OF path_comps_rooted, of p]
  by (auto simp: Clean_def abs_path_def HasPrefix_def)

lemma filepath_Abs_clean: "HasPrefix cwd ''/'' \<Longrightarrow> abs_clean (filepath_Abs cwd p)"
  by (cases cwd) (auto simp: filepath_Abs_def HasPrefix_def intro!: abs_clean_Clean)

lemma NewLocal_inv:
  assumes "HasPrefix cwd ''/''" and "maxBytes < max_int64"
    and "fst (run_state (NewLocal e cwd rootDir maxBytes) w) = Inr l"
  shows "local_inv l"
  using assms filepath_Abs_clean [OF assms(1)]
  by (auto simp: NewLocal_def local_inv_def Let_def split: if_splits prod.splits option.splits)

lemma local_path_Inr:
  assumes "abs_clean (l_root l)" and "local_path l key = Inr path"
  shows "path = abs_path (path_comps (l_root l) @ key_comps key)"
    and "list_all normal_comp (key_comps key)"
proof -
  from assms(1) obtain rs where rs: "l_root l = abs_path rs" "list_all normal_comp rs" "path_comps (l_root l) = rs"
    by (rule abs_cleanE)
  have ok: "key \<noteq> []" "''..'' \<notin> set (strings_Split (CHR ''/'') key)"
    using assms(2) no_dotdot_split
    by (auto simp: local_path_def Let_def safeKey_def split: if_splits)
  show "list_all normal_comp (key_comps key)"
    using Split_comps_normal [OF ok(2)] by (simp add: key_comps_def)
  show "path = abs_path (path_comps (l_root l) @ key_comps key)"
    using assms(2) Join_below_root [OF rs(2) ok] rs
    by (auto simp: local_path_def Let_def key_comps_def split: if_splits sum.splits)
qed

lemma key_comps_ne: "safeKey key \<Longrightarrow> key_comps key \<noteq> []"
proof -
  assume k: "safeKey key"
  then obtain c cs where key: "key = c # cs" and c: "is_alnum c"
    by (auto simp: safeKey_def split: list.splits)
  have nc: "c \<noteq> CHR ''/''" "c \<noteq> CHR ''.''"
    using c by (auto simp: is_alnum_def is_lower_def is_upper_def is_digit_def)
  then show ?thesis
    unfolding key key_comps_def by (cases "strings_Split (CHR ''/'') cs") auto
qed

text \<open>The checks of \<open>path\<close> after the regular expression never reject: a key is accepted
  exactly when it matches and has no two adjacent dots.\<close>

lemma strings_Join_first: "strings_Join (k # ks) sep = k @ (if ks = [] then [] else sep @ strings_Join ks sep)"
  by (cases ks) simp_all

lemma Join_not_dotdot:
  assumes "list_all normal_comp ks" and "ks \<noteq> []"
  shows "strings_Join ks ''/'' \<noteq> ''..'' \<and> \<not> HasPrefix (strings_Join ks ''/'') ''../''"
proof -
  obtain k ks' where ks: "ks = k # ks'" using assms(2) by (cases ks) auto
  have k: "k \<noteq> []" "k \<noteq> ''.''" "k \<noteq> ''..''" "CHR ''/'' \<notin> set k"
    using assms(1) by (auto simp: ks normal_comp_def)
  then show ?thesis
    unfolding ks strings_Join_first
    by (cases k; cases "tl k"; cases "tl (tl k)") (auto simp: HasPrefix_def split: if_splits)
qed

lemma safeKey_no_backslash: "safeKey key \<Longrightarrow> \<not> Contains key [CHR 0x5C]"
proof -
  assume k: "safeKey key"
  have "list_all key_char key"
    using k by (auto simp: safeKey_def key_char_def split: list.splits)
  moreover have "\<not> key_char (CHR 0x5C)"
    by (simp add: key_char_def is_alnum_def is_lower_def is_upper_def is_digit_def)
  ultimately have "CHR 0x5C \<notin> set key" by (auto simp: list_all_iff)
  then show ?thesis by (auto simp: Contains_sublist dest: set_mono_sublist)
qed

lemma local_path_ok_iff:
  assumes "abs_clean (l_root l)"
  shows "is_ok (local_path l key) \<longleftrightarrow> safeKey key \<and> \<not> Contains key ''..''"
proof -
  from assms obtain rs where rs: "l_root l = abs_path rs" "list_all normal_comp rs"
    by (rule abs_cleanE)
  have "\<not> Contains key ''..'' \<Longrightarrow> safeKey key \<Longrightarrow> is_ok (local_path l key)"
  proof -
    assume a: "\<not> Contains key ''..''" and k: "safeKey key"
    have ok: "key \<noteq> []" "''..'' \<notin> set (strings_Split (CHR ''/'') key)"
      using a k no_dotdot_split by (auto simp: safeKey_def)
    have n: "list_all normal_comp (key_comps key)"
      using Split_comps_normal [OF ok(2)] by (simp add: key_comps_def)
    show ?thesis
      using a k safeKey_no_backslash [OF k] Join_below_root [OF rs(2) ok, folded key_comps_def]
        Rel_below [OF rs(2) n] Join_not_dotdot [OF n key_comps_ne [OF k]] key_comps_ne [OF k]
      by (simp add: local_path_def Let_def rs)
  qed
  moreover have "is_ok (local_path l key) \<Longrightarrow> safeKey key \<and> \<not> Contains key ''..''"
    by (rule ccontr) (simp add: local_path_def)
  ultimately show ?thesis by blast
qed


section \<open>The local adapter's operations\<close>

text \<open>Only the files and the bucket change (and the call counter).\<close>

definition storage_only :: "world \<Rightarrow> world \<Rightarrow> bool" where
  "storage_only w0 w =
     (w\<lparr>w_files := w_files w0, w_bucket := w_bucket w0, w_step := w_step w0\<rparr> = w0)"

lemma storage_only_step_free [simp]: "step_free (storage_only w0)"
  by (auto simp: step_free_def storage_only_def)

lemma storage_only_refl [simp]: "storage_only w w"
  by (simp add: storage_only_def)

lemma storage_only_upd: "storage_only w0 w \<Longrightarrow> storage_only w0 (w\<lparr>w_files := f\<rparr>)"
  by (simp add: storage_only_def)

lemmas keeps_calls_storage [keeps_intros] =
  keeps_tick [OF storage_only_step_free] keeps_call [OF storage_only_step_free]
  keeps_clock_Now [OF storage_only_step_free] keeps_uuid [OF storage_only_step_free]

lemma keeps_get [keeps_intros]: "keeps I State_Monad.get"
  by (simp add: keeps_def hoare_def State_Monad.get_def)

lemma keeps_os [keeps_intros]:
  "keeps (storage_only w0) (os_CreateTemp e dir pre suf)"
  "keeps (storage_only w0) (copy_to_file e name r)"
  "keeps (storage_only w0) (os_Rename e old new)"
  "keeps (storage_only w0) (os_Remove e name)"
  "keeps (storage_only w0) (os_Open e name)"
  "keeps (storage_only w0) (os_Stat e name)"
  unfolding os_CreateTemp_def copy_to_file_def os_Rename_def os_Remove_def os_Open_def os_Stat_def
    keeps_def hoare_def storage_only_def State_Monad.get_def
  by (auto simp: Let_def split: option.splits prod.splits)

lemma keeps_local [keeps_intros]:
  "keeps (storage_only w0) (local_Put e l key r n ct)"
  "keeps (storage_only w0) (local_Get e l key)"
  "keeps (storage_only w0) (local_Delete e l key)"
  "keeps (storage_only w0) (local_Health e l)"
  unfolding local_Put_def local_Get_def local_Delete_def local_Health_def put_temp_def Let_def
  by (intro keeps_intros)+

text \<open>What the upload through the temporary file leaves.\<close>

lemma put_temp_spec:
  assumes "run_state (put_temp e l path tn key rd sz ct) w = (r, w')"
    and "tn \<noteq> path" and "0 < l_maxBytes l" and "l_maxBytes l < max_int64"
  shows "(\<forall>p. p \<noteq> tn \<longrightarrow> p \<noteq> path \<longrightarrow> w_files w' p = w_files w p) \<and>
    (case r of
       Inl _ \<Rightarrow> w_files w' path = w_files w path
     | Inr info \<Rightarrow> w_files w' path = Some (r_data rd) \<and> r_err rd = None \<and>
         int (length (r_data rd)) = sz \<and> sz \<le> l_maxBytes l \<and>
         info = \<lparr>oi_Key = key, oi_Size = sz, oi_SHA256 = hex_sha256 e (r_data rd), oi_ContentType = ct\<rparr>)"
proof -
  let ?lim = "io_LimitReader rd (l_maxBytes l + 1)"
  have wrap: "wrap64 (l_maxBytes l + 1) = l_maxBytes l + 1"
    using assms by (intro wrap64_id) (simp add: int64_range_def)
  have short: "\<not> l_maxBytes l < int (length (r_data ?lim)) \<Longrightarrow> ?lim = rd"
    using assms by (intro LimitReader_short) simp_all
  show ?thesis
    using assms(1,2)
    by (auto simp: put_temp_def copy_to_file_def io_Copy_def os_Rename_def call_def Let_def wrap
        split: prod.splits option.splits if_splits sum.splits
        dest!: context_reader_ok short)
qed


text \<open>A key whose last component cannot be a temporary file of the adapter.\<close>

definition proper_key :: "string \<Rightarrow> bool" where
  "proper_key key = (\<not> HasPrefix (last (key_comps key)) ''.upload-'')"

definition stored :: "Local \<Rightarrow> world \<Rightarrow> string \<Rightarrow> bytes option" where
  "stored l w key = (case local_path l key of Inl _ \<Rightarrow> None | Inr path \<Rightarrow> w_files w path)"

lemma Join_snoc:
  "strings_Join (cs @ [c]) sep = (if cs = [] then c else strings_Join cs sep @ sep @ c)"
proof (induction cs)
  case (Cons d cs)
  then show ?case by (cases cs) simp_all
qed simp

text \<open>A path whose name part differs is a different path.\<close>

lemma name_part_unique:
  assumes "a @ CHR ''/'' # x = b @ CHR ''/'' # y" and "CHR ''/'' \<notin> set x" and "CHR ''/'' \<notin> set y"
  shows "x = y"
proof -
  have "takeWhile (\<lambda>c. c \<noteq> CHR ''/'') (rev (a @ CHR ''/'' # x)) = rev x"
    unfolding rev_append rev.simps append.assoc
    by (subst takeWhile_append2) (use assms(2) in auto)
  moreover have "takeWhile (\<lambda>c. c \<noteq> CHR ''/'') (rev (b @ CHR ''/'' # y)) = rev y"
    unfolding rev_append rev.simps append.assoc
    by (subst takeWhile_append2) (use assms(3) in auto)
  ultimately show ?thesis using assms(1) by simp
qed

lemma join_path_name: "CHR ''/'' \<notin> set name \<Longrightarrow> \<exists>a. join_path dir name = a @ CHR ''/'' # name"
  by (auto simp: join_path_def intro: exI [of _ "butlast dir"] append_butlast_last_id [symmetric])
    (metis append_butlast_last_id append_Cons append_Nil append_assoc)

lemma local_path_name:
  assumes "local_inv l" and "local_path l key = Inr path"
  shows "CHR ''/'' \<notin> set (last (key_comps key))" and "\<exists>b. path = b @ CHR ''/'' # last (key_comps key)"
proof -
  have ac: "abs_clean (l_root l)" using assms(1) by (simp add: local_inv_def)
  have k: "safeKey key" using assms(2) by (auto simp: local_path_def split: if_splits)
  let ?ks = "key_comps key"
  have ne: "?ks \<noteq> []" and n: "list_all normal_comp ?ks"
    using key_comps_ne [OF k] local_path_Inr [OF ac assms(2)] by simp_all
  show "CHR ''/'' \<notin> set (last ?ks)"
    using n ne by (auto simp: list_all_iff normal_comp_def)
  have "path = abs_path ((path_comps (l_root l) @ butlast ?ks) @ [last ?ks])"
    using local_path_Inr(1) [OF ac assms(2)] ne by simp
  then show "\<exists>b. path = b @ CHR ''/'' # last ?ks"
    unfolding abs_path_def Join_snoc by (auto intro: exI [of _ "[]"])
qed

lemma name_not_path:
  assumes "local_inv l" and "local_path l key = Inr path" and "name \<noteq> last (key_comps key)" and "CHR ''/'' \<notin> set name"
  shows "join_path dir name \<noteq> path"
proof
  assume eq: "join_path dir name = path"
  obtain b where "path = b @ CHR ''/'' # last (key_comps key)" using local_path_name(2) [OF assms(1,2)] by blast
  moreover obtain a where "path = a @ CHR ''/'' # name" using join_path_name [OF assms(4)] eq by blast
  ultimately have "last (key_comps key) = name"
    using name_part_unique local_path_name(1) [OF assms(1,2)] assms(4) by metis
  then show False using assms(3) by simp
qed

lemma temp_not_path:
  assumes "local_inv l" and "local_path l key = Inr path" and "proper_key key" and "CHR ''/'' \<notin> set x"
  shows "join_path dir (''.upload-'' @ x) \<noteq> path"
proof (rule name_not_path [OF assms(1,2)])
  show "''.upload-'' @ x \<noteq> last (key_comps key)"
    using assms(3) HasPrefix_append [of "''.upload-''" x] by (auto simp: proper_key_def simp del: HasPrefix_append)
qed (use assms(4) in simp)


lemma run_CreateTemp:
  assumes "run_state (os_CreateTemp e dir pre suf) w = (r, w')"
  shows "case r of
      Inl _ \<Rightarrow> w_files w' = w_files w
    | Inr name \<Rightarrow> w_files w name = None \<and> w_files w' = (w_files w)(name \<mapsto> []) \<and>
        (\<exists>x. CHR ''/'' \<notin> set x \<and> name = join_path dir (pre @ x @ suf))"
  using assms by (auto simp: os_CreateTemp_def Let_def split: option.splits if_splits)

lemma run_Remove_other:
  "run_state (os_Remove e name) w = (r, w') \<Longrightarrow> p \<noteq> name \<Longrightarrow> w_files w' p = w_files w p"
  by (auto simp: os_Remove_def split: option.splits if_splits)

lemma run_call_files: "run_state (call e) w = (r, w') \<Longrightarrow> w_files w' = w_files w"
  by (auto simp: call_def)

text \<open>A put either fails and keeps every existing file, or stores the reader's bytes under the
  key, keeps every other existing file and reports the bytes' length and digest.\<close>

definition put_outcome :: "env \<Rightarrow> Local \<Rightarrow> string \<Rightarrow> reader \<Rightarrow> int64 \<Rightarrow> string \<Rightarrow> world \<Rightarrow> ObjectInfo result \<Rightarrow> world \<Rightarrow> bool" where
  "put_outcome e l key rd sz ct w r w' =
     ((\<forall>p. w_files w p \<noteq> None \<longrightarrow> local_path l key \<noteq> Inr p \<longrightarrow> w_files w' p = w_files w p) \<and>
      (case r of
         Inl _ \<Rightarrow> stored l w' key = stored l w key
       | Inr info \<Rightarrow> stored l w' key = Some (r_data rd) \<and> r_err rd = None \<and>
           int (length (r_data rd)) = sz \<and> sz \<le> l_maxBytes l \<and>
           info = \<lparr>oi_Key = key, oi_Size = sz, oi_SHA256 = hex_sha256 e (r_data rd), oi_ContentType = ct\<rparr>))"

lemma stored_cong: "w_files w' = w_files w \<Longrightarrow> stored l w' key = stored l w key"
  by (simp add: stored_def split: sum.splits)

lemma put_outcome_refused:
  "w_files w' = w_files w \<Longrightarrow> put_outcome e l key rd sz ct w (Inl er) w'"
  using stored_cong [of w' w l key] by (simp add: put_outcome_def)

lemma put_outcome_temp:
  assumes "local_inv l" and "proper_key key" and path: "local_path l key = Inr path"
    and temp: "run_state (os_CreateTemp e (Dir path) ''.upload-'' []) w = (Inr tn, w2)"
    and put: "run_state (put_temp e l path tn key rd sz ct) w2 = (r, w3)"
    and rm: "run_state (os_Remove e tn) w3 = (r4, w')"
  shows "put_outcome e l key rd sz ct w r w'"
proof -
  have st: "stored l v key = w_files v path" for v by (simp add: stored_def path)
  obtain x where fresh: "w_files w tn = None" and w2: "w_files w2 = (w_files w)(tn \<mapsto> [])"
    and x: "CHR ''/'' \<notin> set x" "tn = join_path (Dir path) (''.upload-'' @ x)"
    using run_CreateTemp [OF temp] by auto
  have ne: "tn \<noteq> path"
    unfolding x(2) by (rule temp_not_path [OF assms(1) path assms(2) x(1)])
  have "(\<forall>p. p \<noteq> tn \<longrightarrow> p \<noteq> path \<longrightarrow> w_files w3 p = w_files w2 p) \<and>
    (case r of
       Inl _ \<Rightarrow> w_files w3 path = w_files w2 path
     | Inr info \<Rightarrow> w_files w3 path = Some (r_data rd) \<and> r_err rd = None \<and>
         int (length (r_data rd)) = sz \<and> sz \<le> l_maxBytes l \<and>
         info = \<lparr>oi_Key = key, oi_Size = sz, oi_SHA256 = hex_sha256 e (r_data rd), oi_ContentType = ct\<rparr>)"
    using put_temp_spec [OF put ne] assms(1) by (simp add: local_inv_def)
  note put_res = this
  have keep: "w_files w' p = w_files w p" if "w_files w p \<noteq> None" "p \<noteq> path" for p
    using run_Remove_other [OF rm, of p] put_res fresh w2 that by (cases "p = tn") auto
  then show ?thesis
    using run_Remove_other [OF rm, of path] put_res ne w2
    by (auto simp: put_outcome_def st path split: sum.splits)
qed

lemma local_Put_outcome:
  assumes "local_inv l" and "proper_key key"
  shows "put_outcome e l key rd sz ct w (fst (run_state (local_Put e l key rd sz ct) w))
    (snd (run_state (local_Put e l key rd sz ct) w))"
proof (cases "(sz < 0 \<or> sz > l_maxBytes l) \<or> \<not> is_ok (local_path l key)")
  case True
  then show ?thesis by (auto simp: local_Put_def intro: put_outcome_refused split: sum.splits)
next
  case False
  then obtain path where path: "local_path l key = Inr path" by (cases "local_path l key") auto
  obtain r1 w1 where mk: "run_state (call e) w = (r1, w1)" by fastforce
  obtain r2 w2 where temp: "run_state (os_CreateTemp e (Dir path) ''.upload-'' []) w1 = (r2, w2)" by fastforce
  have w1: "w_files w1 = w_files w" using run_call_files [OF mk] .
  consider er where "r1 = Some er" | er where "r1 = None" "r2 = Inl er" | tn where "r1 = None" "r2 = Inr tn"
    by (cases r1; cases r2) auto
  then show ?thesis
  proof cases
    case (3 tn)
    obtain r3 w3 where put: "run_state (put_temp e l path tn key rd sz ct) w2 = (r3, w3)" by fastforce
    obtain r4 w4 where rm: "run_state (os_Remove e tn) w3 = (r4, w4)" by fastforce
    have "run_state (local_Put e l key rd sz ct) w = (r3, w4)"
      using False path mk temp put rm 3 by (simp add: local_Put_def)
    moreover have "put_outcome e l key rd sz ct w1 r3 w4"
      using put_outcome_temp [OF assms path _ put rm] temp 3 by simp
    ultimately show ?thesis
      using stored_cong [OF w1, of l key] by (cases r3) (simp_all add: put_outcome_def w1)
  qed (use False path mk temp w1 run_CreateTemp [OF temp] in
      \<open>auto simp: local_Put_def intro!: put_outcome_refused\<close>)
qed

lemma run_Open:
  assumes "run_state (os_Open e name) w = (r, w')"
  shows "w_files w' = w_files w \<and>
    (\<forall>rd. r = Inr rd \<longrightarrow> (\<exists>data. w_files w name = Some data \<and>
       (r_err rd = None \<longrightarrow> r_data rd = data) \<and> prefix (r_data rd) data))"
  using assms
  by (auto simp: os_Open_def State_Monad.get_def take_is_prefix split: option.splits prod.splits)

lemma run_Stat:
  "run_state (os_Stat e name) w = (r, w') \<Longrightarrow>
   w_files w' = w_files w \<and> (\<forall>n. r = Inr n \<longrightarrow> (\<exists>data. w_files w name = Some data \<and> n = int (length data)))"
  by (auto simp: os_Stat_def State_Monad.get_def split: option.splits)

lemma local_Get_outcome:
  assumes "run_state (local_Get e l key) w = (r, w')"
  shows "w_files w' = w_files w \<and>
    (\<forall>rd info. r = Inr (rd, info) \<longrightarrow>
       (\<exists>data. stored l w key = Some data \<and> (r_err rd = None \<longrightarrow> r_data rd = data) \<and>
          prefix (r_data rd) data \<and> oi_Key info = key \<and> oi_Size info = int (length data)))"
proof (cases "local_path l key")
  case (Inr path)
  obtain r1 w1 where o: "run_state (os_Open e path) w = (r1, w1)" by fastforce
  obtain r2 w2 where s: "run_state (os_Stat e path) w1 = (r2, w2)" by fastforce
  show ?thesis
    using assms Inr o s run_Open [OF o] run_Stat [OF s]
    by (cases r1; cases r2) (auto simp: local_Get_def stored_def)
qed (use assms in \<open>auto simp: local_Get_def\<close>)

lemma local_Delete_outcome:
  assumes "run_state (local_Delete e l key) w = (r, w')"
  shows "(\<forall>p. local_path l key \<noteq> Inr p \<longrightarrow> w_files w' p = w_files w p) \<and>
    (r = None \<longrightarrow> stored l w' key = None) \<and>
    (\<forall>er. r = Some er \<longrightarrow> stored l w' key = stored l w key)"
  using assms
  by (cases "local_path l key")
    (auto simp: local_Delete_def os_Remove_def stored_def fate_err_def
      split: option.splits if_splits fate.splits)



section \<open>The MinIO client\<close>

text \<open>
  What the code relies on of the client: a successful \<open>PutObject\<close> of a known size has read
  exactly that many bytes and stored them under the key; a failed one may have stored them
  (the answer can be lost) but touches no other object; \<open>RemoveObject\<close> removes the object, also
  when there is none; a read delivers the object's bytes or an error.
\<close>

definition minio_put_ok :: "minio_client \<Rightarrow> bool" where
  "minio_put_ok c =
     (\<forall>n bk key rd sz ct b b' r. mc_PutObject c n bk key rd sz ct b = (b', r) \<longrightarrow> 0 \<le> sz \<longrightarrow>
        (\<forall>k. k \<noteq> key \<longrightarrow> b' k = b k) \<and>
        (\<forall>m z. r = Inr (m, z) \<longrightarrow>
           int m = sz \<and> z = sz \<and> m \<le> length (r_data rd) \<and> b' key = Some (take m (r_data rd), ct)))"

definition minio_read_ok :: "minio_client \<Rightarrow> bool" where
  "minio_read_ok c =
     ((\<forall>n bk key b rd. mc_GetObject c n bk key b = Inr rd \<longrightarrow>
         (\<forall>d. b key = Some d \<longrightarrow> prefix (r_data rd) (fst d) \<and> (r_err rd = None \<longrightarrow> r_data rd = fst d))) \<and>
      (\<forall>n bk key b z ct. mc_Stat c n bk key b = Inr (z, ct) \<longrightarrow>
         (\<exists>d. b key = Some d \<and> z = int (length (fst d)))))"

definition minio_remove_ok :: "minio_client \<Rightarrow> bool" where
  "minio_remove_ok c =
     (\<forall>n bk key b b' r. mc_RemoveObject c n bk key b = (b', r) \<longrightarrow>
        (\<forall>k. k \<noteq> key \<longrightarrow> b' k = b k) \<and> (r = None \<longrightarrow> b' key = None))"

definition s3_inv :: "S3 \<Rightarrow> bool" where
  "s3_inv s = (minio_put_ok (s3_client s) \<and> minio_read_ok (s3_client s) \<and> minio_remove_ok (s3_client s))"

definition s3_stored :: "world \<Rightarrow> string \<Rightarrow> bytes option" where
  "s3_stored w key = map_option fst (w_bucket w key)"

lemma keeps_s3 [keeps_intros]:
  "keeps (storage_only w0) (s3_Put e s key r n ct)"
  "keeps (storage_only w0) (s3_Get s key)"
  "keeps (storage_only w0) (s3_Delete s key)"
  unfolding s3_Put_def s3_Get_def s3_Delete_def keeps_def hoare_def storage_only_def State_Monad.get_def
  by (auto simp: Let_def split: option.splits prod.splits sum.splits)


section \<open>The interface as a contract\<close>

text \<open>
  What a client of \<open>ObjectStorage\<close> may rely on, for a store with its invariant: \<open>same\<close> says when
  two keys denote one object and \<open>proper\<close> excludes the adapter's private names.
\<close>

text \<open>A sequence of operations on a store, whatever their outcomes.\<close>

datatype storage_op = PutOp string reader int64 string | GetOp string | DeleteOp string

fun changes :: "storage_op \<Rightarrow> string option" where
  "changes (PutOp key _ _ _) = Some key"
| "changes (GetOp _) = None"
| "changes (DeleteOp key) = Some key"

type_synonym 's put_operation = "env \<Rightarrow> 's \<Rightarrow> string \<Rightarrow> reader \<Rightarrow> int64 \<Rightarrow> string \<Rightarrow> ObjectInfo result program"

type_synonym 's get_operation = "env \<Rightarrow> 's \<Rightarrow> string \<Rightarrow> (reader \<times> ObjectInfo) result program"

type_synonym 's delete_operation = "env \<Rightarrow> 's \<Rightarrow> string \<Rightarrow> go_error option program"

fun storage_step ::
    "'s put_operation \<Rightarrow> 's get_operation \<Rightarrow> 's delete_operation \<Rightarrow> env \<Rightarrow> 's \<Rightarrow> storage_op \<Rightarrow> unit program" where
  "storage_step Put Get Delete e s (PutOp key rd sz ct) = do { _ \<leftarrow> Put e s key rd sz ct; State_Monad.return () }"
| "storage_step Put Get Delete e s (GetOp key) = do { _ \<leftarrow> Get e s key; State_Monad.return () }"
| "storage_step Put Get Delete e s (DeleteOp key) = do { _ \<leftarrow> Delete e s key; State_Monad.return () }"

fun storage_steps ::
    "'s put_operation \<Rightarrow> 's get_operation \<Rightarrow> 's delete_operation \<Rightarrow> env \<Rightarrow> 's \<Rightarrow> storage_op list \<Rightarrow> unit program" where
  "storage_steps Put Get Delete e s [] = State_Monad.return ()"
| "storage_steps Put Get Delete e s (op # ops) = do {
     storage_step Put Get Delete e s op;
     storage_steps Put Get Delete e s ops
   }"

locale object_store =
  fixes inv :: "'s \<Rightarrow> bool"
    and Put :: "'s put_operation"
    and Get :: "'s get_operation"
    and Delete :: "'s delete_operation"
    and obj :: "'s \<Rightarrow> world \<Rightarrow> string \<Rightarrow> bytes option"
    and same :: "'s \<Rightarrow> string \<Rightarrow> string \<Rightarrow> bool"
    and proper :: "'s \<Rightarrow> string \<Rightarrow> bool"
  assumes put_ok: "inv s \<Longrightarrow> proper s key \<Longrightarrow> run_state (Put e s key rd sz ct) w = (Inr info, w') \<Longrightarrow>
      \<exists>data. prefix data (r_data rd) \<and> int (length data) = sz \<and> obj s w' key = Some data \<and>
        info = \<lparr>oi_Key = key, oi_Size = sz, oi_SHA256 = hex_sha256 e data, oi_ContentType = ct\<rparr>"
    and put_frame: "inv s \<Longrightarrow> proper s key \<Longrightarrow> run_state (Put e s key rd sz ct) w = (r, w') \<Longrightarrow>
      \<not> same s key k \<Longrightarrow> obj s w k \<noteq> None \<Longrightarrow> obj s w' k = obj s w k"
    and get_ok: "inv s \<Longrightarrow> run_state (Get e s key) w = (Inr (rd, info), w') \<Longrightarrow>
      \<exists>data. obj s w key = Some data \<and> prefix (r_data rd) data \<and> (r_err rd = None \<longrightarrow> r_data rd = data) \<and>
        oi_Size info = int (length data)"
    and get_frame: "inv s \<Longrightarrow> run_state (Get e s key) w = (got, w') \<Longrightarrow> obj s w' = obj s w"
    and delete_ok: "inv s \<Longrightarrow> run_state (Delete e s key) w = (None, w') \<Longrightarrow> obj s w' key = None"
    and delete_frame: "inv s \<Longrightarrow> run_state (Delete e s key) w = (del, w') \<Longrightarrow>
      \<not> same s key k \<Longrightarrow> obj s w' k = obj s w k"
begin

text \<open>An object survives every operation on other objects.\<close>

lemma step_keeps:
  assumes "inv s" and "\<And>k'. changes op = Some k' \<Longrightarrow> proper s k' \<and> \<not> same s k' k" and "obj s w k = Some b"
  shows "obj s (snd (run_state (storage_step Put Get Delete e s op) w)) k = Some b"
proof (cases op)
  case (PutOp key rd sz ct)
  obtain r w' where run: "run_state (Put e s key rd sz ct) w = (r, w')" by fastforce
  then show ?thesis using put_frame [OF assms(1) _ run, of k] assms(2,3) by (simp add: PutOp)
next
  case (GetOp key)
  obtain r w' where run: "run_state (Get e s key) w = (r, w')" by fastforce
  then show ?thesis using get_frame [OF assms(1) run] assms(3) by (simp add: GetOp)
next
  case (DeleteOp key)
  obtain r w' where run: "run_state (Delete e s key) w = (r, w')" by fastforce
  then show ?thesis using delete_frame [OF assms(1) run, of k] assms(2,3) by (simp add: DeleteOp)
qed

lemma steps_keep:
  assumes "inv s" and "\<forall>op \<in> set ops. \<forall>k'. changes op = Some k' \<longrightarrow> proper s k' \<and> \<not> same s k' k"
    and "obj s w k = Some b"
  shows "obj s (snd (run_state (storage_steps Put Get Delete e s ops) w)) k = Some b"
  using assms(2,3)
proof (induction ops arbitrary: w)
  case (Cons op ops)
  obtain w' where w': "run_state (storage_step Put Get Delete e s op) w = ((), w')"
    by (cases "run_state (storage_step Put Get Delete e s op) w") simp
  then have "obj s w' k = Some b"
    using step_keeps [OF assms(1), of op k w b e] Cons.prems by (metis list.set_intros(1) snd_conv)
  then show ?case using Cons.IH Cons.prems(1) w' by simp
qed simp

lemma put_steps_get:
  assumes "inv s" and "proper s key" and "\<forall>op \<in> set ops. \<forall>k'. changes op = Some k' \<longrightarrow> proper s k' \<and> \<not> same s k' key"
    and "run_state (Put e s key (bytes_NewReader b) (int (length b)) ct) w = (Inr info, w1)"
    and "run_state (storage_steps Put Get Delete e s ops) w1 = ((), w2)"
  shows "oi_SHA256 info = hex_sha256 e b" and "oi_Size info = int (length b)" and "obj s w2 key = Some b"
    and "\<And>rd info'. run_state (Get e s key) w2 = (Inr (rd, info'), w3) \<Longrightarrow>
      oi_Size info' = int (length b) \<and> prefix (r_data rd) b \<and> (r_err rd = None \<longrightarrow> r_data rd = b)"
proof -
  obtain data where data: "prefix data b" "length data = length b" and w1: "obj s w1 key = Some data"
    and info: "info = \<lparr>oi_Key = key, oi_Size = int (length b), oi_SHA256 = hex_sha256 e data, oi_ContentType = ct\<rparr>"
    using put_ok [OF assms(1,2,4)] by (auto simp: bytes_NewReader_def)
  then have b: "data = b" by (metis not_equal_is_parallel parallelE prefix_order.refl)
  show stored: "obj s w2 key = Some b"
    using steps_keep [OF assms(1,3), of w1 b e] w1 b assms(5) by simp
  show "oi_SHA256 info = hex_sha256 e b" "oi_Size info = int (length b)" by (simp_all add: info b)
  fix rd info'
  assume "run_state (Get e s key) w2 = (Inr (rd, info'), w3)"
  from get_ok [OF assms(1) this] stored
  show "oi_Size info' = int (length b) \<and> prefix (r_data rd) b \<and> (r_err rd = None \<longrightarrow> r_data rd = b)" by simp
qed

lemma put_delete:
  assumes "inv s" and "proper s key"
    and "run_state (Put e s key rd sz ct) w = (r, w')"
    and "run_state (Delete e' s key) w' = (None, w'')"
  shows "obj s w'' key = None"
    and "\<And>k. \<not> same s key k \<Longrightarrow> obj s w k \<noteq> None \<Longrightarrow> obj s w'' k = obj s w k"
  using delete_ok [OF assms(1,4)] delete_frame [OF assms(1,4)] put_frame [OF assms(1-3)] by simp_all

end

text \<open>The local adapter also promises that a failed put leaves the object as it was.\<close>

locale atomic_object_store = object_store +
  assumes put_fail: "inv s \<Longrightarrow> proper s key \<Longrightarrow> run_state (Put e s key rd sz ct) w = (Inl er, w') \<Longrightarrow>
      obj s w' key = obj s w key"
begin

lemma put_all_or_nothing:
  assumes "inv s" and "proper s key"
    and "run_state (Put e s key (bytes_NewReader b) (int (length b)) ct) w = (r, w')"
  shows "obj s w' key = (if is_ok r then Some b else obj s w key)"
proof (cases r)
  case (Inl er)
  then show ?thesis using put_fail [OF assms(1,2)] assms(3) by simp
next
  case (Inr info)
  then obtain data where "prefix data b" "length data = length b" "obj s w' key = Some data"
    using put_ok [OF assms(1,2), of e "bytes_NewReader b" "int (length b)" ct w info w'] assms(3)
    by (auto simp: bytes_NewReader_def)
  with Inr show ?thesis by (metis is_ok_simps(1) not_equal_is_parallel parallelE prefix_order.refl)
qed

end

definition local_same :: "Local \<Rightarrow> string \<Rightarrow> string \<Rightarrow> bool" where
  "local_same l k k' = (local_path l k = local_path l k')"

interpretation local_store: atomic_object_store local_inv local_Put local_Get local_Delete stored
  local_same "\<lambda>_. proper_key"
proof unfold_locales
  fix l key e rd sz ct w w'
  assume inv: "local_inv l" and pr: "proper_key key"
  note out = local_Put_outcome [OF inv pr, of e rd sz ct w]
  show "run_state (local_Put e l key rd sz ct) w = (Inr info, w') \<Longrightarrow>
      \<exists>data. prefix data (r_data rd) \<and> int (length data) = sz \<and> stored l w' key = Some data \<and>
        info = \<lparr>oi_Key = key, oi_Size = sz, oi_SHA256 = hex_sha256 e data, oi_ContentType = ct\<rparr>" for info
    using out by (auto simp: put_outcome_def)
  show "run_state (local_Put e l key rd sz ct) w = (r, w') \<Longrightarrow> \<not> local_same l key k \<Longrightarrow>
      stored l w k \<noteq> None \<Longrightarrow> stored l w' k = stored l w k" for r k
    using out by (auto simp: put_outcome_def local_same_def stored_def split: sum.splits)
  show "run_state (local_Put e l key rd sz ct) w = (Inl er, w') \<Longrightarrow> stored l w' key = stored l w key" for er
    using out by (simp add: put_outcome_def)
next
  fix l key e w w'
  show "run_state (local_Get e l key) w = (Inr (rd, info), w') \<Longrightarrow>
      \<exists>data. stored l w key = Some data \<and> prefix (r_data rd) data \<and> (r_err rd = None \<longrightarrow> r_data rd = data) \<and>
        oi_Size info = int (length data)" for rd info
    using local_Get_outcome by blast
  show "run_state (local_Get e l key) w = (r, w') \<Longrightarrow> stored l w' = stored l w" for r
    using local_Get_outcome [of e l key w r w'] stored_cong [of w' w l] by blast
  show "run_state (local_Delete e l key) w = (None, w') \<Longrightarrow> stored l w' key = None"
    using local_Delete_outcome by blast
  show "run_state (local_Delete e l key) w = (r, w') \<Longrightarrow> \<not> local_same l key k \<Longrightarrow>
      stored l w' k = stored l w k" for r k
    using local_Delete_outcome [of e l key w r w'] by (auto simp: local_same_def stored_def split: sum.splits)
qed


lemma minio_put_okD:
  "minio_put_ok c \<Longrightarrow> mc_PutObject c n bk key rd sz ct b = (b', r) \<Longrightarrow> 0 \<le> sz \<Longrightarrow>
   (\<forall>k. k \<noteq> key \<longrightarrow> b' k = b k) \<and>
   (\<forall>m z. r = Inr (m, z) \<longrightarrow>
      int m = sz \<and> z = sz \<and> m \<le> length (r_data rd) \<and> b' key = Some (take m (r_data rd), ct))"
  unfolding minio_put_ok_def by blast

lemma s3_Put_outcome:
  assumes "s3_inv s" and "run_state (s3_Put e s key rd sz ct) w = (r, w')"
  shows "(\<forall>k. k \<noteq> key \<longrightarrow> s3_stored w' k = s3_stored w k) \<and>
    (\<forall>info. r = Inr info \<longrightarrow> (\<exists>data. prefix data (r_data rd) \<and> int (length data) = sz \<and>
       s3_stored w' key = Some data \<and>
       info = \<lparr>oi_Key = key, oi_Size = sz, oi_SHA256 = hex_sha256 e data, oi_ContentType = ct\<rparr>))"
proof (cases "\<not> safeKey key \<or> sz < 0 \<or> sz > s3_maxBytes s")
  case False
  obtain b' r' where put: "mc_PutObject (s3_client s) (w_step w) (s3_bucket s) key rd sz ct (w_bucket w) = (b', r')"
    by fastforce
  have res: "(\<forall>k. k \<noteq> key \<longrightarrow> b' k = w_bucket w k) \<and>
      (\<forall>m z. r' = Inr (m, z) \<longrightarrow>
         int m = sz \<and> z = sz \<and> m \<le> length (r_data rd) \<and> b' key = Some (take m (r_data rd), ct))"
    using minio_put_okD [OF _ put] assms(1) False by (simp add: s3_inv_def)
  have w': "w_bucket w' = b'"
    and r: "r = (case r' of Inl er \<Rightarrow> Inl er
          | Inr (k, z) \<Rightarrow> Inr \<lparr>oi_Key = key, oi_Size = z, oi_SHA256 = hex_sha256 e (take k (r_data rd)),
              oi_ContentType = ct\<rparr>)"
    using assms(2) False put by (auto simp: s3_Put_def Let_def split: sum.splits prod.splits)
  show ?thesis
  proof (cases r')
    case (Inl er)
    with res w' r show ?thesis by (simp add: s3_stored_def)
  next
    case (Inr p)
    obtain m z where p: "p = (m, z)" by fastforce
    show ?thesis
      using res w' r Inr p take_is_prefix [of m "r_data rd"]
      by (auto simp: s3_stored_def intro!: exI [of _ "take m (r_data rd)"])
  qed
qed (use assms(2) in \<open>auto simp: s3_Put_def\<close>)

lemma s3_Get_outcome:
  assumes "s3_inv s" and "run_state (s3_Get s key) w = (r, w')"
  shows "w_bucket w' = w_bucket w \<and>
    (\<forall>rd info. r = Inr (rd, info) \<longrightarrow> (\<exists>data. s3_stored w key = Some data \<and>
       prefix (r_data rd) data \<and> (r_err rd = None \<longrightarrow> r_data rd = data) \<and> oi_Size info = int (length data)))"
proof (cases "safeKey key")
  case True
  have read: "mc_GetObject (s3_client s) n bk k b = Inr rd \<Longrightarrow> b k = Some d \<Longrightarrow>
      prefix (r_data rd) (fst d) \<and> (r_err rd = None \<longrightarrow> r_data rd = fst d)"
    and stat: "mc_Stat (s3_client s) n bk k b = Inr (z, ct) \<Longrightarrow> \<exists>d. b k = Some d \<and> z = int (length (fst d))"
    for n bk k b rd d z ct
    using assms(1) unfolding s3_inv_def minio_read_ok_def by blast+
  show ?thesis
    using assms(2) True read stat
    by (fastforce simp: s3_Get_def s3_stored_def State_Monad.get_def split: sum.splits prod.splits)
qed (use assms(2) in \<open>auto simp: s3_Get_def\<close>)

lemma s3_Delete_outcome:
  assumes "s3_inv s" and "run_state (s3_Delete s key) w = (r, w')"
  shows "(\<forall>k. k \<noteq> key \<longrightarrow> s3_stored w' k = s3_stored w k) \<and> (r = None \<longrightarrow> s3_stored w' key = None)"
proof (cases "safeKey key")
  case True
  obtain b' where rm: "mc_RemoveObject (s3_client s) (w_step w) (s3_bucket s) key (w_bucket w) = (b', r)"
    and w': "w_bucket w' = b'"
    using assms(2) True by (auto simp: s3_Delete_def Let_def split: prod.splits)
  have "(\<forall>k. k \<noteq> key \<longrightarrow> b' k = w_bucket w k) \<and> (r = None \<longrightarrow> b' key = None)"
    using assms(1) rm unfolding s3_inv_def minio_remove_ok_def by blast
  then show ?thesis by (simp add: s3_stored_def w')
qed (use assms(2) in \<open>auto simp: s3_Delete_def\<close>)

interpretation s3_store: object_store s3_inv s3_Put "\<lambda>_. s3_Get" "\<lambda>_. s3_Delete" "\<lambda>_. s3_stored"
  "\<lambda>_. (=)" "\<lambda>_ _. True"
proof unfold_locales
  fix s key e w w'
  assume inv: "s3_inv s"
  show "run_state (s3_Get s key) w = (got, w') \<Longrightarrow> s3_stored w' = s3_stored w" for got
    using s3_Get_outcome [OF inv] by (fastforce simp: s3_stored_def)
  show "run_state (s3_Get s key) w = (Inr (rd, info), w') \<Longrightarrow>
      \<exists>data. s3_stored w key = Some data \<and> prefix (r_data rd) data \<and> (r_err rd = None \<longrightarrow> r_data rd = data) \<and>
        oi_Size info = int (length data)" for rd info
    using s3_Get_outcome [OF inv] by blast
qed (use s3_Put_outcome s3_Delete_outcome in metis)+

text \<open>A client that keeps the objects in memory behaves as documented.\<close>

definition memory_minio :: minio_client where
  "memory_minio =
     \<lparr>mc_PutObject = \<lambda>n bk key rd sz ct b.
        if int (length (r_data rd)) < sz then (b, Inl (External ''unexpected EOF''))
        else (b(key \<mapsto> (take (nat sz) (r_data rd), ct)), Inr (nat sz, sz)),
      mc_GetObject = \<lambda>n bk key b.
        Inr (case b key of None \<Rightarrow> \<lparr>r_data = [], r_err = Some ErrNotExist\<rparr> | Some d \<Rightarrow> \<lparr>r_data = fst d, r_err = None\<rparr>),
      mc_Stat = \<lambda>n bk key b. (case b key of None \<Rightarrow> Inl ErrNotExist | Some d \<Rightarrow> Inr (int (length (fst d)), snd d)),
      mc_RemoveObject = \<lambda>n bk key b. (b(key := None), None),
      mc_BucketExists = \<lambda>n bk. Inr True, mc_MakeBucket = \<lambda>n bk. None\<rparr>"

lemma memory_minio_inv: "s3_inv \<lparr>s3_client = memory_minio, s3_bucket = bk, s3_maxBytes = m\<rparr>"
  by (auto simp: s3_inv_def minio_put_ok_def minio_read_ok_def minio_remove_ok_def memory_minio_def
      split: if_splits option.splits)

text \<open>So an object put through the S3 adapter is read back over such a client, after any operations on other keys.\<close>

lemmas s3_round_trip = s3_store.put_steps_get [OF memory_minio_inv]

text \<open>The interface value the worker is configured with.\<close>

definition obj_inv :: "object_storage \<Rightarrow> bool" where
  "obj_inv s = (case s of OnLocal l \<Rightarrow> local_inv l | OnS3 b \<Rightarrow> s3_inv b)"

definition obj_at :: "object_storage \<Rightarrow> world \<Rightarrow> string \<Rightarrow> bytes option" where
  "obj_at s = (case s of OnLocal l \<Rightarrow> stored l | OnS3 b \<Rightarrow> s3_stored)"

definition obj_same :: "object_storage \<Rightarrow> string \<Rightarrow> string \<Rightarrow> bool" where
  "obj_same s = (case s of OnLocal l \<Rightarrow> local_same l | OnS3 b \<Rightarrow> (=))"

definition obj_proper :: "object_storage \<Rightarrow> string \<Rightarrow> bool" where
  "obj_proper s = (case s of OnLocal l \<Rightarrow> proper_key | OnS3 b \<Rightarrow> (\<lambda>_. True))"

lemmas obj_defs = obj_inv_def obj_at_def obj_same_def obj_proper_def obj_Put_def obj_Get_def obj_Delete_def

interpretation objects: object_store obj_inv obj_Put obj_Get obj_Delete obj_at obj_same obj_proper
proof unfold_locales
  fix s key
  show "obj_inv s \<Longrightarrow> obj_proper s key \<Longrightarrow> run_state (obj_Put e s key rd sz ct) w = (Inr info, w') \<Longrightarrow>
      \<exists>data. prefix data (r_data rd) \<and> int (length data) = sz \<and> obj_at s w' key = Some data \<and>
        info = \<lparr>oi_Key = key, oi_Size = sz, oi_SHA256 = hex_sha256 e data, oi_ContentType = ct\<rparr>"
    for e rd sz ct w info w'
    using local_store.put_ok s3_store.put_ok by (cases s) (simp_all add: obj_defs)
  show "obj_inv s \<Longrightarrow> obj_proper s key \<Longrightarrow> run_state (obj_Put e s key rd sz ct) w = (r, w') \<Longrightarrow>
      \<not> obj_same s key k \<Longrightarrow> obj_at s w k \<noteq> None \<Longrightarrow> obj_at s w' k = obj_at s w k" for e rd sz ct w r w' k
    using local_store.put_frame s3_store.put_frame by (cases s) (simp_all add: obj_defs)
  show "obj_inv s \<Longrightarrow> run_state (obj_Get e s key) w = (Inr (rd, info), w') \<Longrightarrow>
      \<exists>data. obj_at s w key = Some data \<and> prefix (r_data rd) data \<and> (r_err rd = None \<longrightarrow> r_data rd = data) \<and>
        oi_Size info = int (length data)" for e w rd info w'
    using local_store.get_ok s3_store.get_ok by (cases s) (simp_all add: obj_defs)
  show "obj_inv s \<Longrightarrow> run_state (obj_Get e s key) w = (got, w') \<Longrightarrow> obj_at s w' = obj_at s w" for e w got w'
    using local_store.get_frame s3_store.get_frame by (cases s) (simp_all add: obj_defs)
  show "obj_inv s \<Longrightarrow> run_state (obj_Delete e s key) w = (None, w') \<Longrightarrow> obj_at s w' key = None" for e w w'
    using local_store.delete_ok s3_store.delete_ok by (cases s) (simp_all add: obj_defs)
  show "obj_inv s \<Longrightarrow> run_state (obj_Delete e s key) w = (del, w') \<Longrightarrow> \<not> obj_same s key k \<Longrightarrow>
      obj_at s w' k = obj_at s w k" for e w del w' k
    using local_store.delete_frame s3_store.delete_frame by (cases s) (simp_all add: obj_defs)
qed

lemma keeps_objects [keeps_intros]:
  "keeps (storage_only w0) (obj_Put e s key r n ct)"
  "keeps (storage_only w0) (obj_Get e s key)"
  "keeps (storage_only w0) (obj_Delete e s key)"
  by (simp_all add: obj_defs keeps_local keeps_s3 split: object_storage.splits)



section \<open>Properties\<close>

definition example_local :: Local where
  "example_local = \<lparr>l_root = ''/d/objects'', l_maxBytes = 65536\<rparr>"

lemma example_local_inv: "local_inv example_local" "proper_key ''org/a''"
  by code_simp+

text \<open>
  C20. Confinement: below an absolute clean root the local adapter accepts exactly the keys that
  match its pattern and contain no two adjacent dots, and an accepted key resolves to the
  root's own components followed by at least one further component, none of them empty,
  a dot or a double dot. No key names the root itself or a file outside it.
\<close>

theorem storage_key_confined:
  assumes "abs_clean (l_root l)"
  shows "(is_ok (local_path l key) \<longleftrightarrow> safeKey key \<and> \<not> Contains key ''..'') \<and>
    (\<forall>path. local_path l key = Inr path \<longrightarrow>
       (\<exists>ks. ks \<noteq> [] \<and> list_all normal_comp ks \<and> path = abs_path (path_comps (l_root l) @ ks)))"
proof (intro conjI allI impI)
  show "is_ok (local_path l key) \<longleftrightarrow> safeKey key \<and> \<not> Contains key ''..''"
    by (rule local_path_ok_iff [OF assms])
  fix path
  assume path: "local_path l key = Inr path"
  then have "safeKey key" by (auto simp: local_path_def split: if_splits)
  then show "\<exists>ks. ks \<noteq> [] \<and> list_all normal_comp ks \<and> path = abs_path (path_comps (l_root l) @ ks)"
    using local_path_Inr [OF assms path] key_comps_ne by blast
qed

theorem storage_key_confined_witness:
  "abs_clean (l_root example_local) \<and> is_ok (local_path example_local ''org/a'') \<and>
   \<not> is_ok (local_path example_local ''org/../../etc/passwd'')"
proof -
  have ac: "abs_clean (l_root example_local)" by code_simp
  have "safeKey ''org/a'' \<and> \<not> Contains ''org/a'' ''..''" by code_simp
  moreover have "Contains ''org/../../etc/passwd'' ''..''" by code_simp
  ultimately show ?thesis using ac storage_key_confined [OF ac] by blast
qed

text \<open>An undisturbed \<open>Get\<close> delivers the object.\<close>

lemma local_Get_performed:
  assumes "\<forall>n \<ge> w_step w. fate_at e n = Performed" and "stored l w key = Some b" and "run_state (local_Get e l key) w = (got, w')"
  shows "\<exists>info. got = Inr (\<lparr>r_data = b, r_err = None\<rparr>, info)"
  using assms
  by (cases "local_path l key")
    (auto simp: stored_def local_Get_def os_Open_def os_Stat_def fate_err_def State_Monad.get_def)

text \<open>
  C15. Round trip through the local adapter: what a successful \<open>Put\<close> of a byte slice stored, a later \<open>Get\<close> of
  the key returns, whatever other uploads, deletions (of other objects) and reads happened in between and
  however they ended, unless its reader reports an error, in which case it delivered a prefix; when no system
  call of the \<open>Get\<close> fails, it returns the whole. The digest and the size \<open>Put\<close> reports and the size \<open>Get\<close>
  reports are those of the bytes.
\<close>

theorem object_round_trip:
  assumes "local_inv l" and "proper_key key"
    and "\<forall>op \<in> set ops. \<forall>k. changes op = Some k \<longrightarrow> proper_key k \<and> local_path l k \<noteq> local_path l key"
    and "run_state (local_Put e l key (bytes_NewReader b) (int (length b)) ct) w = (Inr info, w1)"
    and "run_state (storage_steps local_Put local_Get local_Delete e l ops) w1 = ((), w2)"
    and "run_state (local_Get e l key) w2 = (got, w3)"
  shows "oi_SHA256 info = hex_sha256 e b \<and> oi_Size info = int (length b) \<and>
    (\<forall>rd info'. got = Inr (rd, info') \<longrightarrow>
       oi_Size info' = int (length b) \<and> prefix (r_data rd) b \<and> (r_err rd = None \<longrightarrow> r_data rd = b)) \<and>
    ((\<forall>n \<ge> w_step w2. fate_at e n = Performed) \<longrightarrow> (\<exists>info'. got = Inr (\<lparr>r_data = b, r_err = None\<rparr>, info')))"
proof -
  have "\<forall>op \<in> set ops. \<forall>k. changes op = Some k \<longrightarrow> proper_key k \<and> \<not> local_same l k key"
    using assms(3) by (simp add: local_same_def)
  note kept = local_store.put_steps_get [OF assms(1,2) this assms(4,5)]
  show ?thesis using kept(1,2) kept(4) [of _ _ w3] assms(6) local_Get_performed [OF _ kept(3) assms(6)] by blast
qed

theorem object_round_trip_witness:
  "\<exists>info w1 w2 w3 info'. run_state (local_Put calm example_local ''org/a'' (bytes_NewReader ''hi'') (int (length ''hi'')) ''t'') idle = (Inr info, w1) \<and>
     run_state (storage_steps local_Put local_Get local_Delete calm example_local
       [DeleteOp ''org/b'', GetOp ''org/a'']) w1 = ((), w2) \<and>
     run_state (local_Get calm example_local ''org/a'') w2 = (Inr (\<lparr>r_data = ''hi'', r_err = None\<rparr>, info'), w3)"
proof -
  let ?put = "run_state (local_Put calm example_local ''org/a'' (bytes_NewReader ''hi'') (int (length ''hi'')) ''t'') idle"
  have "is_ok (fst ?put)" by code_simp
  then obtain info w1 where put: "?put = (Inr info, w1)"
    by (cases "fst ?put") (auto simp only: prod_eq_iff fst_conv snd_conv is_ok_simps)
  obtain w2 where steps: "run_state (storage_steps local_Put local_Get local_Delete calm example_local
       [DeleteOp ''org/b'', GetOp ''org/a'']) w1 = ((), w2)"
    by (cases "run_state (storage_steps local_Put local_Get local_Delete calm example_local
       [DeleteOp ''org/b'', GetOp ''org/a'']) w1") simp
  obtain got w3 where get: "run_state (local_Get calm example_local ''org/a'') w2 = (got, w3)" by fastforce
  have "proper_key ''org/b''" "local_path example_local ''org/b'' = Inr ''/d/objects/org/b''"
    "local_path example_local ''org/a'' = Inr ''/d/objects/org/a''" by code_simp+
  then have "\<forall>op \<in> set [DeleteOp ''org/b'', GetOp ''org/a'']. \<forall>k. changes op = Some k \<longrightarrow>
      proper_key k \<and> local_path example_local k \<noteq> local_path example_local ''org/a''" by simp
  from object_round_trip [OF example_local_inv this put steps get] put steps get show ?thesis by auto
qed

text \<open>
  C21. An upload to the local adapter is all or nothing: it either succeeds and the key then
  holds the bytes, at most \<open>maxBytes\<close> of them, or fails and the key holds what it held before;
  in both cases every other existing object is kept and nothing but files changes, whatever
  system call fails and wherever the context is cancelled.
\<close>

theorem local_put_atomic:
  assumes "local_inv l" and "proper_key key"
    and "run_state (local_Put e l key (bytes_NewReader b) (int (length b)) ct) w = (r, w')"
  shows "stored l w' key = (if is_ok r then Some b else stored l w key) \<and>
    (is_ok r \<longrightarrow> int (length b) \<le> l_maxBytes l) \<and>
    (\<forall>k. local_path l k \<noteq> local_path l key \<longrightarrow> stored l w k \<noteq> None \<longrightarrow> stored l w' k = stored l w k) \<and>
    storage_only w w'"
proof (intro conjI allI impI)
  show "stored l w' key = (if is_ok r then Some b else stored l w key)"
    by (rule local_store.put_all_or_nothing [OF assms])
  show "is_ok r \<Longrightarrow> int (length b) \<le> l_maxBytes l"
    using local_Put_outcome [OF assms(1,2), of e "bytes_NewReader b" "int (length b)" ct w] assms(3)
    by (auto simp: put_outcome_def is_ok_def split: sum.splits)
  show "local_path l k \<noteq> local_path l key \<Longrightarrow> stored l w k \<noteq> None \<Longrightarrow> stored l w' k = stored l w k" for k
    using local_store.put_frame [OF assms] by (simp add: local_same_def)
  show "storage_only w w'"
    using keeps_run [OF keeps_local(1), of w w] assms(3) by (metis storage_only_refl snd_conv)
qed

theorem local_put_atomic_witness:
  "stored example_local (snd (run_state (local_Put calm example_local ''org/a'' (bytes_NewReader ''hi'')
     (int (length ''hi'')) ''t'') idle)) ''org/a'' = Some ''hi''"
proof -
  let ?put = "run_state (local_Put calm example_local ''org/a'' (bytes_NewReader ''hi'') (int (length ''hi'')) ''t'') idle"
  have "is_ok (fst ?put)" by code_simp
  then show ?thesis
    using local_put_atomic [OF example_local_inv prod.collapse [symmetric], of calm "''hi''" "''t''" idle]
    by (simp only: if_True simp_thms)
qed

end
