(* ===== verification/Sandbox.thy ===== *)
theory Sandbox
  imports Object_Storage
begin

text \<open>
  The Docker sandbox executor of package \<open>drill\<close> (\<open>executor.go\<close>, \<open>docker.go\<close>): creation with
  its limits, clean-up and readiness loop, destruction, and the typed restore and validation
  commands. A command is the argument list passed to \<open>docker\<close>; the world records the commands
  in the order they are issued and the environment answers them. Starting a process
  (\<open>execRunner\<close>) is the operating system's part.
\<close>

section \<open>Data\<close>

text \<open>A \<open>float64\<close>: a finite value, an infinity or not a number; comparisons with \<open>NaN\<close> are false.\<close>

datatype go_float = Finite rat | PosInf | NegInf | NaN

definition float_le :: "go_float \<Rightarrow> rat \<Rightarrow> bool" where
  "float_le x c = (case x of Finite r \<Rightarrow> r \<le> c | PosInf \<Rightarrow> False | NegInf \<Rightarrow> True | NaN \<Rightarrow> False)"

definition float_gt :: "go_float \<Rightarrow> rat \<Rightarrow> bool" where
  "float_gt x c = (case x of Finite r \<Rightarrow> r > c | PosInf \<Rightarrow> True | NegInf \<Rightarrow> False | NaN \<Rightarrow> False)"

text \<open>\<open>strconv.FormatFloat(x, 'f', 2, 64)\<close>: the exact value rounded to two decimals, ties to even.\<close>

definition two_digits :: "nat \<Rightarrow> string" where
  "two_digits n = [digit_char (n div 10), digit_char (n mod 10)]"

definition format_float2 :: "go_float \<Rightarrow> string" where
  "format_float2 x =
     (case x of
        PosInf \<Rightarrow> ''+Inf'' | NegInf \<Rightarrow> ''-Inf'' | NaN \<Rightarrow> ''NaN''
      | Finite r \<Rightarrow>
          let c = round_half_even (\<bar>r\<bar> * 100) in
          (if r < 0 then ''-'' else []) @ format_int (c div 100) @ ''.'' @ two_digits (nat (c mod 100)))"

record SandboxSpec =
  sp_DrillID :: string
  sp_OrganizationID :: string
  sp_Image :: string
  sp_CPUs :: go_float
  sp_MemoryBytes :: int64
  sp_Timeout :: duration

record Sandbox =
  sx_ID :: string
  sx_ContainerName :: string
  sx_NetworkName :: string
  sx_VolumeName :: string
  sx_Host :: string
  sx_Port :: int
  sx_CreatedAt :: instant
  sx_ReadyAt :: instant

record DockerSandboxExecutor =
  de_allowedImage :: string

text \<open>The regular expression \<open>^[a-zA-Z0-9_-]+$\<close>.\<close>

definition safeIdentifier :: "string \<Rightarrow> bool" where
  "safeIdentifier s = (s \<noteq> [] \<and> list_all (\<lambda>c. is_alnum c \<or> c = CHR ''_'' \<or> c = CHR ''-'') s)"


section \<open>Commands\<close>

definition managed_label :: "string list" where
  "managed_label = [''--label'', ''com.restoreguard.managed=true'', ''--label'', ''com.restoreguard.purpose=restore-sandbox'']"

definition network_create :: "string \<Rightarrow> string list" where
  "network_create network = [''network'', ''create'', ''--internal''] @ managed_label @ [network]"

definition volume_create :: "string \<Rightarrow> string list" where
  "volume_create volume = [''volume'', ''create''] @ managed_label @ [volume]"

definition run_args :: "SandboxSpec \<Rightarrow> string \<Rightarrow> string \<Rightarrow> string \<Rightarrow> string list" where
  "run_args spec container network volume =
     [''run'', ''-d'', ''--name'', container, ''--network'', network,
      ''--cpus'', format_float2 (sp_CPUs spec), ''--memory'', format_int (sp_MemoryBytes spec),
      ''--pids-limit'', ''256'', ''--read-only'',
      ''--tmpfs'', ''/tmp:rw,noexec,nosuid,size=64m'',
      ''--tmpfs'', ''/var/run/postgresql:rw,nosuid,nodev,size=16m'',
      ''--mount'', ''type=volume,source='' @ volume @ '',target=/var/lib/postgresql/data''] @
     managed_label @
     [''--label'', ''com.restoreguard.drill-id='' @ sp_DrillID spec,
      ''-e'', ''POSTGRES_PASSWORD=restoreguard-sandbox-only'', ''-e'', ''POSTGRES_DB=recovery'',
      sp_Image spec]"

definition logs_cmd :: "string \<Rightarrow> string list" where
  "logs_cmd container = [''logs'', container]"

definition ready_cmd :: "string \<Rightarrow> string list" where
  "ready_cmd container = [''exec'', container, ''pg_isready'', ''-U'', ''postgres'', ''-d'', ''recovery'']"

definition rm_container :: "string \<Rightarrow> string list" where
  "rm_container container = [''rm'', ''-f'', container]"

definition rm_network :: "string \<Rightarrow> string list" where
  "rm_network network = [''network'', ''rm'', network]"

definition rm_volume :: "string \<Rightarrow> string list" where
  "rm_volume volume = [''volume'', ''rm'', volume]"


section \<open>Operations\<close>

definition cleanup :: "env \<Rightarrow> string \<Rightarrow> string \<Rightarrow> string \<Rightarrow> unit program" where
  "cleanup e container network volume = do {
     _ \<leftarrow> docker e (rm_container container);
     _ \<leftarrow> docker e (rm_network network);
     _ \<leftarrow> docker e (rm_volume volume);
     State_Monad.return ()
   }"

definition ready_marker :: string where
  "ready_marker = ''PostgreSQL init process complete; ready for start up.''"

text \<open>
  The readiness loop. Every unsuccessful round waits one second unless \<open>readyCtx\<close> is done, so
  \<open>rounds\<close>, the whole seconds of the readiness timeout, bounds the number of waits; when they
  are used up the deadline has passed. The result is the error of \<open>readyCtx\<close>.
\<close>

definition ready_err :: "env \<Rightarrow> nat \<Rightarrow> go_error" where
  "ready_err e n = (case ctx_at e n of Some er \<Rightarrow> er | None \<Rightarrow> DeadlineExceeded)"

definition ready_round :: "env \<Rightarrow> string \<Rightarrow> bool program" where
  "ready_round e container = do {
     (logs, logErr) \<leftarrow> docker e (logs_cmd container);
     if logErr = None \<and> Contains logs ready_marker
     then do {
       (_, err) \<leftarrow> docker e (ready_cmd container);
       State_Monad.return (err = None)
     }
     else State_Monad.return False
   }"

fun ready_loop :: "env \<Rightarrow> string \<Rightarrow> nat \<Rightarrow> go_error option program" where
  "ready_loop e container rounds = do {
     ready \<leftarrow> ready_round e container;
     if ready then State_Monad.return None
     else do {
       n \<leftarrow> tick;
       if ready_done_at e n then State_Monad.return (Some (ready_err e n))
       else (case rounds of
               0 \<Rightarrow> State_Monad.return (Some (ready_err e n))
             | Suc k \<Rightarrow> ready_loop e container k)
     }
   }"

declare ready_loop.simps [simp del]

definition ready_timeout :: "duration \<Rightarrow> duration" where
  "ready_timeout d = (if d \<le> 0 \<or> d > 5 * time_Minute then 90 * time_Second else d)"

definition spec_invalid :: "SandboxSpec \<Rightarrow> bool" where
  "spec_invalid spec =
     (\<not> safeIdentifier (sp_DrillID spec) \<or> float_le (sp_CPUs spec) 0 \<or> float_gt (sp_CPUs spec) 4 \<or>
      sp_MemoryBytes spec < 128 * 1024 * 1024 \<or> sp_MemoryBytes spec > 8 * 1024 * 1024 * 1024)"

definition base_name :: "SandboxSpec \<Rightarrow> string \<Rightarrow> string" where
  "base_name spec uuid =
     ''restoreguard-'' @ sp_DrillID spec @ ''-'' @ take 12 (filter (\<lambda>c. c \<noteq> CHR ''-'') uuid)"

definition await_ready :: "env \<Rightarrow> SandboxSpec \<Rightarrow> string \<Rightarrow> string \<Rightarrow> string \<Rightarrow> Sandbox result program" where
  "await_ready e spec container network volume = do {
     created \<leftarrow> clock_Now e;
     r \<leftarrow> ready_loop e container (nat (ready_timeout (sp_Timeout spec) div time_Second));
     case r of
       Some er \<Rightarrow> do {
         cleanup e container network volume;
         State_Monad.return (Inl (Wrapped ''sandbox readiness'' er))
       }
     | None \<Rightarrow> do {
         ready \<leftarrow> clock_Now e;
         sid \<leftarrow> uuid_NewString e;
         State_Monad.return (Inr \<lparr>sx_ID = sid, sx_ContainerName = container, sx_NetworkName = network,
           sx_VolumeName = volume, sx_Host = container, sx_Port = 5432, sx_CreatedAt = created,
           sx_ReadyAt = ready\<rparr>)
       }
   }"

definition sandbox_Create :: "env \<Rightarrow> DockerSandboxExecutor \<Rightarrow> SandboxSpec \<Rightarrow> Sandbox result program" where
  "sandbox_Create e ex spec =
     (if sp_Image spec \<noteq> de_allowedImage ex
      then State_Monad.return (Inl (Errorf ''image is not allowlisted''))
      else if spec_invalid spec
      then State_Monad.return (Inl (Errorf ''invalid sandbox specification''))
      else do {
        uuid \<leftarrow> uuid_NewString e;
        let base = base_name spec uuid;
        let network = base @ ''-net'';
        let volume = base @ ''-data'';
        let container = base @ ''-pg'';
        (_, err) \<leftarrow> docker e (network_create network);
        case err of
          Some er \<Rightarrow> State_Monad.return (Inl (Wrapped ''create network'' er))
        | None \<Rightarrow> do {
            (_, err) \<leftarrow> docker e (volume_create volume);
            case err of
              Some er \<Rightarrow> do {
                cleanup e container network volume;
                State_Monad.return (Inl (Wrapped ''create volume'' er))
              }
            | None \<Rightarrow> do {
                (_, err) \<leftarrow> docker e (run_args spec container network volume);
                case err of
                  Some er \<Rightarrow> do {
                    cleanup e container network volume;
                    State_Monad.return (Inl (Wrapped ''create container'' er))
                  }
                | None \<Rightarrow> await_ready e spec container network volume
              }
          }
      })"

definition unmanaged :: "string \<Rightarrow> bool" where
  "unmanaged value = (value \<noteq> [] \<and> \<not> HasPrefix value ''restoreguard-'')"

text \<open>One removal of \<open>Destroy\<close>: the errors it adds.\<close>

definition remove_resource :: "env \<Rightarrow> string \<Rightarrow> (string \<Rightarrow> string list) \<Rightarrow> string \<Rightarrow> string \<Rightarrow> string list program" where
  "remove_resource e name cmd absent label =
     (if name \<noteq> [] then do {
        (out, err) \<leftarrow> docker e (cmd name);
        State_Monad.return (case err of
          None \<Rightarrow> []
        | Some er \<Rightarrow> if Contains out absent then [] else [label @ error_string er])
      }
      else State_Monad.return [])"

definition Destroy :: "env \<Rightarrow> Sandbox \<Rightarrow> go_error option program" where
  "Destroy e s =
     (if list_ex unmanaged [sx_ContainerName s, sx_NetworkName s, sx_VolumeName s]
      then State_Monad.return (Some (Errorf ''refusing to remove unmanaged Docker resource''))
      else do {
        e1 \<leftarrow> remove_resource e (sx_ContainerName s) rm_container ''No such container'' ''container: '';
        e2 \<leftarrow> remove_resource e (sx_NetworkName s) rm_network ''not found'' ''network: '';
        e3 \<leftarrow> remove_resource e (sx_VolumeName s) rm_volume ''no such volume'' ''volume: '';
        let errs = e1 @ e2 @ e3;
        State_Monad.return (if length errs > 0 then Some (Errorf (strings_Join errs ''; '')) else None)
      })"

text \<open>A typed command inside the sandbox's container.\<close>

definition in_sandbox :: "env \<Rightarrow> Sandbox \<Rightarrow> (string \<Rightarrow> string list) \<Rightarrow> string \<Rightarrow> go_error option program" where
  "in_sandbox e s cmd what =
     (if \<not> HasPrefix (sx_ContainerName s) ''restoreguard-''
      then State_Monad.return (Some (Errorf ''unmanaged sandbox''))
      else do {
        (_, err) \<leftarrow> docker e (cmd (sx_ContainerName s));
        State_Monad.return (map_option (Wrapped what) err)
      })"

definition copy_cmd :: "string \<Rightarrow> string \<Rightarrow> string list" where
  "copy_cmd localPath container = [''cp'', localPath, container @ '':/tmp/restoreguard-backup.sql'']"

definition restore_cmd :: "string \<Rightarrow> string list" where
  "restore_cmd container = [''exec'', container, ''psql'', ''-U'', ''postgres'', ''-d'', ''recovery'',
     ''-v'', ''ON_ERROR_STOP=1'', ''-f'', ''/tmp/restoreguard-backup.sql'']"

definition connect_cmd :: "string \<Rightarrow> string list" where
  "connect_cmd container = [''exec'', container, ''psql'', ''-U'', ''postgres'', ''-d'', ''recovery'',
     ''-v'', ''ON_ERROR_STOP=1'', ''-Atc'', ''SELECT 1'']"

definition CopyPostgresBackup :: "env \<Rightarrow> Sandbox \<Rightarrow> string \<Rightarrow> go_error option program" where
  "CopyPostgresBackup e s localPath = in_sandbox e s (copy_cmd localPath) ''copy PostgreSQL backup''"

definition RestorePostgresPlain :: "env \<Rightarrow> Sandbox \<Rightarrow> go_error option program" where
  "RestorePostgresPlain e s = in_sandbox e s restore_cmd ''restore PostgreSQL plain dump''"

definition ValidatePostgresConnectivity :: "env \<Rightarrow> Sandbox \<Rightarrow> go_error option program" where
  "ValidatePostgresConnectivity e s = in_sandbox e s connect_cmd ''validate PostgreSQL connectivity''"



section \<open>Frames\<close>

text \<open>The executor issues commands and reads clocks; nothing else of the world changes.\<close>

definition docker_only :: "world \<Rightarrow> world \<Rightarrow> bool" where
  "docker_only w0 w = (w\<lparr>w_docker := w_docker w0, w_step := w_step w0\<rparr> = w0)"

lemma docker_only_step_free [simp]: "step_free (docker_only w0)"
  by (auto simp: step_free_def docker_only_def)

lemma docker_only_refl [simp]: "docker_only w w"
  by (simp add: docker_only_def)

lemma keeps_docker_only [keeps_intros]: "keeps (docker_only w0) (docker e args)"
  by (auto simp: docker_def keeps_def hoare_def docker_only_def)

lemmas keeps_calls_docker [keeps_intros] =
  keeps_tick [OF docker_only_step_free] keeps_call [OF docker_only_step_free]
  keeps_clock_Now [OF docker_only_step_free] keeps_uuid [OF docker_only_step_free]

lemma keeps_cleanup [keeps_intros]: "keeps (docker_only w0) (cleanup e c n v)"
  unfolding cleanup_def by (intro keeps_intros)

lemma keeps_case_nat [keeps_intros]:
  "keeps I m \<Longrightarrow> (\<And>k. r = Suc k \<Longrightarrow> keeps I (f k)) \<Longrightarrow> keeps I (case r of 0 \<Rightarrow> m | Suc k \<Rightarrow> f k)"
  by (cases r) auto

lemma keeps_ready_loop [keeps_intros]: "keeps (docker_only w0) (ready_loop e c rounds)"
proof (induction rounds)
  case 0
  show ?case unfolding ready_loop.simps [of _ _ 0] ready_round_def by (intro keeps_intros) auto
next
  case (Suc rounds)
  then show ?case unfolding ready_loop.simps [of _ _ "Suc rounds"] ready_round_def by (intro keeps_intros) auto
qed

lemma keeps_sandbox [keeps_intros]:
  "keeps (docker_only w0) (sandbox_Create e ex spec)"
  "keeps (docker_only w0) (Destroy e s)"
  "keeps (docker_only w0) (CopyPostgresBackup e s path)"
  "keeps (docker_only w0) (RestorePostgresPlain e s)"
  "keeps (docker_only w0) (ValidatePostgresConnectivity e s)"
  unfolding sandbox_Create_def await_ready_def Destroy_def remove_resource_def CopyPostgresBackup_def
    RestorePostgresPlain_def ValidatePostgresConnectivity_def in_sandbox_def Let_def
  by (intro keeps_intros)+


section \<open>The commands of a run\<close>

lemma run_docker [simp]:
  "run_state (docker e args) w =
     (runner_at e (w_step w), w\<lparr>w_step := Suc (w_step w), w_docker := w_docker w @ [(args, runner_at e (w_step w))]\<rparr>)"
  by (simp add: docker_def)

lemma run_clock [simp]: "run_state (clock_Now e) w = (clock_at e (w_step w), w\<lparr>w_step := Suc (w_step w)\<rparr>)"
  by (simp add: clock_Now_def)

lemma run_uuid [simp]: "run_state (uuid_NewString e) w = (uuid_at e (w_step w), w\<lparr>w_step := Suc (w_step w)\<rparr>)"
  by (simp add: uuid_NewString_def)

text \<open>What a list of commands, with their answers, does to the resources of the host: the resource a command
  creates, the command that removes one, and the resources that no later command removes.\<close>

datatype resource = Container string | Network string | Volume string

fun option_value :: "string \<Rightarrow> string list \<Rightarrow> string option" where
  "option_value flag (a # b # args) = (if a = flag then Some b else option_value flag (b # args))"
| "option_value flag _ = None"

definition creation :: "string list \<Rightarrow> resource option" where
  "creation cmd =
     (if take 2 cmd = [''network'', ''create''] then Some (Network (last cmd))
      else if take 2 cmd = [''volume'', ''create''] then Some (Volume (last cmd))
      else if take 1 cmd = [''run''] then map_option Container (option_value ''--name'' cmd)
      else None)"

definition removal :: "resource \<Rightarrow> string list" where
  "removal x =
     (case x of
        Container c \<Rightarrow> [''rm'', ''-f'', c]
      | Network n \<Rightarrow> [''network'', ''rm'', n]
      | Volume v \<Rightarrow> [''volume'', ''rm'', v])"

fun left_over :: "docker_call list \<Rightarrow> resource list" where
  "left_over [] = []"
| "left_over ((cmd, answer) # calls) =
     (case creation cmd of
        None \<Rightarrow> left_over calls
      | Some x \<Rightarrow> if removal x \<in> set (map fst calls) then left_over calls else x # left_over calls)"

lemma creation_simps [simp]:
  "creation (network_create n) = Some (Network n)"
  "creation (volume_create v) = Some (Volume v)"
  "creation (run_args spec c n v) = Some (Container c)"
  "creation (logs_cmd c) = None" "creation (ready_cmd c) = None" "creation (copy_cmd path c) = None"
  "creation (restore_cmd c) = None" "creation (connect_cmd c) = None"
  "creation (rm_container c) = None" "creation (rm_network n) = None" "creation (rm_volume v) = None"
  "creation (removal x) = None"
  by (simp_all add: creation_def network_create_def volume_create_def run_args_def managed_label_def logs_cmd_def
      ready_cmd_def copy_cmd_def restore_cmd_def connect_cmd_def rm_container_def rm_network_def rm_volume_def
      removal_def split: resource.splits)

lemma left_over_none: "\<forall>cmd \<in> fst ` set calls. creation cmd = None \<Longrightarrow> left_over calls = []"
  by (induction calls) auto

lemma left_over_removed:
  assumes "\<forall>cmd \<in> fst ` set mid. \<forall>x. creation cmd = Some x \<longrightarrow> removal x \<in> fst ` set rem"
    and "\<forall>cmd \<in> fst ` set rem. creation cmd = None"
  shows "left_over (mid @ rem) = []"
  using assms(1)
  by (induction mid) (auto simp: left_over_none [OF assms(2)] split: option.splits)

definition removal_cmds :: "string \<Rightarrow> string \<Rightarrow> string \<Rightarrow> string list list" where
  "removal_cmds c n v = [rm_container c, rm_network n, rm_volume v]"

lemma removal_cmds_removal: "removal_cmds c n v = [removal (Container c), removal (Network n), removal (Volume v)]"
  by (simp add: removal_cmds_def removal_def rm_container_def rm_network_def rm_volume_def)

definition removal_calls :: "env \<Rightarrow> nat \<Rightarrow> string \<Rightarrow> string \<Rightarrow> string \<Rightarrow> docker_call list" where
  "removal_calls e k c n v =
     [(rm_container c, runner_at e k), (rm_network n, runner_at e (Suc k)), (rm_volume v, runner_at e (Suc (Suc k)))]"

lemma removal_calls_fst [simp]: "map fst (removal_calls e k c n v) = removal_cmds c n v"
  by (simp add: removal_calls_def removal_cmds_def)

lemma run_cleanup [simp]:
  "run_state (cleanup e c n v) w =
     ((), w\<lparr>w_step := w_step w + 3, w_docker := w_docker w @ removal_calls e (w_step w) c n v\<rparr>)"
  by (simp add: cleanup_def removal_calls_def)

text \<open>The readiness loop only inspects the container. When it reports readiness, its last two commands were
  answered without an error, and the log contained the marker.\<close>

definition probe :: "string \<Rightarrow> string list \<Rightarrow> bool" where
  "probe c cmd = (cmd = logs_cmd c \<or> cmd = ready_cmd c)"

definition seen_ready :: "string \<Rightarrow> docker_call list \<Rightarrow> bool" where
  "seen_ready c calls =
     (\<exists>pre logs out. calls = pre @ [(logs_cmd c, logs, None), (ready_cmd c, out, None)] \<and> Contains logs ready_marker)"

lemma seen_ready_append: "seen_ready c calls \<Longrightarrow> seen_ready c (pre @ calls)"
  unfolding seen_ready_def by (metis append.assoc)

lemma run_ready_round:
  "\<exists>cs. w_docker (snd (run_state (ready_round e c) w)) = w_docker w @ cs \<and> list_all (probe c) (map fst cs) \<and>
     (fst (run_state (ready_round e c) w) \<longrightarrow> seen_ready c cs)"
  by (auto simp: ready_round_def probe_def seen_ready_def split: prod.splits)

lemma run_ready_loop:
  "\<exists>cs. w_docker (snd (run_state (ready_loop e c rounds) w)) = w_docker w @ cs \<and> list_all (probe c) (map fst cs) \<and>
     (fst (run_state (ready_loop e c rounds) w) = None \<longrightarrow> seen_ready c cs)"
proof (induction rounds arbitrary: w)
  case 0
  obtain b w1 where rr: "run_state (ready_round e c) w = (b, w1)" by fastforce
  show ?case
    using run_ready_round [of e c w] rr by (auto simp: ready_loop.simps [of _ _ 0])
next
  case (Suc rounds)
  obtain b w1 where rr: "run_state (ready_round e c) w = (b, w1)" by fastforce
  then obtain cs where cs: "w_docker w1 = w_docker w @ cs" "list_all (probe c) (map fst cs)" "b \<longrightarrow> seen_ready c cs"
    using run_ready_round [of e c w] by auto
  obtain ds where ds: "w_docker (snd (run_state (ready_loop e c rounds) (w1\<lparr>w_step := Suc (w_step w1)\<rparr>))) = w_docker w1 @ ds"
      "list_all (probe c) (map fst ds)"
      "fst (run_state (ready_loop e c rounds) (w1\<lparr>w_step := Suc (w_step w1)\<rparr>)) = None \<longrightarrow> seen_ready c ds"
    using Suc [of "w1\<lparr>w_step := Suc (w_step w1)\<rparr>"] by auto
  show ?case
  proof (cases "b \<or> ready_done_at e (w_step w1)")
    case True
    then show ?thesis using cs rr by (auto simp: ready_loop.simps [of _ _ "Suc rounds"])
  next
    case False
    then show ?thesis
      using cs ds rr
      by (auto simp: ready_loop.simps [of _ _ "Suc rounds"] seen_ready_append intro!: exI [of _ "cs @ ds"])
  qed
qed

text \<open>The commands of \<open>Create\<close> for each of its outcomes.\<close>

definition create_cmds :: "SandboxSpec \<Rightarrow> string \<Rightarrow> Sandbox result \<Rightarrow> docker_call list \<Rightarrow> bool" where
  "create_cmds spec base r cs =
     (let n = base @ ''-net''; v = base @ ''-data''; c = base @ ''-pg'' in
      case r of
        Inr s \<Rightarrow> sx_ContainerName s = c \<and> sx_NetworkName s = n \<and> sx_VolumeName s = v \<and>
          (\<exists>o1 o2 o3 ps. list_all (probe c) (map fst ps) \<and> seen_ready c ps \<and>
             cs = [(network_create n, o1, None), (volume_create v, o2, None), (run_args spec c n v, o3, None)] @ ps)
      | Inl _ \<Rightarrow>
          (\<exists>out er. cs = [(network_create n, out, Some er)]) \<or>
          map fst cs = [network_create n, volume_create v] @ removal_cmds c n v \<or>
          (\<exists>ps. list_all (probe c) ps \<and>
             map fst cs = [network_create n, volume_create v, run_args spec c n v] @ ps @ removal_cmds c n v))"

lemma run_await_ready:
  assumes "run_state (await_ready e spec c n v) w = (r, w')"
  shows "\<exists>ps. list_all (probe c) (map fst ps) \<and>
    (case r of
       Inr s \<Rightarrow> sx_ContainerName s = c \<and> sx_NetworkName s = n \<and> sx_VolumeName s = v \<and>
         seen_ready c ps \<and> w_docker w' = w_docker w @ ps
     | Inl _ \<Rightarrow> \<exists>k. w_docker w' = w_docker w @ ps @ removal_calls e k c n v)"
proof -
  let ?k = "nat (ready_timeout (sp_Timeout spec) div time_Second)"
  obtain r1 w1 where loop: "run_state (ready_loop e c ?k) (w\<lparr>w_step := Suc (w_step w)\<rparr>) = (r1, w1)" by fastforce
  obtain ps where "w_docker w1 = w_docker w @ ps" "list_all (probe c) (map fst ps)" "r1 = None \<longrightarrow> seen_ready c ps"
    using run_ready_loop [of e c ?k "w\<lparr>w_step := Suc (w_step w)\<rparr>"] loop by auto
  then show ?thesis
    using assms loop by (cases r1) (auto simp: await_ready_def intro!: exI [of _ ps])
qed

lemma run_sandbox_Create:
  assumes "sp_Image spec = de_allowedImage ex" and "\<not> spec_invalid spec"
    and "run_state (sandbox_Create e ex spec) w = (r, w')"
  shows "\<exists>cs. w_docker w' = w_docker w @ cs \<and> create_cmds spec (base_name spec (uuid_at e (w_step w))) r cs"
proof -
  define base where "base = base_name spec (uuid_at e (w_step w))"
  let ?n = "base @ ''-net''" and ?v = "base @ ''-data''" and ?c = "base @ ''-pg''"
  let ?k = "w_step w"
  let ?call = "\<lambda>i cmd. (cmd, runner_at e (?k + i))"
  let ?w3 = "w\<lparr>w_step := ?k + 4, w_docker := w_docker w @
    [?call 1 (network_create ?n), ?call 2 (volume_create ?v), ?call 3 (run_args spec ?c ?n ?v)]\<rparr>"
  have answer: "runner_at e i = (fst (runner_at e i), snd (runner_at e i))" for i by simp
  consider er where "snd (runner_at e (?k + 1)) = Some er"
    | er where "snd (runner_at e (?k + 1)) = None" "snd (runner_at e (?k + 2)) = Some er"
    | er where "snd (runner_at e (?k + 1)) = None" "snd (runner_at e (?k + 2)) = None" "snd (runner_at e (?k + 3)) = Some er"
    | "snd (runner_at e (?k + 1)) = None" "snd (runner_at e (?k + 2)) = None" "snd (runner_at e (?k + 3)) = None"
    by (metis not_None_eq)
  then show ?thesis
  proof cases
    case (1 er)
    then have "r = Inl (Wrapped ''create network'' er) \<and> w_docker w' = w_docker w @ [?call 1 (network_create ?n)]"
      using assms by (auto simp: sandbox_Create_def Let_def base_def split: prod.splits)
    with 1 show ?thesis using answer [of "?k + 1"] by (auto simp: create_cmds_def Let_def base_def)
  next
    case (2 er)
    then have "r = Inl (Wrapped ''create volume'' er) \<and>
        w_docker w' = w_docker w @ [?call 1 (network_create ?n), ?call 2 (volume_create ?v)] @ removal_calls e (?k + 3) ?c ?n ?v"
      using assms by (auto simp: sandbox_Create_def Let_def base_def eval_nat_numeral split: prod.splits)
    then show ?thesis by (simp add: create_cmds_def Let_def base_def)
  next
    case (3 er)
    then have "r = Inl (Wrapped ''create container'' er) \<and> w_docker w' = w_docker w @
        [?call 1 (network_create ?n), ?call 2 (volume_create ?v), ?call 3 (run_args spec ?c ?n ?v)] @ removal_calls e (?k + 4) ?c ?n ?v"
      using assms by (auto simp: sandbox_Create_def Let_def base_def eval_nat_numeral split: prod.splits)
    then show ?thesis
      by (auto simp: create_cmds_def Let_def base_def intro: exI [of _ "[]"])
  next
    case 4
    then have "run_state (await_ready e spec ?c ?n ?v) ?w3 = (r, w')"
      using assms by (auto simp: sandbox_Create_def Let_def base_def eval_nat_numeral split: prod.splits)
    from run_await_ready [OF this] obtain ps where ps: "list_all (probe ?c) (map fst ps)"
      "case r of
       Inr s \<Rightarrow> sx_ContainerName s = ?c \<and> sx_NetworkName s = ?n \<and> sx_VolumeName s = ?v \<and>
         seen_ready ?c ps \<and> w_docker w' = w_docker ?w3 @ ps
     | Inl _ \<Rightarrow> \<exists>k. w_docker w' = w_docker ?w3 @ ps @ removal_calls e k ?c ?n ?v" by blast
    show ?thesis
    proof (cases r)
      case (Inl er)
      with ps show ?thesis by (auto simp: create_cmds_def Let_def base_def intro!: exI [of _ "map fst ps"])
    next
      case (Inr s)
      with ps 4 show ?thesis
        using answer [of "?k + 1"] answer [of "?k + 2"] answer [of "?k + 3"]
        by (auto simp: create_cmds_def Let_def base_def intro!: exI [of _ ps])
    qed
  qed
qed

lemma run_sandbox_Create_refused:
  assumes "sp_Image spec \<noteq> de_allowedImage ex \<or> spec_invalid spec"
  shows "\<exists>er. run_state (sandbox_Create e ex spec) w = (Inl er, w)"
  using assms by (auto simp: sandbox_Create_def)

text \<open>The commands of a failing \<open>Create\<close> leave nothing, but for a network whose creation was answered with an
  error; those of a successful one leave the resources of the sandbox.\<close>

definition nothing_left :: "docker_call list \<Rightarrow> bool" where
  "nothing_left cs = (left_over cs = [] \<or> (\<exists>cmd n out er. cs = [(cmd, out, Some er)] \<and> creation cmd = Some (Network n)))"

lemma left_over_cmds:
  assumes "map fst cs = mid @ removal_cmds c n v"
    and "\<forall>cmd \<in> set mid. creation cmd \<in> {None, Some (Container c), Some (Network n), Some (Volume v)}"
  shows "left_over cs = []"
proof -
  obtain as bs where cs: "cs = as @ bs" and fst: "map fst as = mid" "map fst bs = removal_cmds c n v"
    using assms(1) by (metis map_eq_append_conv)
  have "fst ` set bs = {removal (Container c), removal (Network n), removal (Volume v)}"
    using fst(2) by (metis removal_cmds_removal list.set(1,2) list.set_map)
  moreover have "fst ` set as = set mid" using fst(1) by (metis list.set_map)
  ultimately show ?thesis
    unfolding cs using assms(2) by (intro left_over_removed) auto
qed

lemma probe_creation: "list_all (probe c) cmds \<Longrightarrow> cmd \<in> set cmds \<Longrightarrow> creation cmd = None"
  by (auto simp: list_all_iff probe_def)

lemma probe_removal: "list_all (probe c) cmds \<Longrightarrow> removal x \<notin> set cmds"
  by (auto simp: list_all_iff probe_def removal_def logs_cmd_def ready_cmd_def split: resource.splits)

lemma create_left_over:
  assumes "create_cmds spec base r cs"
  shows "case r of
      Inl _ \<Rightarrow> nothing_left cs
    | Inr s \<Rightarrow> left_over cs = [Network (sx_NetworkName s), Volume (sx_VolumeName s), Container (sx_ContainerName s)]"
proof (cases r)
  case (Inl er)
  let ?n = "base @ ''-net''" and ?v = "base @ ''-data''" and ?c = "base @ ''-pg''"
  have ended: "nothing_left cs" if "map fst cs = mid @ removal_cmds ?c ?n ?v"
    "\<forall>cmd \<in> set mid. creation cmd \<in> {None, Some (Container ?c), Some (Network ?n), Some (Volume ?v)}" for mid
    using left_over_cmds [OF that] by (simp add: nothing_left_def)
  from assms Inl consider
      out er where "cs = [(network_create ?n, out, Some er)]"
    | "map fst cs = [network_create ?n, volume_create ?v] @ removal_cmds ?c ?n ?v"
    | ps where "list_all (probe ?c) ps"
        "map fst cs = ([network_create ?n, volume_create ?v, run_args spec ?c ?n ?v] @ ps) @ removal_cmds ?c ?n ?v"
    by (auto simp: create_cmds_def Let_def)
  then have "nothing_left cs"
  proof cases
    case (1 out er)
    then show ?thesis by (simp add: nothing_left_def)
  next
    case 2
    then show ?thesis by (rule ended) simp
  next
    case (3 ps)
    from 3(2) show ?thesis by (rule ended) (use probe_creation [OF 3(1)] in auto)
  qed
  with Inl show ?thesis by simp
next
  case (Inr s)
  let ?n = "sx_NetworkName s" and ?v = "sx_VolumeName s" and ?c = "sx_ContainerName s"
  have off: "removal x \<noteq> network_create n" "removal x \<noteq> volume_create n" "removal x \<noteq> run_args sp c n v" for n c v sp x
    by (auto simp: removal_def network_create_def volume_create_def run_args_def split: resource.splits)
  obtain o1 o2 o3 ps where ps: "list_all (probe ?c) (map fst ps)"
    "cs = [(network_create ?n, o1, None), (volume_create ?v, o2, None), (run_args spec ?c ?n ?v, o3, None)] @ ps"
    using assms Inr by (auto simp: create_cmds_def Let_def)
  have "left_over ps = []" by (rule left_over_none) (use probe_creation [OF ps(1)] in force)
  with probe_removal [OF ps(1)] show ?thesis by (simp add: Inr ps(2) off)
qed


section \<open>The executor interface as a contract\<close>

definition managed_sandbox :: "Sandbox \<Rightarrow> bool" where
  "managed_sandbox s =
     list_all (\<lambda>name. HasPrefix name ''restoreguard-'') [sx_ContainerName s, sx_NetworkName s, sx_VolumeName s]"

definition sandbox_removal :: "Sandbox \<Rightarrow> string list list" where
  "sandbox_removal s = removal_cmds (sx_ContainerName s) (sx_NetworkName s) (sx_VolumeName s)"

text \<open>A removal counts as done when Docker reports success or that there is no such resource.\<close>

definition gone :: "string \<times> go_error option \<Rightarrow> string \<Rightarrow> bool" where
  "gone answer absent = (snd answer = None \<or> Contains (fst answer) absent)"

lemma managed_name: "HasPrefix name ''restoreguard-'' \<Longrightarrow> name \<noteq> [] \<and> \<not> unmanaged name"
  by (auto simp: HasPrefix_def unmanaged_def)

lemma run_remove_resource:
  "run_state (remove_resource e name cmd absent label) w =
     (if name = [] then ([], w)
      else (if gone (runner_at e (w_step w)) absent then [] else [label @ error_string (the (snd (runner_at e (w_step w))))],
        w\<lparr>w_step := Suc (w_step w), w_docker := w_docker w @ [(cmd name, runner_at e (w_step w))]\<rparr>))"
  by (auto simp: remove_resource_def gone_def split: prod.splits option.splits)

text \<open>The commands of \<open>Destroy\<close>, each with the message that says that its resource does not exist.\<close>

definition destroy_cmds :: "Sandbox \<Rightarrow> (string list \<times> string) list" where
  "destroy_cmds s =
     (if sx_ContainerName s = [] then [] else [(rm_container (sx_ContainerName s), ''No such container'')]) @
     (if sx_NetworkName s = [] then [] else [(rm_network (sx_NetworkName s), ''not found'')]) @
     (if sx_VolumeName s = [] then [] else [(rm_volume (sx_VolumeName s), ''no such volume'')])"

lemma run_Destroy_any:
  assumes "\<not> list_ex unmanaged [sx_ContainerName s, sx_NetworkName s, sx_VolumeName s]"
  shows "\<exists>answers. length answers = length (destroy_cmds s) \<and>
    w_docker (snd (run_state (Destroy e s) w)) = w_docker w @ zip (map fst (destroy_cmds s)) answers \<and>
    (fst (run_state (Destroy e s) w) = None \<longleftrightarrow> list_all2 (\<lambda>a (cmd, absent). gone a absent) answers (destroy_cmds s))"
proof -
  let ?m = "length (destroy_cmds s)"
  have "w_docker (snd (run_state (Destroy e s) w)) =
      w_docker w @ zip (map fst (destroy_cmds s)) (map (\<lambda>i. runner_at e (w_step w + i)) [0..<?m]) \<and>
    (fst (run_state (Destroy e s) w) = None \<longleftrightarrow>
       list_all2 (\<lambda>a (cmd, absent). gone a absent) (map (\<lambda>i. runner_at e (w_step w + i)) [0..<?m]) (destroy_cmds s))"
    using assms
    by (auto simp: Destroy_def run_remove_resource destroy_cmds_def Let_def upt_rec)
  then show ?thesis
    by (intro exI [of _ "map (\<lambda>i. runner_at e (w_step w + i)) [0..<?m]"]) simp
qed

lemma destroy_cmds_managed: "managed_sandbox s \<Longrightarrow> map fst (destroy_cmds s) = sandbox_removal s"
  using managed_name by (auto simp: managed_sandbox_def destroy_cmds_def sandbox_removal_def removal_cmds_def)

lemma run_Destroy:
  assumes "managed_sandbox s"
  shows "\<exists>rem. w_docker (snd (run_state (Destroy e s) w)) = w_docker w @ rem \<and> map fst rem = sandbox_removal s"
proof -
  have "\<not> list_ex unmanaged [sx_ContainerName s, sx_NetworkName s, sx_VolumeName s]"
    using assms managed_name by (simp add: managed_sandbox_def)
  from run_Destroy_any [OF this, of e w] show ?thesis
    by (metis destroy_cmds_managed [OF assms] length_map map_fst_zip)
qed

lemma create_managed: "create_cmds spec (base_name spec u) (Inr s) cs \<Longrightarrow> managed_sandbox s"
  by (auto simp: create_cmds_def Let_def managed_sandbox_def base_name_def HasPrefix_def)

locale sandbox_executor =
  fixes Create :: "env \<Rightarrow> 'x \<Rightarrow> SandboxSpec \<Rightarrow> 's result program"
    and Destroy :: "env \<Rightarrow> 's \<Rightarrow> go_error option program"
    and managed :: "'s \<Rightarrow> bool"
    and removal :: "'s \<Rightarrow> string list list"
  assumes create_ok: "run_state (Create e ex spec) w = (Inr s, w') \<Longrightarrow> managed s"
    and destroy_removes: "managed s \<Longrightarrow>
      \<exists>rem. w_docker (snd (run_state (Destroy e s) w)) = w_docker w @ rem \<and> map fst rem = removal s"
    and create_frame: "keeps (docker_only w0) (Create e ex spec)"
    and destroy_frame: "keeps (docker_only w0) (Destroy e s)"
begin

text \<open>Whatever a client does with a sandbox it created, a final \<open>Destroy\<close> issues the removal of
  all its resources as the last commands.\<close>

lemma create_use_destroy:
  assumes "run_state (Create e ex spec) w = (Inr s, w1)"
  shows "suffix (removal s) (map fst (w_docker (snd (run_state (m \<bind> (\<lambda>_. Destroy e' s)) w1))))"
proof -
  obtain a w2 where "run_state m w1 = (a, w2)" by fastforce
  then show ?thesis using destroy_removes [OF create_ok [OF assms], of e' w2] by (auto simp: suffix_def)
qed

end

interpretation docker_executor: sandbox_executor sandbox_Create Destroy managed_sandbox sandbox_removal
proof unfold_locales
  fix e ex spec w s w'
  assume run: "run_state (sandbox_Create e ex spec) w = (Inr s, w')"
  then have "sp_Image spec = de_allowedImage ex" "\<not> spec_invalid spec"
    using run_sandbox_Create_refused [of spec ex e w] by auto
  from run_sandbox_Create [OF this run] show "managed_sandbox s" using create_managed by blast
qed (simp_all add: run_Destroy keeps_sandbox)


section \<open>Properties\<close>

text \<open>The limits a specification must respect; \<open>NaN\<close> slips through both comparisons.\<close>

lemma spec_valid_limits:
  "\<not> spec_invalid spec \<longleftrightarrow>
     safeIdentifier (sp_DrillID spec) \<and>
     (case sp_CPUs spec of Finite c \<Rightarrow> 0 < c \<and> c \<le> 4 | NaN \<Rightarrow> True | _ \<Rightarrow> False) \<and>
     134217728 \<le> sp_MemoryBytes spec \<and> sp_MemoryBytes spec \<le> 8589934592"
  by (auto simp: spec_invalid_def float_le_def float_gt_def split: go_float.splits)

definition example_spec :: SandboxSpec where
  "example_spec = \<lparr>sp_DrillID = ''d1'', sp_OrganizationID = ''o1'', sp_Image = ''postgres:17'',
     sp_CPUs = Finite 1, sp_MemoryBytes = 536870912, sp_Timeout = 2 * time_Minute\<rparr>"

definition example_executor :: DockerSandboxExecutor where
  "example_executor = \<lparr>de_allowedImage = ''postgres:17''\<rparr>"

text \<open>The commands word by word.\<close>

lemmas command_words = network_create_def volume_create_def run_args_def managed_label_def logs_cmd_def ready_cmd_def
  rm_container_def rm_network_def rm_volume_def

lemma create_commands:
  assumes "create_cmds spec base r cs"
  shows "fst ` set cs \<subseteq>
      {network_create (base @ ''-net''), volume_create (base @ ''-data''),
       run_args spec (base @ ''-pg'') (base @ ''-net'') (base @ ''-data''),
       logs_cmd (base @ ''-pg''), ready_cmd (base @ ''-pg''),
       rm_container (base @ ''-pg''), rm_network (base @ ''-net''), rm_volume (base @ ''-data'')}"
proof -
  have words: "fst ` set cs = set (map fst cs)" by simp
  have sub: "list_all (probe c) ps \<Longrightarrow> set ps \<subseteq> {logs_cmd c, ready_cmd c}" for c ps
    by (auto simp: list_all_iff probe_def)
  show ?thesis
  proof (cases r)
    case (Inl er)
    then consider
        out er where "map fst cs = [network_create (base @ ''-net'')]"
      | "map fst cs = [network_create (base @ ''-net''), volume_create (base @ ''-data'')] @
          removal_cmds (base @ ''-pg'') (base @ ''-net'') (base @ ''-data'')"
      | ps where "list_all (probe (base @ ''-pg'')) ps"
          "map fst cs = [network_create (base @ ''-net''), volume_create (base @ ''-data''),
             run_args spec (base @ ''-pg'') (base @ ''-net'') (base @ ''-data'')] @ ps @
           removal_cmds (base @ ''-pg'') (base @ ''-net'') (base @ ''-data'')"
      using assms by (auto simp: create_cmds_def Let_def)
    then show ?thesis
    proof cases
      case (3 ps)
      from sub [OF 3(1)] show ?thesis unfolding words by (simp add: 3(2) removal_cmds_def) blast
    qed (simp_all add: words removal_cmds_def)
  next
    case (Inr s)
    then obtain o1 o2 o3 ps where ps: "list_all (probe (base @ ''-pg'')) (map fst ps)"
      "cs = [(network_create (base @ ''-net''), o1, None), (volume_create (base @ ''-data''), o2, None),
         (run_args spec (base @ ''-pg'') (base @ ''-net'') (base @ ''-data''), o3, None)] @ ps"
      using assms by (auto simp: create_cmds_def Let_def)
    from sub [OF ps(1)] show ?thesis unfolding words by (simp add: ps(2)) blast
  qed
qed

lemmas create_words = create_commands [unfolded command_words, simplified]

lemma create_success:
  assumes "create_cmds spec base (Inr s) cs"
  shows "(\<forall>(cmd, out, err) \<in> set cs. creation cmd \<noteq> None \<longrightarrow> err = None) \<and> seen_ready (sx_ContainerName s) cs"
proof -
  obtain o1 o2 o3 ps where ps: "list_all (probe (sx_ContainerName s)) (map fst ps)" "seen_ready (sx_ContainerName s) ps"
    "cs = [(network_create (sx_NetworkName s), o1, None), (volume_create (sx_VolumeName s), o2, None),
       (run_args spec (sx_ContainerName s) (sx_NetworkName s) (sx_VolumeName s), o3, None)] @ ps"
    using assms by (auto simp: create_cmds_def Let_def)
  have "creation cmd = None" if "(cmd, answer) \<in> set ps" for cmd answer
    using probe_creation [OF ps(1)] that by force
  with ps(2) show ?thesis unfolding ps(3) by (auto intro: seen_ready_append simp del: append_Cons)
qed

lemmas seen_ready_words = seen_ready_def [unfolded logs_cmd_def ready_cmd_def ready_marker_def]

lemma destroy_words:
  assumes "\<not> list_ex unmanaged [sx_ContainerName s, sx_NetworkName s, sx_VolumeName s]"
  shows "\<exists>cs. w_docker (snd (run_state (Destroy e s) w)) = w_docker w @ cs \<and>
     map fst cs =
       (if sx_ContainerName s = [] then [] else [[''rm'', ''-f'', sx_ContainerName s]]) @
       (if sx_NetworkName s = [] then [] else [[''network'', ''rm'', sx_NetworkName s]]) @
       (if sx_VolumeName s = [] then [] else [[''volume'', ''rm'', sx_VolumeName s]]) \<and>
     (fst (run_state (Destroy e s) w) = None \<longleftrightarrow>
        list_all (\<lambda>(cmd, out, err). err = None \<or> Contains out
          (if hd cmd = ''rm'' then ''No such container'' else if hd cmd = ''network'' then ''not found'' else ''no such volume'')) cs)"
proof -
  obtain answers where a: "length answers = length (destroy_cmds s)"
    "w_docker (snd (run_state (Destroy e s) w)) = w_docker w @ zip (map fst (destroy_cmds s)) answers"
    "fst (run_state (Destroy e s) w) = None \<longleftrightarrow> list_all2 (\<lambda>a (cmd, absent). gone a absent) answers (destroy_cmds s)"
    using run_Destroy_any [OF assms] by blast
  have "list_all2 (\<lambda>a (cmd, absent). gone a absent) answers (destroy_cmds s) \<longleftrightarrow>
      list_all (\<lambda>(cmd, out, err). err = None \<or> Contains out
          (if hd cmd = ''rm'' then ''No such container'' else if hd cmd = ''network'' then ''not found'' else ''no such volume''))
        (zip (map fst (destroy_cmds s)) answers)"
    using a(1) by (auto simp: destroy_cmds_def gone_def length_Suc_conv rm_container_def rm_network_def rm_volume_def
        split: if_splits)
  moreover have "map fst (zip (map fst (destroy_cmds s)) answers) = map fst (destroy_cmds s)"
    using a(1) by (simp add: map_fst_zip)
  moreover have "map fst (destroy_cmds s) =
       (if sx_ContainerName s = [] then [] else [[''rm'', ''-f'', sx_ContainerName s]]) @
       (if sx_NetworkName s = [] then [] else [[''network'', ''rm'', sx_NetworkName s]]) @
       (if sx_VolumeName s = [] then [] else [[''volume'', ''rm'', sx_VolumeName s]])"
    by (simp add: destroy_cmds_def rm_container_def rm_network_def rm_volume_def)
  ultimately show ?thesis
    using a(2,3) by (intro exI [of _ "zip (map fst (destroy_cmds s)) answers"]) simp
qed

text \<open>
  C18. Isolation: whatever Docker answers, the commands \<open>Create\<close> issues are, word by word, the creation of an
  internal labelled network and a labelled volume, the start of one detached container without any
  privilege or host mount - on that network, with the limits of the specification, at most 256 processes,
  a read-only root and that volume as its only mount - inspections of that container and removals of these
  three resources, all named \<open>restoreguard-\<close> after the drill. No command is issued at all unless the image is
  the allowlisted one, the drill's identifier is safe, the memory limit is in range and the processor limit
  is in range or not a number at all.
\<close>

theorem sandbox_isolation:
  assumes "run_state (sandbox_Create e ex spec) w = (r, w')"
  shows "\<exists>cs base. w_docker w' = w_docker w @ cs \<and> HasPrefix base (''restoreguard-'' @ sp_DrillID spec @ ''-'') \<and>
    fst ` set cs \<subseteq>
      {[''network'', ''create'', ''--internal'', ''--label'', ''com.restoreguard.managed=true'',
        ''--label'', ''com.restoreguard.purpose=restore-sandbox'', base @ ''-net''],
       [''volume'', ''create'', ''--label'', ''com.restoreguard.managed=true'',
        ''--label'', ''com.restoreguard.purpose=restore-sandbox'', base @ ''-data''],
       [''run'', ''-d'', ''--name'', base @ ''-pg'', ''--network'', base @ ''-net'',
        ''--cpus'', format_float2 (sp_CPUs spec), ''--memory'', format_int (sp_MemoryBytes spec),
        ''--pids-limit'', ''256'', ''--read-only'', ''--tmpfs'', ''/tmp:rw,noexec,nosuid,size=64m'',
        ''--tmpfs'', ''/var/run/postgresql:rw,nosuid,nodev,size=16m'',
        ''--mount'', ''type=volume,source='' @ base @ ''-data,target=/var/lib/postgresql/data'',
        ''--label'', ''com.restoreguard.managed=true'', ''--label'', ''com.restoreguard.purpose=restore-sandbox'',
        ''--label'', ''com.restoreguard.drill-id='' @ sp_DrillID spec,
        ''-e'', ''POSTGRES_PASSWORD=restoreguard-sandbox-only'', ''-e'', ''POSTGRES_DB=recovery'', sp_Image spec],
       [''logs'', base @ ''-pg''],
       [''exec'', base @ ''-pg'', ''pg_isready'', ''-U'', ''postgres'', ''-d'', ''recovery''],
       [''rm'', ''-f'', base @ ''-pg''], [''network'', ''rm'', base @ ''-net''], [''volume'', ''rm'', base @ ''-data'']} \<and>
    (cs \<noteq> [] \<longrightarrow> sp_Image spec = de_allowedImage ex \<and> safeIdentifier (sp_DrillID spec) \<and>
       (case sp_CPUs spec of Finite c \<Rightarrow> 0 < c \<and> c \<le> 4 | NaN \<Rightarrow> True | _ \<Rightarrow> False) \<and>
       134217728 \<le> sp_MemoryBytes spec \<and> sp_MemoryBytes spec \<le> 8589934592)"
proof (cases "sp_Image spec \<noteq> de_allowedImage ex \<or> spec_invalid spec")
  case True
  then have "w_docker w' = w_docker w @ []"
    using assms run_sandbox_Create_refused [of spec ex e w] by auto
  moreover have "HasPrefix (''restoreguard-'' @ sp_DrillID spec @ ''-'') (''restoreguard-'' @ sp_DrillID spec @ ''-'')"
    by (simp add: HasPrefix_def)
  ultimately show ?thesis
    by (intro exI [of _ "[]"] exI [of _ "''restoreguard-'' @ sp_DrillID spec @ ''-''"]) simp
next
  case False
  let ?b = "base_name spec (uuid_at e (w_step w))"
  obtain cs where cs: "w_docker w' = w_docker w @ cs" "create_cmds spec ?b r cs"
    using run_sandbox_Create [OF _ _ assms] False by blast
  have "HasPrefix ?b (''restoreguard-'' @ sp_DrillID spec @ ''-'')"
    by (simp add: base_name_def HasPrefix_def)
  then show ?thesis
    using cs(1) create_words [OF cs(2)] False by (intro exI [of _ cs] exI [of _ ?b]) (simp add: spec_valid_limits)
qed

lemma example_spec_ok: "sp_Image example_spec = de_allowedImage example_executor" "\<not> spec_invalid example_spec"
  by code_simp+

theorem sandbox_isolation_witness:
  "\<exists>cmd base. cmd \<in> fst ` set (w_docker (snd (run_state (sandbox_Create calm example_executor example_spec) idle))) \<and>
     HasPrefix base ''restoreguard-d1-'' \<and>
     cmd = [''network'', ''create'', ''--internal'', ''--label'', ''com.restoreguard.managed=true'',
        ''--label'', ''com.restoreguard.purpose=restore-sandbox'', base @ ''-net'']"
proof -
  obtain r w' where run: "run_state (sandbox_Create calm example_executor example_spec) idle = (r, w')" by fastforce
  let ?c = "network_create (base_name example_spec (uuid_at calm (w_step idle)) @ ''-net'')"
  have net: "?c \<in> fst ` set (w_docker w')"
    using run_sandbox_Create [OF example_spec_ok run] by (force simp: create_cmds_def Let_def map_eq_Cons_conv split: sum.splits)
  have name: "''restoreguard-'' @ sp_DrillID example_spec @ ''-'' = ''restoreguard-d1-''"
    by (simp add: example_spec_def)
  obtain cs base where "w_docker w' = cs" "HasPrefix base ''restoreguard-d1-''"
    and sub: "fst ` set cs \<subseteq>
      {[''network'', ''create'', ''--internal'', ''--label'', ''com.restoreguard.managed=true'',
        ''--label'', ''com.restoreguard.purpose=restore-sandbox'', base @ ''-net''],
       [''volume'', ''create'', ''--label'', ''com.restoreguard.managed=true'',
        ''--label'', ''com.restoreguard.purpose=restore-sandbox'', base @ ''-data''],
       [''run'', ''-d'', ''--name'', base @ ''-pg'', ''--network'', base @ ''-net'',
        ''--cpus'', format_float2 (sp_CPUs example_spec), ''--memory'', format_int (sp_MemoryBytes example_spec),
        ''--pids-limit'', ''256'', ''--read-only'', ''--tmpfs'', ''/tmp:rw,noexec,nosuid,size=64m'',
        ''--tmpfs'', ''/var/run/postgresql:rw,nosuid,nodev,size=16m'',
        ''--mount'', ''type=volume,source='' @ base @ ''-data,target=/var/lib/postgresql/data'',
        ''--label'', ''com.restoreguard.managed=true'', ''--label'', ''com.restoreguard.purpose=restore-sandbox'',
        ''--label'', ''com.restoreguard.drill-id='' @ sp_DrillID example_spec,
        ''-e'', ''POSTGRES_PASSWORD=restoreguard-sandbox-only'', ''-e'', ''POSTGRES_DB=recovery'', sp_Image example_spec],
       [''logs'', base @ ''-pg''],
       [''exec'', base @ ''-pg'', ''pg_isready'', ''-U'', ''postgres'', ''-d'', ''recovery''],
       [''rm'', ''-f'', base @ ''-pg''], [''network'', ''rm'', base @ ''-net''], [''volume'', ''rm'', base @ ''-data'']}"
    using sandbox_isolation [OF run, unfolded name] by (auto simp del: insert_iff)
  then have "?c \<in> fst ` set cs" using net by simp
  with sub have "?c = [''network'', ''create'', ''--internal'', ''--label'', ''com.restoreguard.managed=true'',
        ''--label'', ''com.restoreguard.purpose=restore-sandbox'', base @ ''-net'']"
    by (auto simp: network_create_def managed_label_def)
  with net \<open>HasPrefix base ''restoreguard-d1-''\<close> show ?thesis
    unfolding run by (intro exI [of _ ?c] exI [of _ base]) simp
qed

text \<open>
  C17. No leak: when \<open>Create\<close> fails, every network, volume and container one of its commands created, or may
  have created, is removed by a later command; the only exception is a network whose creation Docker
  answered with an error, after which nothing more is issued. When it succeeds, exactly the three resources
  of the sandbox are left, each of their creations was answered without an error, and the last two
  commands were the reading of the container's log, whose answer contained the marker of the final
  start, and a \<open>pg_isready\<close> that succeeded.
\<close>

theorem sandbox_no_leak:
  assumes "run_state (sandbox_Create e ex spec) w = (r, w')"
  shows "\<exists>cs. w_docker w' = w_docker w @ cs \<and>
    (case r of
       Inl _ \<Rightarrow> left_over cs = [] \<or>
         (\<exists>cmd n out er. cs = [(cmd, out, Some er)] \<and> creation cmd = Some (Network n))
     | Inr s \<Rightarrow>
         left_over cs = [Network (sx_NetworkName s), Volume (sx_VolumeName s), Container (sx_ContainerName s)] \<and>
         (\<forall>(cmd, out, err) \<in> set cs. creation cmd \<noteq> None \<longrightarrow> err = None) \<and>
         (\<exists>pre logs out. cs = pre @
            [([''logs'', sx_ContainerName s], logs, None),
             ([''exec'', sx_ContainerName s, ''pg_isready'', ''-U'', ''postgres'', ''-d'', ''recovery''], out, None)] \<and>
            Contains logs ''PostgreSQL init process complete; ready for start up.''))"
proof (cases "sp_Image spec \<noteq> de_allowedImage ex \<or> spec_invalid spec")
  case True
  then show ?thesis using assms run_sandbox_Create_refused [of spec ex e w] by auto
next
  case False
  obtain cs where cs: "w_docker w' = w_docker w @ cs" "create_cmds spec (base_name spec (uuid_at e (w_step w))) r cs"
    using run_sandbox_Create [OF _ _ assms] False by blast
  show ?thesis
  proof (cases r)
    case (Inl er)
    then show ?thesis
      using cs(1) create_left_over [OF cs(2)] by (auto simp: nothing_left_def intro!: exI [of _ cs])
  next
    case (Inr s)
    then have "left_over cs = [Network (sx_NetworkName s), Volume (sx_VolumeName s), Container (sx_ContainerName s)]"
      using create_left_over [OF cs(2)] by simp
    then show ?thesis
      using cs Inr create_success [of spec _ s cs] by (intro exI [of _ cs]) (simp add: seen_ready_words)
  qed
qed

lemma calm_ready_loop: "run_state (ready_loop calm c k) w =
    (None, w\<lparr>w_step := w_step w + 2, w_docker := w_docker w @
       [(logs_cmd c, ready_marker, None), (ready_cmd c, ready_marker, None)]\<rparr>)"
proof -
  have "Contains ready_marker ready_marker" by code_simp
  then show ?thesis
    by (subst ready_loop.simps) (simp add: ready_round_def ready_marker_def)
qed

lemma calm_creates:
  assumes "sp_Image spec = de_allowedImage ex" and "\<not> spec_invalid spec"
  shows "\<exists>s w'. run_state (sandbox_Create calm ex spec) w = (Inr s, w')"
  using assms by (simp add: sandbox_Create_def await_ready_def calm_ready_loop Let_def)

theorem sandbox_no_leak_witness:
  "\<exists>s cs. fst (run_state (sandbox_Create calm example_executor example_spec) idle) = Inr s \<and>
    w_docker (snd (run_state (sandbox_Create calm example_executor example_spec) idle)) = cs \<and>
    left_over cs = [Network (sx_NetworkName s), Volume (sx_VolumeName s), Container (sx_ContainerName s)]"
proof -
  obtain r w' where run: "run_state (sandbox_Create calm example_executor example_spec) idle = (r, w')" by fastforce
  then obtain s where "r = Inr s" using calm_creates [OF example_spec_ok, of idle] by auto
  with sandbox_no_leak [OF run] run show ?thesis by auto
qed

text \<open>
  C19. \<open>Destroy\<close> never removes a resource the program does not manage: if one of the three names is neither
  empty nor starts with \<open>restoreguard-\<close>, it issues no command and reports an error. Otherwise, for each name
  that is not empty and in the order container, network, volume, it issues the removal of that resource
  and nothing else, and it reports success exactly when each removal was answered without an error or
  with the message that there is no such resource.
\<close>

theorem destroy_managed_only:
  "if \<exists>name \<in> {sx_ContainerName s, sx_NetworkName s, sx_VolumeName s}. name \<noteq> [] \<and> \<not> prefix ''restoreguard-'' name
   then run_state (Destroy e s) w = (Some (Errorf ''refusing to remove unmanaged Docker resource''), w)
   else \<exists>cs. w_docker (snd (run_state (Destroy e s) w)) = w_docker w @ cs \<and>
     map fst cs =
       (if sx_ContainerName s = [] then [] else [[''rm'', ''-f'', sx_ContainerName s]]) @
       (if sx_NetworkName s = [] then [] else [[''network'', ''rm'', sx_NetworkName s]]) @
       (if sx_VolumeName s = [] then [] else [[''volume'', ''rm'', sx_VolumeName s]]) \<and>
     (fst (run_state (Destroy e s) w) = None \<longleftrightarrow>
        list_all (\<lambda>(cmd, out, err). err = None \<or> Contains out
          (if hd cmd = ''rm'' then ''No such container'' else if hd cmd = ''network'' then ''not found'' else ''no such volume'')) cs)"
proof (cases "list_ex unmanaged [sx_ContainerName s, sx_NetworkName s, sx_VolumeName s]")
  case True
  then have "\<exists>name \<in> {sx_ContainerName s, sx_NetworkName s, sx_VolumeName s}. name \<noteq> [] \<and> \<not> prefix ''restoreguard-'' name"
    by (auto simp: unmanaged_def HasPrefix_prefix)
  with True show ?thesis by (simp add: Destroy_def)
next
  case False
  then have "\<not> (\<exists>name \<in> {sx_ContainerName s, sx_NetworkName s, sx_VolumeName s}. name \<noteq> [] \<and> \<not> prefix ''restoreguard-'' name)"
    by (auto simp: unmanaged_def HasPrefix_prefix)
  then show ?thesis using destroy_words [OF False, of e w] by (simp only: if_False)
qed

definition example_sandbox :: Sandbox where
  "example_sandbox = \<lparr>sx_ID = ''i'', sx_ContainerName = ''restoreguard-d1-pg'', sx_NetworkName = ''restoreguard-d1-net'',
     sx_VolumeName = ''restoreguard-d1-data'', sx_Host = ''h'', sx_Port = 5432, sx_CreatedAt = 1, sx_ReadyAt = 2\<rparr>"

theorem destroy_managed_only_witness:
  "run_state (Destroy calm (example_sandbox\<lparr>sx_VolumeName := ''postgres-data''\<rparr>)) idle =
     (Some (Errorf ''refusing to remove unmanaged Docker resource''), idle) \<and>
   map fst (w_docker (snd (run_state (Destroy calm (example_sandbox\<lparr>sx_ContainerName := []\<rparr>)) idle))) =
     [[''network'', ''rm'', ''restoreguard-d1-net''], [''volume'', ''rm'', ''restoreguard-d1-data'']]"
  using destroy_managed_only [of "example_sandbox\<lparr>sx_VolumeName := ''postgres-data''\<rparr>" calm idle]
    destroy_managed_only [of "example_sandbox\<lparr>sx_ContainerName := []\<rparr>" calm idle]
  by (auto simp: example_sandbox_def)

text \<open>A limit that is not a number passes the comparisons.\<close>

lemma nan_limit_accepted: "\<not> spec_invalid spec \<Longrightarrow> \<not> spec_invalid (spec\<lparr>sp_CPUs := NaN\<rparr>)"
  by (simp add: spec_invalid_def float_le_def float_gt_def)

end
