(* ===== verification/Worker.thy ===== *)
theory Worker
  imports Sandbox
begin

text \<open>
  The worker pool of package \<open>drill\<close> (\<open>worker.go\<close>): submission and cancellation of drills and
  \<open>run\<close>, the recovery drill itself. \<open>run\<close> is split at its deferred calls: each phase with a
  deferred clean-up is a definition of its own, and the clean-up follows the phase. The drill's
  context is cancelled through the pool or done by the timeout; a call under a context that is
  done is one the environment refuses.
\<close>

section \<open>The pool\<close>

record WorkerDependencies =
  wd_Executor :: "DockerSandboxExecutor option"
  wd_Objects :: "object_storage option"
  wd_AllowedImage :: string
  wd_MaxArtifactBytes :: int64
  wd_DrillTimeout :: duration

text \<open>The jobs channel holds up to 100 identifiers.\<close>

definition Submit :: "string \<Rightarrow> go_error option program" where
  "Submit did = State (\<lambda>w.
     if length (w_jobs w) < 100 then (None, w\<lparr>w_jobs := w_jobs w @ [did]\<rparr>)
     else (Some (Errorf ''drill queue is full''), w))"

definition Cancel :: "string \<Rightarrow> unit program" where
  "Cancel did = upd (\<lambda>w.
     if did \<in> set (w_running w) then w\<lparr>w_cancelled := did # w_cancelled w\<rparr> else w)"


section \<open>Helpers\<close>

definition compactID :: "string \<Rightarrow> string" where
  "compactID did =
     (let result = filter is_alnum did in
      if length result > 18 then take 18 result else result)"

definition equalHash :: "(nat \<Rightarrow> nat) \<Rightarrow> string \<Rightarrow> string \<Rightarrow> bool" where
  "equalHash nf a b = (length a = length b \<and> EqualFold nf a b)"

text \<open>A statement of a transaction that can only fail as a whole, and the commit, which applies
  the transaction's writes; a lost commit has applied them.\<close>

definition tx_commit :: "env \<Rightarrow> (tables \<Rightarrow> tables) \<Rightarrow> go_error option program" where
  "tx_commit e f = do {
     n \<leftarrow> tick;
     State (\<lambda>w. case fate_at e n of
        Performed \<Rightarrow> (None, w\<lparr>w_db := f (w_db w)\<rparr>)
      | Refused er \<Rightarrow> (Some er, w)
      | Lost er \<Rightarrow> (Some er, w\<lparr>w_db := f (w_db w)\<rparr>))
   }"

definition progress_event :: "string \<Rightarrow> (string \<times> string) list \<Rightarrow> Event" where
  "progress_event did data = \<lparr>evt_DrillID = did, evt_Type = ''drill.progress'', evt_Data = data\<rparr>"

definition completed_event :: "string \<Rightarrow> (string \<times> string) list \<Rightarrow> Event" where
  "completed_event did data = \<lparr>evt_DrillID = did, evt_Type = ''drill.completed'', evt_Data = data\<rparr>"

definition recordStep :: "env \<Rightarrow> string \<Rightarrow> string \<Rightarrow> int \<Rightarrow> string \<Rightarrow> go_error option program" where
  "recordStep e did step sequence summary = do {
     now \<leftarrow> clock_Now e;
     r \<leftarrow> db_exec e (Some did) (\<lambda>_ t. (insert_step did step sequence summary (pg_time e now) t, Inr ()));
     case r of
       Inl er \<Rightarrow> State_Monad.return (Some er)
     | Inr _ \<Rightarrow> do {
         publish e (progress_event did [(''step'', step)]);
         State_Monad.return None
       }
   }"

text \<open>
  The transaction of \<open>transition\<close>: the row is locked by \<open>SELECT ... FOR UPDATE\<close>, so nothing
  interferes between the read and the commit. An error before the commit rolls back.
\<close>

definition transition_writes :: "string \<Rightarrow> DrillStatus \<Rightarrow> string \<Rightarrow> int \<Rightarrow> instant \<Rightarrow> tables \<Rightarrow> tables" where
  "transition_writes did to step sequence now t =
     insert_step did step sequence (step @ '' completed'') now
       (update_status did to (if to = DrillPreparing then Some now else None) now t)"

definition transition :: "env \<Rightarrow> string \<Rightarrow> DrillStatus \<Rightarrow> string \<Rightarrow> int \<Rightarrow> go_error option program" where
  "transition e did to step sequence = do {
     interleave e (Some did);
     begun \<leftarrow> call e;
     case begun of
       Some er \<Rightarrow> State_Monad.return (Some er)
     | None \<Rightarrow> do {
         selected \<leftarrow> call e;
         w \<leftarrow> State_Monad.get;
         case (case selected of Some er \<Rightarrow> Inl er
               | None \<Rightarrow> (case drill_status (w_db w) did of None \<Rightarrow> Inl ErrNoRows | Some from \<Rightarrow> Inr from)) of
           Inl er \<Rightarrow> State_Monad.return (Some er)
         | Inr from \<Rightarrow>
             (case Transition from to of
                Some er \<Rightarrow> State_Monad.return (Some er)
              | None \<Rightarrow> do {
                  now \<leftarrow> clock_Now e;
                  updated \<leftarrow> call e;
                  case updated of
                    Some er \<Rightarrow> State_Monad.return (Some er)
                  | None \<Rightarrow> do {
                      inserted \<leftarrow> call e;
                      case inserted of
                        Some er \<Rightarrow> State_Monad.return (Some er)
                      | None \<Rightarrow> do {
                          committed \<leftarrow> tx_commit e (transition_writes did to step sequence (pg_time e now));
                          case committed of
                            Some er \<Rightarrow> State_Monad.return (Some er)
                          | None \<Rightarrow> do {
                              publish e (progress_event did [(''status'', status_string to), (''step'', step)]);
                              State_Monad.return None
                            }
                        }
                    }
                })
       }
   }"

definition setTerminal :: "env \<Rightarrow> string \<Rightarrow> DrillStatus \<Rightarrow> string \<Rightarrow> go_error option program" where
  "setTerminal e did status summary = do {
     r \<leftarrow> db_exec e (Some did) (set_terminal did status summary);
     case r of
       Inl er \<Rightarrow> State_Monad.return (Some er)
     | Inr _ \<Rightarrow> do {
         publish e (completed_event did [(''status'', status_string status)]);
         State_Monad.return None
       }
   }"

definition fail_drill :: "env \<Rightarrow> string \<Rightarrow> string \<Rightarrow> unit program" where
  "fail_drill e did summary = do {
     ctxErr \<leftarrow> ctx_Err e did;
     _ \<leftarrow> (if ctxErr \<noteq> None
          then setTerminal e did DrillCancelled ''Drill was cancelled; partial evidence may be retained''
          else setTerminal e did DrillFailed summary);
     State_Monad.return ()
   }"


section \<open>The evidence document\<close>

text \<open>The evidence document of a drill, as passed to \<open>json.Marshal\<close>: a map, so its keys are sorted. The
  error of an instant beyond the year 9999 is ignored and leaves no bytes.\<close>

record EvidencePayload =
  ep_what :: string
  ep_how :: string
  ep_when :: instant
  ep_backupSnapshotTime :: instant
  ep_sandboxId :: string
  ep_result :: string
  ep_limitations :: "string list"
  ep_measuredRpoSeconds :: int64
  ep_measuredRtoSeconds :: int64
  ep_backupSha256 :: string

definition evidence_document :: "EvidencePayload \<Rightarrow> string \<Rightarrow> string \<Rightarrow> json" where
  "evidence_document ep when_text snapshot_text =
     JObj [(''backupSha256'', JStr (ep_backupSha256 ep)), (''backupSnapshotTime'', JStr snapshot_text),
       (''how'', JStr (ep_how ep)), (''limitations'', JArr (map JStr (ep_limitations ep))),
       (''measuredRpoSeconds'', JNum (ep_measuredRpoSeconds ep)), (''measuredRtoSeconds'', JNum (ep_measuredRtoSeconds ep)),
       (''result'', JStr (ep_result ep)), (''sandboxId'', JStr (ep_sandboxId ep)), (''what'', JStr (ep_what ep)),
       (''when'', JStr when_text)]"

definition evidence_bytes :: "EvidencePayload \<Rightarrow> bytes" where
  "evidence_bytes ep =
     (case (time_Marshal (ep_when ep), time_Marshal (ep_backupSnapshotTime ep)) of
        (Some w, Some s) \<Rightarrow> json_Marshal (evidence_document ep w s)
      | _ \<Rightarrow> [])"

definition evidence_payload :: "drill_job \<Rightarrow> string \<Rightarrow> instant \<Rightarrow> string list \<Rightarrow> int64 \<Rightarrow> int64 \<Rightarrow> string \<Rightarrow> EvidencePayload" where
  "evidence_payload job sandboxId recoveryReady limitations rpo rto actualHash =
     \<lparr>ep_what = ''PostgreSQL plain dump restore and typed connectivity validation'',
      ep_how = ''allowlisted Docker sandbox on an internal network'',
      ep_when = recoveryReady, ep_backupSnapshotTime = j_snapshotAt job, ep_sandboxId = sandboxId,
      ep_result = ''PASS'', ep_limitations = limitations, ep_measuredRpoSeconds = rpo,
      ep_measuredRtoSeconds = rto, ep_backupSha256 = actualHash\<rparr>"


section \<open>The final transaction\<close>

text \<open>
  The server gives a new artifact and a new evidence row their identifiers, and the evidence its
  creation time, the start of the transaction.
  The statements up to the \<open>UPDATE\<close> of the drill can be interleaved with other requests; the
  \<open>UPDATE\<close> locks the row. It must affect exactly one row.
\<close>

definition final_tx :: "env \<Rightarrow> string \<Rightarrow> drill_job \<Rightarrow> ObjectInfo \<Rightarrow> outcome \<Rightarrow> go_error option program" where
  "final_tx e did job artifact oc = do {
     start \<leftarrow> clock_Now e;
     begun \<leftarrow> call e;
     case begun of
       Some er \<Rightarrow> State_Monad.return (Some er)
     | None \<Rightarrow> do {
         inserted \<leftarrow> call e;
         newID \<leftarrow> uuid_NewString e;
         case inserted of
           Some er \<Rightarrow> State_Monad.return (Some er)
         | None \<Rightarrow> do {
             evidenced \<leftarrow> call e;
             evidenceID \<leftarrow> uuid_NewString e;
             case evidenced of
               Some er \<Rightarrow> State_Monad.return (Some er)
             | None \<Rightarrow> do {
                 now \<leftarrow> clock_Now e;
                 interleave e (Some did);
                 updated \<leftarrow> call e;
                 w \<leftarrow> State_Monad.get;
                 case updated of
                   Some er \<Rightarrow> State_Monad.return (Some er)
                 | None \<Rightarrow>
                     if rows_affected (finish_where did) (recovery_drills (w_db w)) \<noteq> 1
                     then State_Monad.return (Some (Errorf ''drill is not finalizing''))
                     else do {
                       reported \<leftarrow> call e;
                       case reported of
                         Some er \<Rightarrow> State_Monad.return (Some er)
                       | None \<Rightarrow> tx_commit e (final_writes (j_orgID job) did artifact (newID, evidenceID, start) (pg_time e now) oc)
                     }
               }
           }
       }
   }"

text \<open>Whatever fails, the uploaded evidence object is deleted again.\<close>

definition finalize :: "env \<Rightarrow> object_storage \<Rightarrow> string \<Rightarrow> drill_job \<Rightarrow> string \<Rightarrow> ObjectInfo \<Rightarrow> outcome \<Rightarrow> unit program" where
  "finalize e objects did job evidenceKey artifact oc = do {
     committed \<leftarrow> final_tx e did job artifact oc;
     case committed of
       None \<Rightarrow> publish e (completed_event did
           [(''status'', ''SUCCEEDED''), (''assessment'', assessment_string (oc_assessment oc))])
     | Some _ \<Rightarrow> do {
         _ \<leftarrow> obj_Delete e objects evidenceKey;
         State_Monad.return ()
       }
   }"


section \<open>The phases of a run\<close>

text \<open>Collecting evidence and destroying the sandbox; the result is the flag \<open>destroyed\<close>.\<close>

definition collect_evidence ::
    "env \<Rightarrow> object_storage \<Rightarrow> string \<Rightarrow> drill_job \<Rightarrow> Sandbox \<Rightarrow> string \<Rightarrow> instant \<Rightarrow> bool program" where
  "collect_evidence e objects did job sandbox actualHash recoveryReady = do {
     let limitations = limitations_of (unmarshal_strings (j_required job));
     let oc = drill_outcome job recoveryReady;
     let payload = evidence_bytes
       (evidence_payload job (sx_ID sandbox) recoveryReady limitations (oc_rpo oc) (oc_rto oc) actualHash);
     let evidenceKey = evidence_key (j_orgID job) did;
     put \<leftarrow> obj_Put e objects evidenceKey (bytes_NewReader payload) (int (length payload)) ''application/json'';
     case put of
       Inl _ \<Rightarrow> do {
         fail_drill e did ''Recovery evidence could not be stored'';
         State_Monad.return False
       }
     | Inr artifact \<Rightarrow> do {
         err \<leftarrow> Destroy e sandbox;
         case err of
           Some _ \<Rightarrow> do {
             _ \<leftarrow> obj_Delete e objects evidenceKey;
             fail_drill e did ''Sandbox cleanup failed'';
             State_Monad.return False
           }
         | None \<Rightarrow> do {
             _ \<leftarrow> db_exec e (Some did) (sandbox_destroyed did);
             finalize e objects did job evidenceKey artifact oc;
             State_Monad.return True
           }
       }
   }"

definition validate_phase ::
    "env \<Rightarrow> object_storage \<Rightarrow> string \<Rightarrow> drill_job \<Rightarrow> Sandbox \<Rightarrow> string \<Rightarrow> bool program" where
  "validate_phase e objects did job sandbox actualHash = do {
     t1 \<leftarrow> transition e did DrillValidating ''POSTGRES_CONNECTIVITY'' 4;
     case t1 of
       Some _ \<Rightarrow> State_Monad.return False
     | None \<Rightarrow> do {
         err \<leftarrow> ValidatePostgresConnectivity e sandbox;
         case err of
           Some _ \<Rightarrow> do {
             fail_drill e did ''Required PostgreSQL connectivity validation failed'';
             State_Monad.return False
           }
         | None \<Rightarrow> do {
             recoveryReady \<leftarrow> clock_Now e;
             t2 \<leftarrow> transition e did DrillFinalizing ''COLLECT_EVIDENCE'' 5;
             case t2 of
               Some _ \<Rightarrow> State_Monad.return False
             | None \<Rightarrow> collect_evidence e objects did job sandbox actualHash recoveryReady
           }
       }
   }"

definition restore_phase ::
    "env \<Rightarrow> object_storage \<Rightarrow> string \<Rightarrow> drill_job \<Rightarrow> Sandbox \<Rightarrow> string \<Rightarrow> string \<Rightarrow> bool program" where
  "restore_phase e objects did job sandbox tempPath actualHash = do {
     saved \<leftarrow> db_exec e (Some did) (\<lambda>_. upsert_sandbox (j_orgID job) did (pg_time e (sx_CreatedAt sandbox))
        (pg_time e (sx_ReadyAt sandbox)) (sx_ContainerName sandbox) (sx_NetworkName sandbox));
     case saved of
       Inl _ \<Rightarrow> do {
         fail_drill e did ''Sandbox metadata could not be persisted'';
         State_Monad.return False
       }
     | Inr _ \<Rightarrow> do {
         s1 \<leftarrow> recordStep e did ''CREATE_SANDBOX'' 2 ''Isolated Docker sandbox became ready'';
         case s1 of
           Some _ \<Rightarrow> State_Monad.return False
         | None \<Rightarrow> do {
             t1 \<leftarrow> transition e did DrillRestoring ''RESTORE_POSTGRES'' 3;
             case t1 of
               Some _ \<Rightarrow> State_Monad.return False
             | None \<Rightarrow> do {
                 copied \<leftarrow> CopyPostgresBackup e sandbox tempPath;
                 err \<leftarrow> (case copied of None \<Rightarrow> RestorePostgresPlain e sandbox
                        | Some er \<Rightarrow> State_Monad.return (Some er));
                 case err of
                   Some _ \<Rightarrow> do {
                     fail_drill e did ''PostgreSQL restore failed'';
                     State_Monad.return False
                   }
                 | None \<Rightarrow> validate_phase e objects did job sandbox actualHash
               }
           }
       }
   }"

text \<open>The sandbox's lifetime, with the deferred destruction.\<close>

definition worker_spec :: "WorkerDependencies \<Rightarrow> string \<Rightarrow> string \<Rightarrow> SandboxSpec" where
  "worker_spec deps did orgID =
     \<lparr>sp_DrillID = compactID did, sp_OrganizationID = orgID, sp_Image = wd_AllowedImage deps,
      sp_CPUs = Finite 1, sp_MemoryBytes = 512 * 1024 * 1024, sp_Timeout = 2 * time_Minute\<rparr>"

definition sandbox_phase ::
    "env \<Rightarrow> WorkerDependencies \<Rightarrow> DockerSandboxExecutor \<Rightarrow> object_storage \<Rightarrow> string \<Rightarrow> drill_job \<Rightarrow> string \<Rightarrow> string \<Rightarrow>
     unit program" where
  "sandbox_phase e deps executor objects did job tempPath actualHash = do {
     created \<leftarrow> sandbox_Create e executor (worker_spec deps did (j_orgID job));
     case created of
       Inl _ \<Rightarrow> fail_drill e did ''Sandbox creation failed''
     | Inr sandbox \<Rightarrow> do {
         destroyed \<leftarrow> restore_phase e objects did job sandbox tempPath actualHash;
         if destroyed then State_Monad.return ()
         else do {
           _ \<leftarrow> Destroy e sandbox;
           _ \<leftarrow> db_exec e (Some did) (sandbox_destroyed did);
           State_Monad.return ()
         }
       }
   }"

definition artifact_limit :: "WorkerDependencies \<Rightarrow> int64" where
  "artifact_limit deps = (if wd_MaxArtifactBytes deps \<le> 0 then 2 ^ 30 else wd_MaxArtifactBytes deps)"

definition checksum_bad :: "env \<Rightarrow> string option \<Rightarrow> string \<Rightarrow> bool" where
  "checksum_bad e checksum actualHash =
     (case checksum of None \<Rightarrow> False | Some c \<Rightarrow> c \<noteq> [] \<and> \<not> equalHash (rune_fold e) c actualHash)"

text \<open>Staging the backup into the temporary file.\<close>

definition stage_phase ::
    "env \<Rightarrow> WorkerDependencies \<Rightarrow> DockerSandboxExecutor \<Rightarrow> object_storage \<Rightarrow> string \<Rightarrow> drill_job \<Rightarrow> string \<Rightarrow> unit program" where
  "stage_phase e deps executor objects did job tempPath = do {
     got \<leftarrow> obj_Get e objects (j_storageKey job);
     case got of
       Inl _ \<Rightarrow> fail_drill e did ''Backup artifact could not be opened''
     | Inr (reader, info) \<Rightarrow> do {
         let limit = artifact_limit deps;
         (data, written, copyErr) \<leftarrow> copy_to_file e tempPath (io_LimitReader reader (wrap64 (limit + 1)));
         closeErr \<leftarrow> call e;
         let actualHash = hex_sha256 e data;
         if copyErr \<noteq> None \<or> closeErr \<noteq> None \<or> written > limit \<or> oi_Size info \<noteq> written
            \<or> checksum_bad e (j_checksum job) actualHash
         then fail_drill e did ''Backup artifact integrity validation failed''
         else sandbox_phase e deps executor objects did job tempPath actualHash
       }
   }"

definition configured_run ::
    "env \<Rightarrow> WorkerDependencies \<Rightarrow> DockerSandboxExecutor \<Rightarrow> object_storage \<Rightarrow> string \<Rightarrow> unit program" where
  "configured_run e deps executor objects did = do {
     t1 \<leftarrow> transition e did DrillPreparing ''FETCH_BACKUP'' 1;
     case t1 of
       Some _ \<Rightarrow> State_Monad.return ()
     | None \<Rightarrow> do {
         selected \<leftarrow> db_exec e (Some did) (select_job did);
         case selected of
           Inl _ \<Rightarrow> do {
             _ \<leftarrow> setTerminal e did DrillInconclusive ''A selected snapshot with a trusted storage key and policy is required'';
             State_Monad.return ()
           }
         | Inr job \<Rightarrow>
             if j_storageKey job = [] then do {
               _ \<leftarrow> setTerminal e did DrillInconclusive ''A selected snapshot with a trusted storage key and policy is required'';
               State_Monad.return ()
             }
             else do {
               temp \<leftarrow> os_CreateTemp e (temp_dir e) ''restoreguard-backup-'' ''.sql'';
               case temp of
                 Inl _ \<Rightarrow> fail_drill e did ''Backup staging failed''
               | Inr tempPath \<Rightarrow> do {
                   stage_phase e deps executor objects did job tempPath;
                   _ \<leftarrow> os_Remove e tempPath;
                   State_Monad.return ()
                 }
             }
       }
   }"

definition run_body :: "env \<Rightarrow> WorkerDependencies \<Rightarrow> string \<Rightarrow> unit program" where
  "run_body e deps did =
     (case (wd_Executor deps, wd_Objects deps) of
        (Some executor, Some objects) \<Rightarrow> configured_run e deps executor objects did
      | _ \<Rightarrow> do {
          _ \<leftarrow> transition e did DrillPreparing ''PREPARE_DRILL'' 1;
          _ \<leftarrow> setTerminal e did DrillInconclusive
                 ''No sandbox/object-storage executor is configured; recovery was not attempted'';
          State_Monad.return ()
        })"

definition worker_run :: "env \<Rightarrow> WorkerDependencies \<Rightarrow> string \<Rightarrow> unit program" where
  "worker_run e deps did = do {
     upd (\<lambda>w. w\<lparr>w_running := List.insert did (w_running w), w_cancelled := removeAll did (w_cancelled w)\<rparr>);
     run_body e deps did;
     upd (\<lambda>w. w\<lparr>w_running := removeAll did (w_running w)\<rparr>)
   }"

text \<open>
  The loop of a worker, for as many rounds as \<open>rounds\<close>: it ends when the pool is closed and
  waits while no job is queued.
\<close>

fun worker_loop :: "env \<Rightarrow> WorkerDependencies \<Rightarrow> nat \<Rightarrow> unit program" where
  "worker_loop e deps 0 = State_Monad.return ()"
| "worker_loop e deps (Suc rounds) = do {
     n \<leftarrow> tick;
     w \<leftarrow> State_Monad.get;
     if root_done_at e n then State_Monad.return ()
     else (case w_jobs w of
             [] \<Rightarrow> worker_loop e deps rounds
           | did # rest \<Rightarrow> do {
               upd (\<lambda>w. w\<lparr>w_jobs := rest\<rparr>);
               worker_run e deps did;
               worker_loop e deps rounds
             })
   }"



section \<open>Runs of the transactions\<close>

lemma run_call:
  "run_state (call e) w =
     (case fate_at e (w_step w) of Performed \<Rightarrow> None | Refused er \<Rightarrow> Some er | Lost er \<Rightarrow> Some er,
      w\<lparr>w_step := Suc (w_step w)\<rparr>)"
  by (simp add: call_def)

lemma run_publish_db [simp]: "w_db (snd (run_state (publish e ev) w)) = w_db w"
  by (simp add: publish_def split: option.splits)

lemma run_tx_commit:
  "run_state (tx_commit e f) w = (r, w') \<Longrightarrow>
   (r = None \<longrightarrow> w_db w' = f (w_db w)) \<and> (w_db w' = w_db w \<or> w_db w' = f (w_db w))"
  by (auto simp: tx_commit_def split: fate.splits)

lemma run_interleave: "run_state (interleave e m) w = ((), snd (run_state (interleave e m) w))"
  by (simp add: interleave_def)

lemma transition_db:
  assumes "run_state (transition e did to ty n) w = (r, w')"
  defines "w1 \<equiv> snd (run_state (interleave e (Some did)) w)"
  shows "w_db w' = w_db w1 \<and> r \<noteq> None \<or>
     (\<exists>s now. drill_status (w_db w1) did = Some s \<and> CanTransition s to \<and>
        w_db w' = transition_writes did to ty n now (w_db w1))"
proof -
  have "run_state (interleave e (Some did)) w = ((), w1)"
    unfolding w1_def by (rule run_interleave)
  then show ?thesis
    using assms(1)
    by (auto simp: transition_def run_call State_Monad.get_def Transition_def tx_commit_def publish_def
        split: if_splits fate.splits option.splits prod.splits)
qed


section \<open>Calls in the calm environment\<close>

lemma calm_call: "run_state (call calm) w = (None, w\<lparr>w_step := Suc (w_step w)\<rparr>)"
  by (simp add: run_call)

lemma calm_interleave: "run_state (interleave calm m) w = ((), w)"
  by (simp add: interleave_def)

lemma calm_exec:
  "run_state (db_exec calm m f) w =
     (snd (f (1000000 * time_Second + int (w_step w)) (w_db w)),
      w\<lparr>w_step := Suc (w_step w), w_db := fst (f (1000000 * time_Second + int (w_step w)) (w_db w))\<rparr>)"
  by (simp add: db_exec_def calm_interleave split: prod.splits)

lemma calm_commit: "run_state (tx_commit calm f) w = (None, w\<lparr>w_step := Suc (w_step w), w_db := f (w_db w)\<rparr>)"
  by (simp add: tx_commit_def)

end
