(* ===== verification/Drill_Invariant.thy ===== *)
theory Drill_Invariant
  imports Worker
begin

text \<open>
  Invariants of a worker's run. A property of the tables that survives the operations of the
  other requests and workers and each statement the run issues holds at the end of the run,
  whatever calls fail and however the run is interleaved. The contract is a locale, proved
  once for the whole of \<open>run\<close>; its interpretations give the properties of the worker.
\<close>

section \<open>Frames\<close>

lemma storage_only_simps:
  assumes "storage_only w w'"
  shows "w_db w' = w_db w" "w_docker w' = w_docker w" "w_jobs w' = w_jobs w" "w_running w' = w_running w"
    "w_cancelled w' = w_cancelled w" "w_hub w' = w_hub w" "w_crashed w' = w_crashed w"
  using assms by (auto simp: storage_only_def dest: arg_cong [of _ _ w_db] arg_cong [of _ _ w_docker]
    arg_cong [of _ _ w_jobs] arg_cong [of _ _ w_running] arg_cong [of _ _ w_cancelled]
    arg_cong [of _ _ w_hub] arg_cong [of _ _ w_crashed])

lemma docker_only_simps:
  assumes "docker_only w w'"
  shows "w_db w' = w_db w" "w_files w' = w_files w" "w_bucket w' = w_bucket w" "w_jobs w' = w_jobs w"
    "w_running w' = w_running w" "w_cancelled w' = w_cancelled w" "w_hub w' = w_hub w" "w_crashed w' = w_crashed w"
  using assms by (auto simp: docker_only_def dest: arg_cong [of _ _ w_db] arg_cong [of _ _ w_files]
    arg_cong [of _ _ w_bucket] arg_cong [of _ _ w_jobs] arg_cong [of _ _ w_running]
    arg_cong [of _ _ w_cancelled] arg_cong [of _ _ w_hub] arg_cong [of _ _ w_crashed])

lemma keeps_by_storage:
  assumes "\<And>w0. keeps (storage_only w0) m" and "\<And>w w'. I w \<Longrightarrow> storage_only w w' \<Longrightarrow> I w'"
  shows "keeps I m"
  using assms by (metis hoareI keeps_def keeps_run snd_conv storage_only_refl)

lemma keeps_by_docker:
  assumes "\<And>w0. keeps (docker_only w0) m" and "\<And>w w'. I w \<Longrightarrow> docker_only w w' \<Longrightarrow> I w'"
  shows "keeps I m"
  using assms by (metis hoareI keeps_def keeps_run snd_conv docker_only_refl)

lemma on_db_storage: "on_db J w \<Longrightarrow> storage_only w w' \<Longrightarrow> on_db J w'"
  by (simp add: on_db_def storage_only_simps(1))

lemma on_db_docker: "on_db J w \<Longrightarrow> docker_only w w' \<Longrightarrow> on_db J w'"
  by (simp add: on_db_def docker_only_simps(1))

lemma keeps_db_storage [keeps_intros]:
  "keeps (on_db J) (os_CreateTemp e dir pre suf)"
  "keeps (on_db J) (copy_to_file e name rd)"
  "keeps (on_db J) (os_Remove e name)"
  "keeps (on_db J) (obj_Put e s key rd sz ct)"
  "keeps (on_db J) (obj_Get e s key)"
  "keeps (on_db J) (obj_Delete e s key)"
  by (rule keeps_by_storage, rule keeps_os keeps_objects, erule (1) on_db_storage)+

lemma keeps_db_docker [keeps_intros]:
  "keeps (on_db J) (sandbox_Create e ex spec)"
  "keeps (on_db J) (Destroy e sb)"
  "keeps (on_db J) (CopyPostgresBackup e sb path)"
  "keeps (on_db J) (RestorePostgresPlain e sb)"
  "keeps (on_db J) (ValidatePostgresConnectivity e sb)"
  by (rule keeps_by_docker, rule keeps_sandbox, erule (1) on_db_docker)+


text \<open>A stored object has the key it was stored under.\<close>

definition stored_as :: "string \<Rightarrow> ObjectInfo result \<Rightarrow> bool" where
  "stored_as key r = (\<forall>art. r = Inr art \<longrightarrow> oi_Key art = key)"

lemma stored_as_simps [simp]: "stored_as key (Inl er)" "stored_as key (Inr art) \<longleftrightarrow> oi_Key art = key"
  by (simp_all add: stored_as_def)

lemma put_temp_key: "yields (stored_as key) (put_temp e l path tempName key rd sz ct)"
  unfolding put_temp_def Let_def by (intro yields_intros) (simp_all split: option.split)

lemma local_Put_key: "yields (stored_as key) (local_Put e l key rd sz ct)"
  unfolding local_Put_def by (intro yields_intros yields_finally put_temp_key) simp_all

lemma s3_Put_key: "yields (stored_as key) (s3_Put e s key rd sz ct)"
  by (auto simp: s3_Put_def yields_def split: sum.split prod.split)

lemma Put_key: "yields (stored_as key) (obj_Put e s key rd sz ct)"
  by (cases s) (simp_all add: obj_Put_def local_Put_key s3_Put_key)

lemma keeps_bind_Put:
  assumes "keeps I (obj_Put e s key rd sz ct)"
    and "\<And>r. stored_as key r \<Longrightarrow> keeps I (f r)"
  shows "keeps I (obj_Put e s key rd sz ct \<bind> f)"
  by (rule keeps_bind_yields [OF assms(1) Put_key assms(2)])


section \<open>What evolution keeps\<close>

definition left_queue :: "string \<Rightarrow> tables \<Rightarrow> bool" where
  "left_queue did t = (\<exists>s. drill_status t did = Some s \<and> s \<noteq> DrillQueued)"

text \<open>The inputs a run has selected are still those of its drill.\<close>

definition job_at :: "string \<Rightarrow> drill_job \<Rightarrow> tables \<Rightarrow> bool" where
  "job_at did job t = (\<exists>row \<in> set (job_rows did t). scan_job row = Inr job)"

lemma job_rows_iff:
  "(d, s, p) \<in> set (job_rows did t) \<longleftrightarrow>
     drill_by_id t did = Some d \<and>
     s \<in> set (backup_snapshots t) \<and> dr_backup_snapshot_id d = Some (s_id s) \<and>
     s_organization_id s = dr_organization_id d \<and>
     p \<in> set (recovery_policies t) \<and> dr_recovery_policy_id d = Some (p_id p) \<and>
     p_organization_id p = dr_organization_id d"
  unfolding job_rows_def by (cases "drill_by_id t did") auto

definition evolve_closed :: "(tables \<Rightarrow> bool) \<Rightarrow> bool" where
  "evolve_closed P = (\<forall>t t'. tables_evolve t t' \<longrightarrow> P t \<longrightarrow> P t')"

lemma evolve_closed_conj: "evolve_closed P \<Longrightarrow> evolve_closed Q \<Longrightarrow> evolve_closed (\<lambda>t. P t \<and> Q t)"
  unfolding evolve_closed_def by blast

lemma evolve_closed_True [simp]: "evolve_closed (\<lambda>_. True)"
  by (simp add: evolve_closed_def)

lemma never_back_to_queue: "s \<le> s' \<Longrightarrow> s \<noteq> DrillQueued \<Longrightarrow> s' \<noteq> DrillQueued"
  using le_bot [of s] by (auto simp: bot_DrillStatus_def)

lemma tables_evolveE:
  assumes "tables_evolve t t'" and "drill_by_id t did = Some d"
  obtains d' where "drill_by_id t' did = Some d'" "row_evolves d d'"
  using assms unfolding tables_evolve_def by blast

lemma left_queue_closed [simp]: "evolve_closed (left_queue did)"
  unfolding evolve_closed_def
proof (intro allI impI)
  fix t t'
  assume ev: "tables_evolve t t'" and "left_queue did t"
  then obtain d where d: "drill_by_id t did = Some d" and q: "dr_status d \<noteq> DrillQueued"
    by (auto simp: left_queue_def drill_status_def)
  from ev d obtain d' where "drill_by_id t' did = Some d'" "row_evolves d d'" by (rule tables_evolveE)
  with q show "left_queue did t'"
    using never_back_to_queue by (auto simp: left_queue_def drill_status_def row_evolves_def)
qed

lemma scan_job_started: "scan_job (d, s, p) = Inr job \<Longrightarrow> dr_started_at d \<noteq> None"
  by (auto simp: scan_job_def split: option.splits)

lemma job_at_closed [simp]: "evolve_closed (job_at did job)"
  unfolding evolve_closed_def
proof (intro allI impI)
  fix t t'
  assume ev: "tables_evolve t t'" and "job_at did job t"
  then obtain d s p where row: "(d, s, p) \<in> set (job_rows did t)" and scan: "scan_job (d, s, p) = Inr job"
    by (auto simp: job_at_def)
  then have "drill_by_id t did = Some d" by (simp add: job_rows_iff)
  with ev obtain d' where d': "drill_by_id t' did = Some d'" "row_evolves d d'" by (rule tables_evolveE)
  have "dr_started_at d' = dr_started_at d" "dr_organization_id d' = dr_organization_id d"
    using d'(2) scan_job_started [OF scan] by (auto simp: row_evolves_def)
  then have "scan_job (d', s, p) = Inr job" using scan by (simp add: scan_job_def split: option.splits)
  moreover have "(d', s, p) \<in> set (job_rows did t')"
    using ev row d' by (auto simp: job_rows_iff tables_evolve_def row_evolves_def)
  ultimately show "job_at did job t'" by (auto simp: job_at_def)
qed

lemma select_job_at: "snd (select_job did now t) = Inr job \<Longrightarrow> job_at did job t"
  by (auto simp: select_job_def job_at_def split: sum.splits dest: query_row_Inr)

text \<open>Every statement of the worker evolves the tables.\<close>

lemma step_evolves: "tables_evolve t (insert_step did step n su now t)"
  by (rule tables_evolve_same_drills) simp_all

lemma sandbox_evolves:
  "tables_evolve t (fst (upsert_sandbox org did c r co ne t))"
  "tables_evolve t (fst (sandbox_destroyed did now t))"
  by (rule tables_evolve_same_drills; simp)+

lemma transition_writes_evolves:
  "drill_status t did = Some s \<Longrightarrow> CanTransition s to \<Longrightarrow> tables_evolve t (transition_writes did to step n now t)"
  unfolding transition_writes_def
  by (rule tables_evolve_trans [OF update_status_evolves step_evolves])

lemma transition_writes_status:
  "drill_status t did = Some s \<Longrightarrow> drill_status (transition_writes did to ty n now t) did = Some to"
proof -
  assume "drill_status t did = Some s"
  then obtain d where d: "row_with dr_id did (recovery_drills t) = Some d"
    by (auto simp: drill_status_def drill_by_id_def)
  have "dr_id d = did" using row_with_SomeD [OF d] by simp
  then show ?thesis
    by (simp add: transition_writes_def drill_status_def drill_by_id_def update_status_def row_with_update_where d)
qed

lemma set_terminal_evolves_left:
  "left_queue did t \<Longrightarrow> status \<in> {DrillFailed, DrillCancelled, DrillInconclusive} \<Longrightarrow>
   tables_evolve t (fst (set_terminal did status su now t))"
  by (rule set_terminal_evolves) (auto simp: left_queue_def)




section \<open>The contract of an invariant\<close>

text \<open>What a predicate of the tables needs to survive the statements of a run before its last transaction.\<close>

locale drill_progress =
  fixes did :: string and J :: "tables \<Rightarrow> bool"
  assumes others: "stable (Some did) J"
    and step: "J t \<Longrightarrow> J (insert_step did ty n su now t)"
    and moves: "J t \<Longrightarrow> drill_status t did = Some s \<Longrightarrow> CanTransition s to \<Longrightarrow> \<not> terminal to \<Longrightarrow>
      J (transition_writes did to ty (step_number to) now t)"
    and ends: "J t \<Longrightarrow> left_queue did t \<Longrightarrow> status \<in> {DrillFailed, DrillCancelled, DrillInconclusive} \<Longrightarrow>
      J (fst (set_terminal did status su now t))"
    and sandbox_up: "J t \<Longrightarrow> J (fst (upsert_sandbox org did cr re co ne t))"
    and sandbox_down: "J t \<Longrightarrow> J (fst (sandbox_destroyed did now t))"
begin

abbreviation with_P :: "(tables \<Rightarrow> bool) \<Rightarrow> world \<Rightarrow> bool" where
  "with_P P \<equiv> on_db (\<lambda>t. J t \<and> P t)"

lemma with_P_stable: "evolve_closed P \<Longrightarrow> stable (Some did) (\<lambda>t. J t \<and> P t)"
  using others apply_other_evolves unfolding stable_def evolve_closed_def by blast

lemma with_P_interleave: "evolve_closed P \<Longrightarrow> keeps (with_P P) (interleave e (Some did))"
  by (rule keeps_interleave [OF with_P_stable])

lemma with_P_exec:
  assumes "evolve_closed P" and "\<And>now t. J t \<Longrightarrow> P t \<Longrightarrow> J (fst (f now t)) \<and> tables_evolve t (fst (f now t))"
  shows "keeps (with_P P) (db_exec e (Some did) f)"
  by (rule keeps_db_exec [OF with_P_stable [OF assms(1)]]) (use assms in \<open>auto simp: evolve_closed_def\<close>)

lemma keeps_recordStep: "evolve_closed P \<Longrightarrow> keeps (with_P P) (recordStep e did ty n su)"
  unfolding recordStep_def
  by (intro keeps_intros with_P_exec) (simp_all add: step step_evolves)

lemma keeps_setTerminal:
  "evolve_closed P \<Longrightarrow> (\<And>t. P t \<Longrightarrow> left_queue did t) \<Longrightarrow>
   status \<in> {DrillFailed, DrillCancelled, DrillInconclusive} \<Longrightarrow> keeps (with_P P) (setTerminal e did status su)"
  unfolding setTerminal_def
  by (intro keeps_intros with_P_exec) (simp_all add: ends set_terminal_evolves_left)

lemma keeps_fail:
  "evolve_closed P \<Longrightarrow> (\<And>t. P t \<Longrightarrow> left_queue did t) \<Longrightarrow> keeps (with_P P) (fail_drill e did su)"
  unfolding fail_drill_def by (intro keeps_intros keeps_setTerminal) simp_all

lemma keeps_sandbox_rows:
  "evolve_closed P \<Longrightarrow> keeps (with_P P) (db_exec e (Some did) (\<lambda>_. upsert_sandbox org did cr re co ne))"
  "evolve_closed P \<Longrightarrow> keeps (with_P P) (db_exec e (Some did) (sandbox_destroyed did))"
  by (rule with_P_exec; simp add: sandbox_up sandbox_down sandbox_evolves)+

lemma transition_left:
  assumes "evolve_closed P" and "\<not> terminal to" and "n = step_number to"
  shows "hoare (with_P P) (transition e did to ty n)
    (\<lambda>r w. J (w_db w) \<and> P (w_db w) \<and> (r = None \<longrightarrow> left_queue did (w_db w)))"
proof (rule hoareI)
  fix w r w'
  assume w: "with_P P w" and run: "run_state (transition e did to ty n) w = (r, w')"
  let ?t1 = "w_db (snd (run_state (interleave e (Some did)) w))"
  have t1: "J ?t1" "P ?t1"
    using keeps_run [OF with_P_interleave [OF assms(1)] w] by (simp_all add: on_db_def)
  from transition_db [OF run] show "J (w_db w') \<and> P (w_db w') \<and> (r = None \<longrightarrow> left_queue did (w_db w'))"
  proof (elim disjE conjE exE)
    fix s now
    assume s: "drill_status ?t1 did = Some s" "CanTransition s to"
      and w': "w_db w' = transition_writes did to ty n now ?t1"
    have ev: "tables_evolve ?t1 (w_db w')"
      unfolding w' using transition_writes_evolves [OF s] .
    have "drill_status (w_db w') did = Some to"
      using s(1) unfolding w' by (rule transition_writes_status)
    then have "left_queue did (w_db w')" using s(2) by (auto simp: left_queue_def CanTransition_iff)
    moreover have "J (w_db w')" unfolding w' assms(3) using moves [OF t1(1) s assms(2)] .
    moreover have "P (w_db w')" using assms(1) ev t1(2) by (auto simp: evolve_closed_def)
    ultimately show ?thesis by simp
  qed (use t1 in auto)
qed

lemma keeps_transition:
  "evolve_closed P \<Longrightarrow> \<not> terminal to \<Longrightarrow> n = step_number to \<Longrightarrow> keeps (with_P P) (transition e did to ty n)"
  unfolding keeps_def by (rule hoare_post [OF transition_left]) (simp_all add: on_db_def)

lemma select_hoare:
  assumes "evolve_closed P"
  shows "hoare (with_P P) (db_exec e (Some did) (select_job did))
    (\<lambda>r w. J (w_db w) \<and> P (w_db w) \<and> (\<forall>job. r = Inr job \<longrightarrow> job_at did job (w_db w)))"
  by (rule hoare_post [OF hoare_db_exec [OF with_P_stable [OF assms], where Q = "job_at did"]])
    (auto simp: select_job_def intro: select_job_at)

lemma keeps_with_job:
  assumes "\<And>P. evolve_closed P \<Longrightarrow> (\<And>t. P t \<Longrightarrow> left_queue did t) \<Longrightarrow> (\<And>t. P t \<Longrightarrow> job_at did job t) \<Longrightarrow>
    keeps (with_P P) m"
  shows "hoare (\<lambda>w. J (w_db w) \<and> left_queue did (w_db w) \<and> job_at did job (w_db w)) m (\<lambda>_. on_db J)"
proof -
  have "keeps (with_P (\<lambda>t. left_queue did t \<and> job_at did job t)) m"
    by (rule assms) (auto intro: evolve_closed_conj)
  then show ?thesis by (auto simp: keeps_def hoare_def on_db_def)
qed

lemma keeps_left_queue: "keeps (with_P (left_queue did)) m \<Longrightarrow>
   hoare (\<lambda>w. J (w_db w) \<and> left_queue did (w_db w) \<and> Q w) m (\<lambda>_. on_db J)"
  by (auto simp: keeps_def hoare_def on_db_def)

end

text \<open>What it needs to survive the whole run.\<close>

locale drill_invariant = drill_progress +
  assumes final: "J t \<Longrightarrow> job_at did job t \<Longrightarrow> oi_Key art = evidence_key (j_orgID job) did \<Longrightarrow>
      J (final_writes (j_orgID job) did art new_id now (drill_outcome job ready) t)"
begin

lemma keeps_tx_commit_final:
  assumes "evolve_closed P" and "\<And>t. P t \<Longrightarrow> job_at did job t" and "oi_Key art = evidence_key (j_orgID job) did"
  shows "keeps (with_P P) (tx_commit e (final_writes (j_orgID job) did art new_id now (drill_outcome job ready)))"
proof -
  have "J t \<Longrightarrow> P t \<Longrightarrow> P (final_writes (j_orgID job) did art new_id now (drill_outcome job ready) t)" for t
    using assms(1) final_writes_evolves unfolding evolve_closed_def by blast
  then show ?thesis
    using assms(2) final [OF _ _ assms(3)] by (auto simp: keeps_def hoare_def tx_commit_def on_db_def split: fate.splits)
qed

lemma keeps_finalize:
  assumes "evolve_closed P" and "\<And>t. P t \<Longrightarrow> job_at did job t" and "oi_Key art = evidence_key (j_orgID job) did"
  shows "keeps (with_P P) (finalize e objects did job key art (drill_outcome job ready))"
  unfolding finalize_def final_tx_def
  by (intro keeps_intros keeps_get with_P_interleave keeps_tx_commit_final assms)

lemma keeps_collect:
  assumes "evolve_closed P" and "\<And>t. P t \<Longrightarrow> left_queue did t" and "\<And>t. P t \<Longrightarrow> job_at did job t"
  shows "keeps (with_P P) (collect_evidence e objects did job sandbox h ready)"
  unfolding collect_evidence_def Let_def
proof (rule keeps_bind_Put, rule keeps_db_storage)
  fix r
  assume key: "stored_as (evidence_key (j_orgID job) did) r"
  show "keeps (with_P P) (case r of
       Inl _ \<Rightarrow> fail_drill e did ''Recovery evidence could not be stored'' \<bind> (\<lambda>_. State_Monad.return False)
     | Inr artifact \<Rightarrow> Destroy e sandbox \<bind> (\<lambda>err. case err of
           Some _ \<Rightarrow> obj_Delete e objects (evidence_key (j_orgID job) did) \<bind>
             (\<lambda>_. fail_drill e did ''Sandbox cleanup failed'' \<bind> (\<lambda>_. State_Monad.return False))
         | None \<Rightarrow> db_exec e (Some did) (sandbox_destroyed did) \<bind>
             (\<lambda>_. finalize e objects did job (evidence_key (j_orgID job) did) artifact (drill_outcome job ready) \<bind>
               (\<lambda>_. State_Monad.return True))))"
  proof (cases r)
    case (Inl er)
    show ?thesis unfolding Inl sum.case by (intro keeps_intros keeps_fail assms)
  next
    case (Inr art)
    then have "oi_Key art = evidence_key (j_orgID job) did" using key by simp
    then show ?thesis
      unfolding Inr sum.case by (intro keeps_intros keeps_fail keeps_sandbox_rows keeps_finalize assms)
  qed
qed

lemma keeps_phases:
  assumes "evolve_closed P" and "\<And>t. P t \<Longrightarrow> left_queue did t" and "\<And>t. P t \<Longrightarrow> job_at did job t"
  shows "keeps (with_P P) (stage_phase e deps executor objects did job path)"
  unfolding stage_phase_def sandbox_phase_def restore_phase_def validate_phase_def Let_def
  by (intro keeps_intros keeps_fail keeps_sandbox_rows keeps_collect keeps_recordStep keeps_transition assms) simp_all

lemma configured_keeps: "keeps (on_db J) (configured_run e deps executor objects did)"
  unfolding configured_run_def keeps_def
proof (rule hoare_bind)
  show "hoare (on_db J) (transition e did DrillPreparing ''FETCH_BACKUP'' 1)
      (\<lambda>r w. J (w_db w) \<and> (r = None \<longrightarrow> left_queue did (w_db w)))"
    using transition_left [of "\<lambda>_. True" DrillPreparing 1] by simp
  fix t1
  let ?inconclusive = "do {
      _ \<leftarrow> setTerminal e did DrillInconclusive ''A selected snapshot with a trusted storage key and policy is required'';
      State_Monad.return () }"
  let ?stage = "\<lambda>job. do {
       temp \<leftarrow> os_CreateTemp e (temp_dir e) ''restoreguard-backup-'' ''.sql'';
       case temp of
         Inl _ \<Rightarrow> fail_drill e did ''Backup staging failed''
       | Inr tempPath \<Rightarrow> do {
           stage_phase e deps executor objects did job tempPath;
           _ \<leftarrow> os_Remove e tempPath;
           State_Monad.return () } }"
  have inc: "keeps (with_P (left_queue did)) ?inconclusive"
    by (intro keeps_intros keeps_setTerminal) simp_all
  have stage: "hoare (\<lambda>w. J (w_db w) \<and> left_queue did (w_db w) \<and> job_at did job (w_db w)) (?stage job) (\<lambda>_. on_db J)" for job
    by (rule keeps_with_job, intro keeps_intros keeps_fail keeps_phases)
  have "hoare (with_P (left_queue did))
      (db_exec e (Some did) (select_job did) \<bind>
        (\<lambda>r. case r of Inl _ \<Rightarrow> ?inconclusive
              | Inr job \<Rightarrow> if j_storageKey job = [] then ?inconclusive else ?stage job)) (\<lambda>_. on_db J)"
  proof (rule hoare_bind [OF select_hoare])
    fix r
    show "hoare (\<lambda>w. J (w_db w) \<and> left_queue did (w_db w) \<and> (\<forall>job. r = Inr job \<longrightarrow> job_at did job (w_db w)))
       (case r of Inl _ \<Rightarrow> ?inconclusive
              | Inr job \<Rightarrow> if j_storageKey job = [] then ?inconclusive else ?stage job) (\<lambda>_. on_db J)"
      using keeps_left_queue [OF inc] keeps_left_queue [OF inc, of "\<lambda>_. True"] stage by (cases r) simp_all
  qed simp
  then show "hoare (\<lambda>w. J (w_db w) \<and> (t1 = None \<longrightarrow> left_queue did (w_db w)))
     (case t1 of Some _ \<Rightarrow> State_Monad.return ()
      | None \<Rightarrow> db_exec e (Some did) (select_job did) \<bind>
        (\<lambda>r. case r of Inl _ \<Rightarrow> ?inconclusive
              | Inr job \<Rightarrow> if j_storageKey job = [] then ?inconclusive else ?stage job)) (\<lambda>_. on_db J)"
    by (cases t1) (auto simp: hoare_def on_db_def)
qed

lemma body_keeps:
  assumes "wd_Executor deps \<noteq> None" and "wd_Objects deps \<noteq> None"
  shows "keeps (on_db J) (run_body e deps did)"
  using assms configured_keeps by (auto simp: run_body_def)

lemma run_keeps:
  assumes "wd_Executor deps \<noteq> None" and "wd_Objects deps \<noteq> None"
  shows "keeps (on_db J) (worker_run e deps did)"
  using body_keeps [OF assms] unfolding worker_run_def
  by (auto simp: on_db_def intro!: keeps_intros keeps_upd)

end



section \<open>The life cycle during a run\<close>

interpretation evolution: drill_invariant did "tables_evolve t0" for did t0
proof unfold_locales
  show "stable (Some did) (tables_evolve t0)" by (rule stable_evolve)
qed (blast intro: tables_evolve_trans step_evolves transition_writes_evolves set_terminal_evolves_left
    sandbox_evolves final_writes_evolves)+


section \<open>An example pool\<close>

definition example_deps :: WorkerDependencies where
  "example_deps = \<lparr>wd_Executor = Some example_executor, wd_Objects = Some (OnLocal example_local),
     wd_AllowedImage = ''postgres:17'', wd_MaxArtifactBytes = 64, wd_DrillTimeout = 0\<rparr>"

definition example_drill :: drill_row where
  "example_drill = \<lparr>dr_id = ''d1'', dr_organization_id = ''o1'', dr_protected_asset_id = ''a1'',
     dr_backup_snapshot_id = Some ''s1'', dr_recovery_policy_id = Some ''p1'', dr_requested_by = ''u1'',
     dr_idempotency_key = ''k1'', dr_trigger_type = ''MANUAL'', dr_status = DrillQueued,
     dr_started_at = None, dr_completed_at = None, dr_measured_rpo_seconds = None,
     dr_measured_rto_seconds = None, dr_rpo_result = None, dr_rto_result = None,
     dr_recovery_status = None, dr_confidence = None, dr_summary = [], dr_created_at = 1, dr_updated_at = 1\<rparr>"

definition example_snapshot :: snapshot_row where
  "example_snapshot = \<lparr>s_id = ''s1'', s_organization_id = ''o1'', s_backup_source_id = ''b1'',
     s_external_id = ''x'', s_name = ''n'', s_type = ''FULL'', s_completed_at = Some (999000 * time_Second),
     s_size_bytes = 2, s_checksum = None, s_status = ''AVAILABLE'', s_storage_key = Some ''k'',
     s_discovered_at = 1, s_last_verified_at = None\<rparr>"

definition example_policy :: policy_row where
  "example_policy = \<lparr>p_id = ''p1'', p_organization_id = ''o1'', p_name = ''p'', p_protected_asset_id = ''a1'',
     p_rpo_target_seconds = 3600, p_rto_target_seconds = 60, p_schedule = ''manual'',
     p_required_validations = JArr [JStr ''POSTGRES_CONNECTIVITY''], p_enabled = True, p_created_at = 1\<rparr>"

definition example_world :: world where
  "example_world = idle\<lparr>w_files := [''/d/objects/k'' \<mapsto> ''hi''],
     w_db := no_rows\<lparr>recovery_drills := [example_drill], backup_snapshots := [example_snapshot],
       recovery_policies := [example_policy]\<rparr>\<rparr>"

lemma example_configured: "wd_Executor example_deps \<noteq> None" "wd_Objects example_deps \<noteq> None"
  by (simp_all add: example_deps_def)

lemma example_drill_row: "drill_by_id (w_db example_world) ''d1'' = Some example_drill"
  by (simp add: example_world_def drill_by_id_def row_with_def example_drill_def)


lemma limitations_empty: "limitations_of req = [] \<longleftrightarrow> list_all (\<lambda>check. check = ''POSTGRES_CONNECTIVITY'') req"
  by (induction req) auto


section \<open>Properties\<close>

text \<open>
  C1. Life cycle under concurrency: a configured worker's run, interleaved with any requests
  and other workers and with any calls failing or their answers lost, changes drills only as
  the life cycle allows: every drill that existed keeps its identity and its start time, its
  status moves along permitted transitions, and a drill that was terminal is unchanged in
  every column. Snapshots and policies are not changed.
\<close>

theorem run_respects_lifecycle:
  assumes "wd_Executor deps \<noteq> None" and "wd_Objects deps \<noteq> None"
  shows "tables_evolve (w_db w) (w_db (snd (run_state (worker_run e deps did) w)))"
  using keeps_run [OF evolution.run_keeps [OF assms, of "w_db w" e did], of w] by (simp add: on_db_def)

theorem run_respects_lifecycle_witness:
  "wd_Executor example_deps \<noteq> None \<and> wd_Objects example_deps \<noteq> None \<and>
   tables_evolve (w_db example_world) (w_db (snd (run_state (worker_run calm example_deps ''d1'') example_world)))"
  using example_configured run_respects_lifecycle [OF example_configured, of example_world calm "''d1''"] by blast

end
