(* ===== verification/Drill_Evidence.thy ===== *)
theory Drill_Evidence
  imports Drill_Invariant
begin

text \<open>
  The evidence behind a success. A drill that is \<open>SUCCEEDED\<close> has its evidence row, the artifact under the
  key of the drill with the same digest, a report, and the outcome computed from its own snapshot and
  policy. Every statement of every worker and request keeps this, for every drill: the invariant
  \<open>all_backed\<close>.
\<close>

section \<open>What a successful drill has\<close>

definition evidence_complete :: "string \<Rightarrow> string \<Rightarrow> tables \<Rightarrow> bool" where
  "evidence_complete org did t =
     (list_ex (\<lambda>ev. ev_drill_id ev = did \<and> ev_type ev = ''POSTGRES_RECOVERY'' \<and>
        list_ex (\<lambda>a. ea_id a = ev_artifact_id ev \<and> ea_sha256 a = ev_sha256 ev \<and>
          ea_storage_key a = evidence_key org did) (evidence_artifacts t)) (evidence_rows t) \<and>
      list_ex (\<lambda>r. rr_drill_id r = did \<and> rr_status r = ''AVAILABLE'') (recovery_reports t))"

definition outcome_recorded :: "drill_row \<Rightarrow> outcome \<Rightarrow> bool" where
  "outcome_recorded d oc =
     (dr_measured_rpo_seconds d = Some (oc_rpo oc) \<and> dr_measured_rto_seconds d = Some (oc_rto oc) \<and>
      dr_rpo_result d = Some (oc_rpoResult oc) \<and> dr_rto_result d = Some (oc_rtoResult oc) \<and>
      dr_recovery_status d = Some (oc_assessment oc) \<and> dr_confidence d = Some (oc_confidence oc))"

definition success_backed :: "string \<Rightarrow> tables \<Rightarrow> bool" where
  "success_backed did t =
     (\<forall>d. drill_by_id t did = Some d \<longrightarrow> dr_status d = DrillSucceeded \<longrightarrow>
        evidence_complete (dr_organization_id d) did t \<and>
        (\<exists>job ready. job_at did job t \<and> outcome_recorded d (drill_outcome job ready)))"

text \<open>Identifiers have the form of a UUID, and every success is backed.\<close>

definition all_backed :: "tables \<Rightarrow> bool" where
  "all_backed t = (list_all (\<lambda>d. uuid_form (dr_id d)) (recovery_drills t) \<and> (\<forall>did. success_backed did t))"

definition same_evidence :: "tables \<Rightarrow> tables \<Rightarrow> bool" where
  "same_evidence t t' =
     (evidence_rows t' = evidence_rows t \<and> evidence_artifacts t' = evidence_artifacts t \<and>
      recovery_reports t' = recovery_reports t)"

lemma same_evidence_simps [simp]:
  "same_evidence t t"
  "same_evidence t (insert_step did step n su now t)"
  "same_evidence t (update_status did to started now t)"
  "same_evidence t (fst (cancel_drill org did now t))"
  "same_evidence t (fst (set_terminal did status summary now t))"
  "same_evidence t (fst (upsert_sandbox org did cr re co ne t))"
  "same_evidence t (fst (sandbox_destroyed did now t))"
  "same_evidence t (fst (finish_drill did now rpo rto rr tr asm conf t))"
  "same_evidence t (transition_writes did to step n now t)"
  "same_evidence t (fst (transition_tx did to step n now t))"
  "same_evidence t (fst (insert_drill org a s p u k i now t))"
  "same_evidence t (other_rows t' t)"
  "same_evidence t (t\<lparr>backup_snapshots := ss\<rparr>)" "same_evidence t (t\<lparr>recovery_policies := ps\<rparr>)"
  by (simp_all add: same_evidence_def insert_step_def update_status_def cancel_drill_def set_terminal_def
      upsert_sandbox_def sandbox_destroyed_def finish_drill_def transition_writes_def transition_tx_def
      insert_drill_def Let_def split: option.splits)

text \<open>A step that leaves the evidence alone and does not make the drill succeed keeps the property.\<close>

lemma success_backed_mono:
  assumes "success_backed did t" and "tables_evolve t t'" and "same_evidence t t'"
    and "\<And>d'. drill_by_id t' did = Some d' \<Longrightarrow> dr_status d' = DrillSucceeded \<Longrightarrow> drill_by_id t did = Some d'"
  shows "success_backed did t'"
proof -
  have "evidence_complete org did t \<Longrightarrow> evidence_complete org did t'" for org
    using assms(3) by (simp add: evidence_complete_def same_evidence_def)
  moreover have "job_at did job t \<Longrightarrow> job_at did job t'" for job
    using assms(2) job_at_closed [of did job] unfolding evolve_closed_def by blast
  ultimately show ?thesis using assms(1,4) unfolding success_backed_def by blast
qed

lemma drill_by_id_update:
  assumes "recovery_drills t' = update_where p f (recovery_drills t)" and "\<And>d. dr_id (f d) = dr_id d"
  shows "drill_by_id t' did = map_option (\<lambda>r. if p r then f r else r) (drill_by_id t did)"
  using assms by (simp add: drill_by_id_def row_with_update_where)

lemma not_by_terminal:
  assumes "drill_by_id (fst (set_terminal did' status su now t)) did = Some d'" and "dr_status d' = DrillSucceeded"
    and "status \<in> {DrillFailed, DrillCancelled, DrillInconclusive}"
  shows "drill_by_id t did = Some d'"
  using assms drill_by_id_update [of "fst (set_terminal did' status su now t)" "terminal_where did'" _ t did]
  by (auto simp: set_terminal_def split: if_splits)

lemma not_by_update:
  assumes "drill_by_id (update_status did' to st now t) did = Some d'" and "dr_status d' = DrillSucceeded"
    and "to \<noteq> DrillSucceeded \<or> did' \<noteq> did"
  shows "drill_by_id t did = Some d'"
  using assms drill_by_id_update [of "update_status did' to st now t" "\<lambda>d. dr_id d = did'" _ t did]
  by (auto simp: update_status_def dest: drill_by_id_id split: if_splits)


lemma not_by_cancel:
  assumes "drill_by_id (fst (cancel_drill org did' now t)) did = Some d'" and "dr_status d' = DrillSucceeded"
  shows "drill_by_id t did = Some d'"
  using assms drill_by_id_update [of "fst (cancel_drill org did' now t)" "cancel_where org did'" _ t did]
  by (auto simp: cancel_drill_def split: if_splits)

lemma not_by_insert:
  assumes "drill_by_id (fst (insert_drill org a s p u k i now t)) did = Some d'" and "dr_status d' = DrillSucceeded"
  shows "drill_by_id t did = Some d'"
  using assms
  by (auto simp: insert_drill_def Let_def drill_by_id_def row_with_append row_with_single
      split: if_splits option.splits)

lemma drill_by_id_simps [simp]:
  "drill_by_id (insert_step did' ty n su now t) did = drill_by_id t did"
  "drill_by_id (t\<lparr>backup_snapshots := ss\<rparr>) did = drill_by_id t did"
  "drill_by_id (t\<lparr>recovery_policies := ps\<rparr>) did = drill_by_id t did"
  "drill_by_id (fst (upsert_sandbox org did' cr re co ne t)) did = drill_by_id t did"
  "drill_by_id (fst (sandbox_destroyed did' now t)) did = drill_by_id t did"
  by (simp_all add: drill_by_id_def)

lemma list_ex_update_where: "x \<in> set rows \<Longrightarrow> p x \<Longrightarrow> Q (f x) \<Longrightarrow> list_ex Q (update_where p f rows)"
  unfolding list_ex_iff update_where_def by (rule bexI [of _ "f x"]) (auto intro!: image_eqI [of _ _ x])

lemma not_by_transition_tx:
  assumes "drill_by_id (fst (transition_tx did' to ty n now t)) did = Some d'" and "dr_status d' = DrillSucceeded"
    and "did' \<noteq> did"
  shows "drill_by_id t did = Some d'"
  using assms by (auto simp: transition_tx_def dest: not_by_update split: option.splits)

text \<open>The final transaction leaves complete evidence.\<close>

lemma upsert_artifact_row:
  assumes "upsert_artifact org did key ct sz sha new_id t = (t1, aid)"
  shows "list_ex (\<lambda>a. ea_id a = aid \<and> ea_sha256 a = sha \<and> ea_storage_key a = key) (evidence_artifacts t1)"
proof (cases "row_with ea_storage_key key (evidence_artifacts t)")
  case None
  with assms show ?thesis by (auto simp: upsert_artifact_def)
next
  case (Some a)
  then have a: "a \<in> set (evidence_artifacts t)" "ea_storage_key a = key" by (auto dest: row_with_SomeD)
  have "evidence_artifacts t1 = update_where (\<lambda>r. ea_storage_key r = key) (\<lambda>r. r\<lparr>ea_sha256 := sha\<rparr>) (evidence_artifacts t)"
    and "aid = ea_id a"
    using assms Some by (auto simp: upsert_artifact_def)
  with a show ?thesis by (simp add: list_ex_update_where [of a])
qed

lemma upsert_evidence_row:
  "list_ex (\<lambda>ev. ev_drill_id ev = did \<and> ev_type ev = ''POSTGRES_RECOVERY'' \<and> ev_artifact_id ev = aid \<and> ev_sha256 ev = sha)
     (evidence_rows (upsert_evidence org did aid sha st t))"
  by (auto simp: upsert_evidence_def list_ex_iff [of _ "evidence_rows t"] intro: list_ex_update_where)

lemma upsert_report_row:
  "list_ex (\<lambda>r. rr_drill_id r = did \<and> rr_status r = ''AVAILABLE'') (recovery_reports (upsert_report org did now t))"
  by (auto simp: upsert_report_def intro: list_ex_update_where)

lemma final_tables [simp]:
  "evidence_artifacts (upsert_report org did now t) = evidence_artifacts t"
  "evidence_rows (upsert_report org did now t) = evidence_rows t"
  "evidence_artifacts (fst (finish_drill did now rpo rto rr tr a c t)) = evidence_artifacts t"
  "evidence_rows (fst (finish_drill did now rpo rto rr tr a c t)) = evidence_rows t"
  "evidence_artifacts (upsert_evidence org did aid sha st t) = evidence_artifacts t"
  by (simp_all add: upsert_report_def finish_drill_def upsert_evidence_def)

lemma evidence_completeI:
  assumes "x \<in> set (evidence_artifacts t)" "ea_id x = ev_artifact_id ev" "ea_sha256 x = ev_sha256 ev"
      "ea_storage_key x = evidence_key org did"
    and "ev \<in> set (evidence_rows t)" "ev_drill_id ev = did" "ev_type ev = ''POSTGRES_RECOVERY''"
    and "r \<in> set (recovery_reports t)" "rr_drill_id r = did" "rr_status r = ''AVAILABLE''"
  shows "evidence_complete org did t"
  unfolding evidence_complete_def list_ex_iff using assms by blast

lemma final_writes_evidence:
  assumes "oi_Key art = evidence_key org did"
  shows "evidence_complete org did (final_writes org did art new_id now oc t)"
proof -
  obtain t1 aid where a: "upsert_artifact org did (oi_Key art) (oi_ContentType art) (oi_Size art) (oi_SHA256 art) (fst new_id) t = (t1, aid)"
    by fastforce
  let ?t' = "final_writes org did art new_id now oc t"
  have "list_ex (\<lambda>x. ea_id x = aid \<and> ea_sha256 x = oi_SHA256 art \<and> ea_storage_key x = evidence_key org did) (evidence_artifacts ?t')"
    using upsert_artifact_row [OF a, unfolded assms] unfolding final_writes_def Let_def a prod.case by simp
  moreover have "list_ex (\<lambda>ev. ev_drill_id ev = did \<and> ev_type ev = ''POSTGRES_RECOVERY'' \<and> ev_artifact_id ev = aid \<and>
      ev_sha256 ev = oi_SHA256 art) (evidence_rows ?t')"
    using upsert_evidence_row unfolding final_writes_def Let_def a prod.case by simp
  moreover have "list_ex (\<lambda>r. rr_drill_id r = did \<and> rr_status r = ''AVAILABLE'') (recovery_reports ?t')"
    using upsert_report_row unfolding final_writes_def Let_def a prod.case by simp
  ultimately obtain x ev r where
      "x \<in> set (evidence_artifacts ?t')" "ea_id x = aid" "ea_sha256 x = oi_SHA256 art" "ea_storage_key x = evidence_key org did"
      "ev \<in> set (evidence_rows ?t')" "ev_drill_id ev = did" "ev_type ev = ''POSTGRES_RECOVERY''" "ev_artifact_id ev = aid"
      "ev_sha256 ev = oi_SHA256 art"
      "r \<in> set (recovery_reports ?t')" "rr_drill_id r = did" "rr_status r = ''AVAILABLE''"
    unfolding list_ex_iff by blast
  then show ?thesis by (intro evidence_completeI [of x _ ev _ _ r]) simp_all
qed

lemma final_writes_drill:
  "drill_by_id (final_writes org did art new_id now oc t) did =
     map_option (\<lambda>d. if dr_status d = DrillFinalizing
       then d\<lparr>dr_status := DrillSucceeded, dr_completed_at := Some now,
                dr_measured_rpo_seconds := Some (oc_rpo oc), dr_measured_rto_seconds := Some (oc_rto oc),
                dr_rpo_result := Some (oc_rpoResult oc), dr_rto_result := Some (oc_rtoResult oc),
                dr_recovery_status := Some (oc_assessment oc), dr_confidence := Some (oc_confidence oc),
                dr_summary := ''Controlled PostgreSQL recovery drill completed under tested conditions'',
                dr_updated_at := now\<rparr>
       else d) (drill_by_id t did)"
  by (cases "drill_by_id t did")
    (auto simp: drill_by_id_def final_writes_rows finish_drill_def row_with_update_where finish_where_def dest: row_with_SomeD)

lemma final_writes_backed:
  assumes "success_backed did t" and "job_at did job t" and "oi_Key art = evidence_key (j_orgID job) did"
  shows "success_backed did (final_writes (j_orgID job) did art new_id now (drill_outcome job ready) t)"
    (is "success_backed did ?t'")
  unfolding success_backed_def
proof (intro allI impI conjI)
  fix d'
  assume d': "drill_by_id ?t' did = Some d'" "dr_status d' = DrillSucceeded"
  have kept: "job_at did job' t \<Longrightarrow> job_at did job' ?t'" for job'
    using job_at_closed final_writes_evolves unfolding evolve_closed_def by blast
  obtain d where d: "drill_by_id t did = Some d" using d'(1) by (auto simp: final_writes_drill)
  have "j_orgID job = dr_organization_id d"
    using assms(2) d by (auto simp: job_at_def job_rows_iff scan_job_def split: option.splits)
  moreover have "dr_organization_id d' = dr_organization_id d"
    using d d'(1) by (auto simp: final_writes_drill split: if_splits)
  ultimately show "evidence_complete (dr_organization_id d') did ?t'"
    using final_writes_evidence [OF assms(3)] by simp
  show "\<exists>job' ready'. job_at did job' ?t' \<and> outcome_recorded d' (drill_outcome job' ready')"
  proof (cases "dr_status d = DrillFinalizing")
    case True
    then have "outcome_recorded d' (drill_outcome job ready)"
      using d d'(1) by (auto simp: final_writes_drill outcome_recorded_def)
    then show ?thesis using kept assms(2) by blast
  next
    case False
    then have "d' = d" using d d'(1) by (simp add: final_writes_drill)
    then show ?thesis using assms(1) d d'(2) kept unfolding success_backed_def by blast
  qed
qed


section \<open>The evidence of other drills\<close>

text \<open>Keys of different drills are different, because an identifier has no slash.\<close>

lemma uuid_form_no_slash: "uuid_form s \<Longrightarrow> CHR ''/'' \<notin> set s"
  by (auto simp: uuid_form_def list_all_iff is_alnum_def is_lower_def is_upper_def is_digit_def)

lemma before_slash:
  assumes "CHR ''/'' \<notin> set x" and "CHR ''/'' \<notin> set y" and "x @ CHR ''/'' # u = y @ CHR ''/'' # v"
  shows "x = y"
  using assms by (induction x arbitrary: y) (auto simp: Cons_eq_append_conv)

lemma evidence_key_inj:
  assumes "evidence_key o1 d1 = evidence_key o2 d2" and "uuid_form d1" and "uuid_form d2"
  shows "d1 = d2"
proof -
  have "((o1 @ ''/drills/'') @ d1) @ ''/evidence/recovery.json'' = ((o2 @ ''/drills/'') @ d2) @ ''/evidence/recovery.json''"
    using assms(1) by (simp add: evidence_key_def)
  then have "(o1 @ ''/drills/'') @ d1 = (o2 @ ''/drills/'') @ d2" by (simp only: append_same_eq)
  then have "rev ((o1 @ ''/drills/'') @ d1) = rev ((o2 @ ''/drills/'') @ d2)" by (simp only:)
  then have "rev d1 @ CHR ''/'' # rev (o1 @ ''/drills'') = rev d2 @ CHR ''/'' # rev (o2 @ ''/drills'')" by simp
  then have "rev d1 = rev d2"
    by (rule before_slash [rotated 2]) (use assms uuid_form_no_slash in simp_all)
  then show ?thesis by simp
qed

lemma unchanged_row_kept: "x \<in> set rows \<Longrightarrow> \<not> p x \<Longrightarrow> x \<in> set (update_where p f rows)"
  by (auto simp: update_where_def image_iff intro!: bexI [of _ x])

lemma upserts_keep:
  "a \<in> set (evidence_artifacts t) \<Longrightarrow> ea_storage_key a \<noteq> key \<Longrightarrow>
     a \<in> set (evidence_artifacts (fst (upsert_artifact org did' key ct sz sha i t)))"
  "ev \<in> set (evidence_rows t) \<Longrightarrow> ev_drill_id ev \<noteq> did' \<Longrightarrow>
     ev \<in> set (evidence_rows (upsert_evidence org did' aid sha st t))"
  "r \<in> set (recovery_reports t) \<Longrightarrow> rr_drill_id r \<noteq> did' \<Longrightarrow>
     r \<in> set (recovery_reports (upsert_report org did' now t))"
  by (auto simp: upsert_artifact_def upsert_evidence_def upsert_report_def intro: unchanged_row_kept split: option.split)

lemma artifact_tables [simp]:
  "evidence_rows (fst (upsert_artifact org did key ct sz sha i t)) = evidence_rows t"
  "recovery_reports (fst (upsert_artifact org did key ct sz sha i t)) = recovery_reports t"
  "recovery_reports (upsert_evidence org did aid sha st t) = recovery_reports t"
  "recovery_reports (fst (finish_drill did now rpo rto rr tr asm conf t)) = recovery_reports t"
  by (simp_all add: upsert_artifact_def upsert_evidence_def finish_drill_def split: option.split)

lemma final_writes_keep_evidence:
  assumes "evidence_complete org did t" and "did \<noteq> did'" and "oi_Key art \<noteq> evidence_key org did"
  shows "evidence_complete org did (final_writes org' did' art new_id now oc t)"
proof -
  obtain t1 aid where a: "upsert_artifact org' did' (oi_Key art) (oi_ContentType art) (oi_Size art) (oi_SHA256 art) (fst new_id) t = (t1, aid)"
    by fastforce
  let ?t' = "final_writes org' did' art new_id now oc t"
  obtain ev x r where old: "ev \<in> set (evidence_rows t)" "ev_drill_id ev = did" "ev_type ev = ''POSTGRES_RECOVERY''"
      "x \<in> set (evidence_artifacts t)" "ea_id x = ev_artifact_id ev" "ea_sha256 x = ev_sha256 ev" "ea_storage_key x = evidence_key org did"
      "r \<in> set (recovery_reports t)" "rr_drill_id r = did" "rr_status r = ''AVAILABLE''"
    using assms(1) by (auto simp: evidence_complete_def list_ex_iff)
  have t1: "t1 = fst (upsert_artifact org' did' (oi_Key art) (oi_ContentType art) (oi_Size art) (oi_SHA256 art) (fst new_id) t)"
    by (simp add: a)
  have "x \<in> set (evidence_artifacts t1)"
    unfolding t1 using old assms(3) by (intro upserts_keep(1)) simp_all
  then have "x \<in> set (evidence_artifacts ?t')" by (simp add: final_writes_def Let_def a)
  moreover have "evidence_rows t1 = evidence_rows t" "recovery_reports t1 = recovery_reports t" by (simp_all add: t1)
  then have "ev \<in> set (evidence_rows ?t')" "r \<in> set (recovery_reports ?t')"
    using old assms(2) by (simp_all add: final_writes_def Let_def a upserts_keep(2,3))
  ultimately show ?thesis using old by (intro evidence_completeI [of x _ ev _ _ r]) simp_all
qed

lemma not_by_final_writes:
  assumes "drill_by_id (final_writes org did' art new_id now oc t) did = Some d'" and "did' \<noteq> did"
  shows "drill_by_id t did = Some d'"
  using assms drill_by_id_update [of "final_writes org did' art new_id now oc t" "finish_where did'" _ t did]
  by (auto simp: final_writes_rows finish_drill_def finish_where_def dest: drill_by_id_id split: if_splits)

lemma final_writes_ids:
  "map dr_id (recovery_drills (final_writes org did art new_id now oc t)) = map dr_id (recovery_drills t)"
  by (simp add: final_writes_rows finish_drill_def map_update_where)

lemma all_backed_ids:
  "all_backed t \<longleftrightarrow> list_all uuid_form (map dr_id (recovery_drills t)) \<and> (\<forall>did. success_backed did t)"
  by (simp add: all_backed_def list_all_iff)

lemma backed_id: "all_backed t \<Longrightarrow> drill_by_id t did = Some d \<Longrightarrow> uuid_form did"
  using drill_by_id_id [of t did d]
  by (auto simp: all_backed_def list_all_iff drill_by_id_def dest!: row_with_SomeD)

lemma final_writes_all_backed:
  assumes "all_backed t" and "job_at did job t" and "oi_Key art = evidence_key (j_orgID job) did"
  shows "all_backed (final_writes (j_orgID job) did art new_id now (drill_outcome job ready) t)"
    (is "all_backed ?t'")
proof -
  have "uuid_form did"
    using assms(1,2) backed_id by (auto simp: job_at_def job_rows_iff)
  have "success_backed did0 ?t'" for did0
  proof (cases "did0 = did")
    case True
    then show ?thesis using assms final_writes_backed by (simp add: all_backed_def)
  next
    case False
    show ?thesis
      unfolding success_backed_def
    proof (intro allI impI)
      fix d
      assume d': "drill_by_id ?t' did0 = Some d" and s: "dr_status d = DrillSucceeded"
      have d: "drill_by_id t did0 = Some d" using not_by_final_writes [OF d'] False by simp
      then have old: "evidence_complete (dr_organization_id d) did0 t \<and> (\<exists>job ready. job_at did0 job t \<and> outcome_recorded d (drill_outcome job ready))"
        using assms(1) s unfolding all_backed_def success_backed_def by blast
      have "oi_Key art \<noteq> evidence_key (dr_organization_id d) did0"
        using evidence_key_inj [of "j_orgID job" did "dr_organization_id d" did0] assms(3) \<open>uuid_form did\<close>
          backed_id [OF assms(1) d] False by auto
      then have "evidence_complete (dr_organization_id d) did0 ?t'"
        using final_writes_keep_evidence old False by blast
      moreover have "job_at did0 job' t \<Longrightarrow> job_at did0 job' ?t'" for job'
        using job_at_closed final_writes_evolves unfolding evolve_closed_def by blast
      ultimately show "evidence_complete (dr_organization_id d) did0 ?t' \<and>
          (\<exists>job ready. job_at did0 job ?t' \<and> outcome_recorded d (drill_outcome job ready))"
        using old by blast
    qed
  qed
  then show ?thesis using assms(1) by (simp add: all_backed_ids final_writes_ids)
qed

text \<open>A step that leaves the evidence alone and lets no drill succeed.\<close>

lemma all_backed_mono:
  assumes "all_backed t" and "tables_evolve t t'" and "same_evidence t t'"
    and "list_all uuid_form (map dr_id (recovery_drills t'))"
    and "\<And>did d'. drill_by_id t' did = Some d' \<Longrightarrow> dr_status d' = DrillSucceeded \<Longrightarrow> drill_by_id t did = Some d'"
  shows "all_backed t'"
  using assms success_backed_mono [OF _ assms(2,3)] unfolding all_backed_ids by blast

lemma ids_kept [simp]:
  "map dr_id (recovery_drills (fst (cancel_drill org did now t))) = map dr_id (recovery_drills t)"
  "map dr_id (recovery_drills (fst (set_terminal did status su now t))) = map dr_id (recovery_drills t)"
  "map dr_id (recovery_drills (update_status did to st now t)) = map dr_id (recovery_drills t)"
  by (simp_all add: cancel_drill_def set_terminal_def update_status_def map_update_where)

lemma ids_transition [simp]:
  "map dr_id (recovery_drills (transition_writes did to ty n now t)) = map dr_id (recovery_drills t)"
  "map dr_id (recovery_drills (fst (transition_tx did to ty n now t))) = map dr_id (recovery_drills t)"
  by (simp_all add: transition_writes_def transition_tx_def split: option.split)

lemma insert_drill_ids:
  "list_all uuid_form (map dr_id (recovery_drills t)) \<Longrightarrow>
   list_all uuid_form (map dr_id (recovery_drills (fst (insert_drill org a s p u k i now t))))"
  by (simp add: insert_drill_def Let_def)

lemma all_backed_drills:
  assumes "all_backed t"
  shows "all_backed (fst (insert_drill org a s p u k i now t))"
    and "all_backed (fst (cancel_drill org did now t))"
    and "status \<in> {DrillFailed, DrillCancelled, DrillInconclusive} \<Longrightarrow> drill_status t did \<noteq> Some DrillQueued \<Longrightarrow>
      all_backed (fst (set_terminal did status su now t))"
    and "\<not> terminal to \<Longrightarrow> all_backed (fst (transition_tx did to ty n now t))"
proof -
  have ids: "list_all uuid_form (map dr_id (recovery_drills t))" using assms by (simp add: all_backed_ids)
  show "all_backed (fst (insert_drill org a s p u k i now t))"
    by (rule all_backed_mono [OF assms insert_drill_evolves]) (use ids in \<open>auto dest: not_by_insert intro!: insert_drill_ids\<close>)
  show "all_backed (fst (cancel_drill org did now t))"
    by (rule all_backed_mono [OF assms cancel_drill_evolves]) (use ids in \<open>auto dest: not_by_cancel\<close>)
  show "all_backed (fst (set_terminal did status su now t))"
    if "status \<in> {DrillFailed, DrillCancelled, DrillInconclusive}" "drill_status t did \<noteq> Some DrillQueued"
    by (rule all_backed_mono [OF assms set_terminal_evolves]) (use ids that in \<open>auto dest: not_by_terminal\<close>)
  have "drill_by_id t did0 = Some d'"
    if "\<not> terminal to" "drill_by_id (fst (transition_tx did to ty n now t)) did0 = Some d'" "dr_status d' = DrillSucceeded" for did0 d'
    using that by (auto simp: transition_tx_def terminal_def dest!: not_by_update split: option.splits)
  then show "all_backed (fst (transition_tx did to ty n now t))" if "\<not> terminal to"
    using that by (intro all_backed_mono [OF assms transition_tx_evolves]) (use ids in \<open>auto\<close>)
qed

lemma select_final:
  "snd (select_job did now t) = Inr job \<Longrightarrow> job_at did job t"
  by (rule select_job_at)

lemma all_backed_other: "all_backed t \<Longrightarrow> all_backed (apply_other now op t)"
proof (cases op)
  case (OtherFinish did artifact newID ready)
  assume J: "all_backed t"
  show ?thesis
    using final_writes_all_backed [OF J, of did _ "artifact\<lparr>oi_Key := evidence_key (j_orgID _) did\<rparr>"]
    by (auto simp: OtherFinish apply_other_def final_tx_of_def J dest!: select_job_at split: sum.split
        intro: final_writes_all_backed [OF J])
next
  case (OtherSnapshot s)
  assume J: "all_backed t"
  show ?thesis
    using all_backed_mono [OF J new_inputs_evolve(1)] J by (simp add: OtherSnapshot apply_other_def all_backed_ids)
next
  case (OtherPolicy s)
  assume J: "all_backed t"
  show ?thesis
    using all_backed_mono [OF J new_inputs_evolve(2)] J by (simp add: OtherPolicy apply_other_def all_backed_ids)
next
  case (OtherRows f)
  assume J: "all_backed t"
  show ?thesis
    using all_backed_mono [OF J other_rows_evolve] J by (simp add: OtherRows apply_other_def all_backed_ids)
next
  case (OtherStep did ty n su)
  assume J: "all_backed t"
  show ?thesis
    using all_backed_mono [OF J step_evolves] J by (simp add: OtherStep apply_other_def all_backed_ids)
next
  case (OtherSandbox org did cr re co ne)
  assume J: "all_backed t"
  show ?thesis
    using all_backed_mono [OF J sandbox_evolves(1)] J by (simp add: OtherSandbox apply_other_def all_backed_ids)
next
  case (OtherDestroyed did)
  assume J: "all_backed t"
  show ?thesis
    using all_backed_mono [OF J sandbox_evolves(2)] J by (simp add: OtherDestroyed apply_other_def all_backed_ids)
qed (simp_all add: apply_other_def all_backed_drills)

interpretation backed: drill_invariant did all_backed for did
proof unfold_locales
  show "stable (Some did) all_backed" by (simp add: stable_def all_backed_other)
  fix t
  assume J: "all_backed t"
  then have ids: "list_all uuid_form (map dr_id (recovery_drills t))" by (simp add: all_backed_ids)
  show "all_backed (insert_step did ty n su now t)" for ty n su now
    using all_backed_mono [OF J step_evolves] ids by simp
  show "all_backed (transition_writes did to ty (step_number to) now t)"
    if "drill_status t did = Some s" "CanTransition s to" "\<not> terminal to" for s to ty now
  proof (rule all_backed_mono [OF J transition_writes_evolves [OF that(1,2)]])
    fix did0 d'
    assume "drill_by_id (transition_writes did to ty (step_number to) now t) did0 = Some d'" "dr_status d' = DrillSucceeded"
    then show "drill_by_id t did0 = Some d'"
      using that(3) by (auto simp: transition_writes_def terminal_def dest!: not_by_update)
  qed (use ids in simp_all)
  show "all_backed (fst (set_terminal did status su now t))"
    if "left_queue did t" "status \<in> {DrillFailed, DrillCancelled, DrillInconclusive}" for status su now
    using all_backed_drills(3) [OF J that(2)] that(1) by (auto simp: left_queue_def)
  show "all_backed (fst (upsert_sandbox org did cr re co ne t))" for org cr re co ne
    using all_backed_mono [OF J sandbox_evolves(1)] ids by simp
  show "all_backed (fst (sandbox_destroyed did now t))" for now
    using all_backed_mono [OF J sandbox_evolves(2)] ids by simp
  show "all_backed (final_writes (j_orgID job) did art new_id now (drill_outcome job ready) t)"
    if "job_at did job t" "oi_Key art = evidence_key (j_orgID job) did" for job art new_id now ready
    using final_writes_all_backed [OF J that] .
qed

end
