(* ===== verification/Drill_Stages.thy ===== *)
theory Drill_Stages
  imports Drill_Evidence
begin

text \<open>
  The history a drill leaves: the steps recorded in \<open>drill_steps\<close> and the start time agree with
  the status, for every run of a worker. A drill that \<open>SUCCEEDED\<close> has recorded every transition
  on the way.
\<close>


section \<open>The steps a drill has recorded\<close>

text \<open>The transitions a drill has gone through by its status; a cancelled drill can have been
  cancelled anywhere.\<close>

fun stages_before :: "DrillStatus \<Rightarrow> int set" where
  "stages_before DrillQueued = {}"
| "stages_before DrillPreparing = {1}"
| "stages_before DrillRestoring = {1, 3}"
| "stages_before DrillValidating = {1, 3, 4}"
| "stages_before DrillFinalizing = {1, 3, 4, 5}"
| "stages_before DrillSucceeded = {1, 3, 4, 5}"
| "stages_before DrillFailed = {1}"
| "stages_before DrillInconclusive = {1}"
| "stages_before DrillCancelled = {}"

definition recorded_steps :: "string \<Rightarrow> tables \<Rightarrow> int set" where
  "recorded_steps did t = set (map ds_sequence (filter (\<lambda>s. ds_drill_id s = did) (drill_steps t)))"

definition stages_recorded :: "string \<Rightarrow> tables \<Rightarrow> bool" where
  "stages_recorded did t =
     (\<forall>d. drill_by_id t did = Some d \<longrightarrow>
        stages_before (dr_status d) \<subseteq> recorded_steps did t \<and>
        (dr_status d \<notin> {DrillQueued, DrillCancelled} \<longrightarrow> dr_started_at d \<noteq> None))"

lemma stages_before_move:
  "CanTransition s to \<Longrightarrow> \<not> terminal to \<Longrightarrow> stages_before to = insert (step_number to) (stages_before s)"
  by (auto simp: CanTransition_iff)

lemma stages_before_abort:
  "s \<noteq> DrillQueued \<Longrightarrow> \<not> terminal s \<Longrightarrow> status \<in> {DrillFailed, DrillCancelled, DrillInconclusive} \<Longrightarrow>
   stages_before status \<subseteq> stages_before s"
  by (cases s) auto

text \<open>A row change that respects the record.\<close>

lemma stages_recorded_row:
  assumes "stages_recorded did t" and "recorded_steps did t \<subseteq> recorded_steps did t'"
    and "\<And>d'. drill_by_id t' did = Some d' \<Longrightarrow>
      drill_by_id t did = Some d' \<or> dr_status d' = DrillQueued \<or> dr_status d' = DrillCancelled \<or>
      (\<exists>d. drill_by_id t did = Some d \<and> stages_before (dr_status d') \<subseteq> stages_before (dr_status d) \<union> recorded_steps did t' \<and>
         dr_started_at d' \<noteq> None)"
  shows "stages_recorded did t'"
  unfolding stages_recorded_def
proof (intro allI impI)
  fix d'
  assume "drill_by_id t' did = Some d'"
  from assms(3) [OF this]
  show "stages_before (dr_status d') \<subseteq> recorded_steps did t' \<and>
      (dr_status d' \<notin> {DrillQueued, DrillCancelled} \<longrightarrow> dr_started_at d' \<noteq> None)"
  proof (elim disjE exE conjE)
    fix d
    assume d: "drill_by_id t did = Some d" and st: "stages_before (dr_status d') \<subseteq> stages_before (dr_status d) \<union> recorded_steps did t'"
      and started: "dr_started_at d' \<noteq> None"
    have "stages_before (dr_status d) \<subseteq> recorded_steps did t'"
      using assms(1,2) d unfolding stages_recorded_def by blast
    with st started show ?thesis by blast
  qed (use assms(1,2) in \<open>auto simp: stages_recorded_def\<close>)
qed

lemma recorded_steps_insert [simp]:
  "recorded_steps did (insert_step did ty n su now t) = insert n (recorded_steps did t)"
proof (cases "list_ex (\<lambda>s. ds_drill_id s = did \<and> ds_sequence s = n) (drill_steps t)")
  case True
  then have "n \<in> recorded_steps did t" by (auto simp: recorded_steps_def list_ex_iff)
  with True show ?thesis by (auto simp: insert_step_def)
next
  case False
  then show ?thesis by (auto simp: insert_step_def recorded_steps_def)
qed

lemma recorded_steps_same:
  "drill_steps t' = drill_steps t \<Longrightarrow> recorded_steps did t' = recorded_steps did t"
  by (simp add: recorded_steps_def)

lemma drill_steps_simps [simp]:
  "drill_steps (update_status did to st now t) = drill_steps t"
  "drill_steps (fst (cancel_drill org did now t)) = drill_steps t"
  "drill_steps (fst (set_terminal did status su now t)) = drill_steps t"
  "drill_steps (fst (upsert_sandbox org did cr re co ne t)) = drill_steps t"
  "drill_steps (fst (sandbox_destroyed did now t)) = drill_steps t"
  "drill_steps (fst (finish_drill did now rpo rto rr tr asm conf t)) = drill_steps t"
  "drill_steps (fst (insert_drill org a s p u k i now t)) = drill_steps t"
  "drill_steps (fst (upsert_artifact org did key ct sz sha new_id t)) = drill_steps t"
  "drill_steps (upsert_evidence org did art sha stamp t) = drill_steps t"
  "drill_steps (upsert_report org did now t) = drill_steps t"
  by (simp_all add: update_status_def cancel_drill_def set_terminal_def upsert_sandbox_def sandbox_destroyed_def
      finish_drill_def insert_drill_def upsert_artifact_def upsert_evidence_def upsert_report_def Let_def
      split: option.splits)

lemma drill_steps_mono: "set (drill_steps t) \<subseteq> set (drill_steps (insert_step did ty n su now t))"
  by (auto simp: insert_step_def)

lemma final_writes_steps [simp]: "drill_steps (final_writes org did art new_id now oc t) = drill_steps t"
proof -
  obtain t1 aid where a: "upsert_artifact org did (oi_Key art) (oi_ContentType art) (oi_Size art) (oi_SHA256 art) (fst new_id) t = (t1, aid)"
    by fastforce
  have "drill_steps t1 = drill_steps t" using a drill_steps_simps(8) by (metis fst_conv)
  then show ?thesis unfolding final_writes_def Let_def a prod.case by simp
qed

lemma final_tx_of_steps [simp]: "drill_steps (fst (final_tx_of did art new_id ready now t)) = drill_steps t"
  by (simp add: final_tx_of_def split: sum.split)

lemma apply_other_steps: "recorded_steps did t \<subseteq> recorded_steps did (apply_other now op t)"
proof -
  have "set (drill_steps t) \<subseteq> set (drill_steps (apply_other now op t))"
    using drill_steps_mono
    by (cases op) (fastforce simp: apply_other_def transition_tx_def split: option.splits)+
  then show ?thesis by (auto simp: recorded_steps_def)
qed


text \<open>What the others can do to the row of a drill that is not theirs.\<close>

lemma update_status_row:
  "drill_by_id (update_status did' to st now t) did =
     map_option (\<lambda>d. if dr_id d = did' then d\<lparr>dr_status := to,
       dr_started_at := (case dr_started_at d of None \<Rightarrow> st | Some x \<Rightarrow> Some x), dr_updated_at := now\<rparr> else d)
     (drill_by_id t did)"
  by (simp add: drill_by_id_def update_status_def row_with_update_where)

lemma update_status_other:
  "did' \<noteq> did \<Longrightarrow> drill_by_id (update_status did' to st now t) did = drill_by_id t did"
  by (cases "drill_by_id t did") (auto simp: update_status_row dest: drill_by_id_id)

lemma other_drill_row:
  assumes "drill_by_id (apply_other now op t) did = Some d'" and "other_allowed (Some did) op"
  shows "drill_by_id t did = Some d' \<or> dr_status d' = DrillQueued \<or> dr_status d' = DrillCancelled"
proof (cases op)
  case (OtherCreate org a s p u k i)
  then show ?thesis
    using assms
    by (auto simp: apply_other_def insert_drill_def Let_def drill_by_id_def row_with_append row_with_single
        split: if_splits option.splits)
next
  case (OtherCancel org did')
  then show ?thesis
    using assms drill_by_id_update [of "fst (cancel_drill org did' now t)" "cancel_where org did'" _ t did]
    by (auto simp: apply_other_def cancel_drill_def split: if_splits)
next
  case (OtherTransition did' to ty)
  then have "did' \<noteq> did" using assms(2) by (simp add: other_allowed_def)
  then have "drill_by_id (fst (transition_tx did' to ty (step_number to) now t)) did = drill_by_id t did"
    by (simp add: transition_tx_def update_status_other split: option.splits)
  then show ?thesis using assms OtherTransition by (simp add: apply_other_def split: if_splits)
next
  case (OtherTerminal did' status su)
  then have "did' \<noteq> did" using assms(2) by (simp add: other_allowed_def)
  then show ?thesis
    using assms OtherTerminal drill_by_id_update [of "fst (set_terminal did' status su now t)" "terminal_where did'" _ t did]
    by (auto simp: apply_other_def set_terminal_def terminal_where_def dest: drill_by_id_id split: if_splits)
next
  case (OtherFinish did' art new_id ready)
  then have "did' \<noteq> did" using assms(2) by (simp add: other_allowed_def)
  then show ?thesis
    using assms(1) by (auto simp: OtherFinish apply_other_def final_tx_of_def dest: not_by_final_writes split: sum.splits if_splits)
qed (use assms in \<open>auto simp: apply_other_def split: if_splits\<close>)

lemma set_terminal_staged:
  assumes "stages_recorded did t" and "left_queue did t"
    and "status \<in> {DrillFailed, DrillCancelled, DrillInconclusive}"
  shows "stages_recorded did (fst (set_terminal did status su now t))"
proof (rule stages_recorded_row [OF assms(1)])
  fix d'
  assume d': "drill_by_id (fst (set_terminal did status su now t)) did = Some d'"
  obtain d where d: "drill_by_id t did = Some d" and q: "dr_status d \<noteq> DrillQueued"
    using assms(2) by (auto simp: left_queue_def drill_status_def)
  show "drill_by_id t did = Some d' \<or> dr_status d' = DrillQueued \<or> dr_status d' = DrillCancelled \<or>
      (\<exists>d. drill_by_id t did = Some d \<and> stages_before (dr_status d') \<subseteq>
         stages_before (dr_status d) \<union> recorded_steps did (fst (set_terminal did status su now t)) \<and>
         dr_started_at d' \<noteq> None)"
  proof (cases "terminal_where did d")
    case True
    then have nt: "\<not> terminal (dr_status d)" by (auto simp: terminal_where_def terminal_def)
    have "stages_before status \<subseteq> stages_before (dr_status d)"
      by (rule stages_before_abort [OF q nt assms(3)])
    moreover have "dr_started_at d \<noteq> None"
      using assms(1) d q nt unfolding stages_recorded_def by fastforce
    moreover have "dr_status d' = status \<and> dr_started_at d' = dr_started_at d"
      using d' d True drill_by_id_update [of "fst (set_terminal did status su now t)" "terminal_where did" _ t did]
      by (auto simp: set_terminal_def)
    ultimately show ?thesis using d by auto
  next
    case False
    then show ?thesis
      using d' d drill_by_id_update [of "fst (set_terminal did status su now t)" "terminal_where did" _ t did]
      by (auto simp: set_terminal_def)
  qed
qed (simp add: recorded_steps_def)

lemma transition_staged:
  assumes "stages_recorded did t" and "drill_status t did = Some s" and "CanTransition s to" and "\<not> terminal to"
  shows "stages_recorded did (transition_writes did to ty (step_number to) now t)" (is "stages_recorded did ?t'")
proof (rule stages_recorded_row [OF assms(1)])
  have steps: "recorded_steps did ?t' = insert (step_number to) (recorded_steps did t)"
    by (simp add: transition_writes_def recorded_steps_def [of did "update_status _ _ _ _ _"] recorded_steps_def [of did t])
  then show "recorded_steps did t \<subseteq> recorded_steps did ?t'" by blast
  fix d'
  assume d': "drill_by_id ?t' did = Some d'"
  obtain d where d: "drill_by_id t did = Some d" and s: "dr_status d = s"
    using assms(2) by (auto simp: drill_status_def)
  have d'_row: "dr_status d' = to" "dr_started_at d' =
      (case dr_started_at d of None \<Rightarrow> if to = DrillPreparing then Some now else None | Some x \<Rightarrow> Some x)"
    using d' d drill_by_id_id [OF d] by (auto simp: transition_writes_def update_status_row)
  have "to \<noteq> DrillPreparing \<Longrightarrow> dr_started_at d \<noteq> None"
    using assms(1,3,4) d s unfolding stages_recorded_def by (fastforce simp: CanTransition_iff)
  then have "dr_started_at d' \<noteq> None" using d'_row(2) by (cases "dr_started_at d") auto
  then show "drill_by_id t did = Some d' \<or> dr_status d' = DrillQueued \<or> dr_status d' = DrillCancelled \<or>
      (\<exists>d. drill_by_id t did = Some d \<and> stages_before (dr_status d') \<subseteq>
         stages_before (dr_status d) \<union> recorded_steps did ?t' \<and> dr_started_at d' \<noteq> None)"
    using d s d'_row(1) steps stages_before_move [OF assms(3,4)] by auto
qed

lemma final_writes_staged:
  assumes "stages_recorded did t"
  shows "stages_recorded did (final_writes org did art new_id now oc t)" (is "stages_recorded did ?t'")
proof (rule stages_recorded_row [OF assms])
  show "recorded_steps did t \<subseteq> recorded_steps did ?t'" by (simp add: recorded_steps_def)
  fix d'
  assume d': "drill_by_id ?t' did = Some d'"
  then obtain d where d: "drill_by_id t did = Some d" by (auto simp: final_writes_drill)
  show "drill_by_id t did = Some d' \<or> dr_status d' = DrillQueued \<or> dr_status d' = DrillCancelled \<or>
      (\<exists>d. drill_by_id t did = Some d \<and> stages_before (dr_status d') \<subseteq>
         stages_before (dr_status d) \<union> recorded_steps did ?t' \<and> dr_started_at d' \<noteq> None)"
  proof (cases "dr_status d = DrillFinalizing")
    case True
    then have "dr_started_at d \<noteq> None" using assms d unfolding stages_recorded_def by fastforce
    moreover have "dr_status d' = DrillSucceeded" "dr_started_at d' = dr_started_at d"
      using d' d True by (auto simp: final_writes_drill)
    ultimately show ?thesis using d True by auto
  next
    case False
    then show ?thesis using d' d by (simp add: final_writes_drill)
  qed
qed

text \<open>What another worker does to its own drill keeps the record of that drill, too.\<close>

definition all_staged :: "tables \<Rightarrow> bool" where
  "all_staged t = (\<forall>did. stages_recorded did t)"

lemma set_terminal_other:
  "did' \<noteq> did \<or> drill_by_id t did = None \<Longrightarrow> drill_by_id (fst (set_terminal did' status su now t)) did = drill_by_id t did"
  using drill_by_id_update [of "fst (set_terminal did' status su now t)" "terminal_where did'" _ t did]
  by (cases "drill_by_id t did") (auto simp: set_terminal_def terminal_where_def dest: drill_by_id_id)

lemma stages_kept:
  assumes "stages_recorded did t" and "recorded_steps did t \<subseteq> recorded_steps did t'"
    and "\<And>d. drill_by_id t' did = Some d \<Longrightarrow> drill_by_id t did = Some d"
  shows "stages_recorded did t'"
  using assms by (intro stages_recorded_row [OF assms(1,2)]) blast

lemma staged_moves:
  assumes "all_staged t" and "drill_status t did = Some s" and "CanTransition s to" and "\<not> terminal to"
  shows "all_staged (transition_writes did to ty (step_number to) now t)"
  unfolding all_staged_def
proof
  fix did0
  have J: "stages_recorded did0 t" using assms(1) by (simp add: all_staged_def)
  show "stages_recorded did0 (transition_writes did to ty (step_number to) now t)"
  proof (cases "did0 = did")
    case True
    then show ?thesis using transition_staged [OF J] assms(2-4) by simp
  next
    case False
    have "recorded_steps did0 t \<subseteq> recorded_steps did0 (transition_writes did to ty (step_number to) now t)"
      using drill_steps_mono by (fastforce simp: transition_writes_def recorded_steps_def)
    then show ?thesis
      by (rule stages_kept [OF J]) (use False in \<open>simp add: transition_writes_def update_status_other\<close>)
  qed
qed

lemma staged_ends:
  assumes "all_staged t" and "drill_status t did \<noteq> Some DrillQueued"
    and "status \<in> {DrillFailed, DrillCancelled, DrillInconclusive}"
  shows "all_staged (fst (set_terminal did status su now t))"
  unfolding all_staged_def
proof
  fix did0
  have J: "stages_recorded did0 t" using assms(1) by (simp add: all_staged_def)
  show "stages_recorded did0 (fst (set_terminal did status su now t))"
  proof (cases "did0 = did \<and> drill_by_id t did \<noteq> None")
    case True
    then have "left_queue did0 t" using assms(2) by (auto simp: left_queue_def drill_status_def)
    then show ?thesis using set_terminal_staged [OF J _ assms(3)] True by simp
  next
    case False
    then have "drill_by_id (fst (set_terminal did status su now t)) did0 = drill_by_id t did0"
      by (intro set_terminal_other) auto
    then show ?thesis by (intro stages_kept [OF J]) (simp_all add: recorded_steps_def)
  qed
qed

lemma staged_final:
  assumes "all_staged t"
  shows "all_staged (final_writes org did art new_id now oc t)"
  unfolding all_staged_def
proof
  fix did0
  have J: "stages_recorded did0 t" using assms by (simp add: all_staged_def)
  show "stages_recorded did0 (final_writes org did art new_id now oc t)"
  proof (cases "did0 = did")
    case True
    then show ?thesis using final_writes_staged [OF J] by simp
  next
    case False
    then show ?thesis
      by (intro stages_kept [OF J]) (auto simp: recorded_steps_def dest: not_by_final_writes)
  qed
qed

lemma staged_other:
  assumes "all_staged t"
  shows "all_staged (apply_other now op t)"
  unfolding all_staged_def
proof
  fix did
  have J: "stages_recorded did t" using assms by (simp add: all_staged_def)
  show "stages_recorded did (apply_other now op t)"
  proof (cases "other_allowed (Some did) op")
    case True
    show ?thesis
      by (rule stages_recorded_row [OF J apply_other_steps]) (use other_drill_row [OF _ True] in blast)
  next
    case False
    show ?thesis
    proof (cases op)
      case (OtherTransition did' to ty)
      show ?thesis
      proof (cases "drill_by_id t did' = None \<or> terminal to")
        case True
        then show ?thesis using J by (auto simp: OtherTransition apply_other_def transition_tx_def)
      next
        case no_none: False
        then obtain d where d: "drill_by_id t did' = Some d" "\<not> terminal to" by auto
        have "apply_other now op t = t \<or>
            CanTransition (dr_status d) to \<and> apply_other now op t = transition_writes did' to ty (step_number to) now t"
          using d by (auto simp: OtherTransition apply_other_def transition_tx_def transition_writes_def Transition_def)
        then show ?thesis
          using J staged_moves [OF assms, of did' "dr_status d" to ty now] d by (auto simp: all_staged_def drill_status_def)
      qed
    next
      case (OtherTerminal did' status su)
      then show ?thesis using staged_ends [OF assms, of did' status su now] J by (auto simp: apply_other_def all_staged_def)
    next
      case (OtherFinish did' art new_id ready)
      then show ?thesis
        using staged_final [OF assms] J by (auto simp: apply_other_def final_tx_of_def all_staged_def split: sum.split)
    next
      case (OtherStep did' ty n su)
      show ?thesis
        by (rule stages_kept [OF J apply_other_steps]) (simp add: OtherStep apply_other_def)
    next
      case (OtherSandbox org did' cr re co ne)
      show ?thesis
        by (rule stages_kept [OF J apply_other_steps]) (simp add: OtherSandbox apply_other_def)
    next
      case (OtherDestroyed did')
      show ?thesis
        by (rule stages_kept [OF J apply_other_steps]) (simp add: OtherDestroyed apply_other_def)
    qed (use False in \<open>simp_all add: other_allowed_def\<close>)
  qed
qed

interpretation staged: drill_invariant did all_staged for did
proof unfold_locales
  show "stable (Some did) all_staged" by (simp add: stable_def staged_other)
  fix t
  assume J: "all_staged t"
  show "all_staged (insert_step did ty n su now t)" for ty n su now
    using staged_other [OF J, of now "OtherStep did ty n su"] by (simp add: apply_other_def)
  show "all_staged (fst (upsert_sandbox org did cr re co ne t))" for org cr re co ne
    using staged_other [OF J, of now "OtherSandbox org did cr re co ne" for now] by (simp add: apply_other_def)
  show "all_staged (fst (sandbox_destroyed did now t))" for now
    using staged_other [OF J, of now "OtherDestroyed did"] by (simp add: apply_other_def)
  show "all_staged (final_writes (j_orgID job) did art new_id now (drill_outcome job ready) t)"
    for job art new_id now ready
    by (rule staged_final [OF J])
  show "left_queue did t \<Longrightarrow> status \<in> {DrillFailed, DrillCancelled, DrillInconclusive} \<Longrightarrow>
      all_staged (fst (set_terminal did status su now t))" for status su now
    by (rule staged_ends [OF J]) (auto simp: left_queue_def)
  show "drill_status t did = Some s \<Longrightarrow> CanTransition s to \<Longrightarrow> \<not> terminal to \<Longrightarrow>
      all_staged (transition_writes did to ty (step_number to) now t)" for s to ty now
    by (rule staged_moves [OF J])
qed

end
