(* ===== verification/Worker_Cleanup.thy ===== *)
theory Worker_Cleanup
  imports Drill_Invariant
begin

text \<open>
  What a run of the worker leaves behind outside the database: the Docker commands it issued,
  the pool's running set and the event hub. The calls to the database and to storage leave this
  part of the world alone, so only the Docker commands and the published events matter.
\<close>

section \<open>The process-local part of the world\<close>

record process =
  pr_docker :: "docker_call list"
  pr_hub :: EventHub
  pr_crashed :: bool
  pr_running :: "string list"
  pr_jobs :: "string list"

definition process_of :: "world \<Rightarrow> process" where
  "process_of w = \<lparr>pr_docker = w_docker w, pr_hub = w_hub w, pr_crashed = w_crashed w,
     pr_running = w_running w, pr_jobs = w_jobs w\<rparr>"

definition on_process :: "(process \<Rightarrow> bool) \<Rightarrow> world \<Rightarrow> bool" where
  "on_process P w = P (process_of w)"

lemma process_of_upd [simp]:
  "process_of (w\<lparr>w_step := a\<rparr>) = process_of w"
  "process_of (w\<lparr>w_db := b\<rparr>) = process_of w"
  "process_of (w\<lparr>w_cancelled := c\<rparr>) = process_of w"
  by (simp_all add: process_of_def)

lemma on_process_step_free [simp]: "step_free (on_process P)"
  by (simp add: step_free_def on_process_def)

lemma process_of_storage: "storage_only w w' \<Longrightarrow> process_of w' = process_of w"
  by (simp add: process_of_def storage_only_simps)

lemma on_process_storage: "on_process P w \<Longrightarrow> storage_only w w' \<Longrightarrow> on_process P w'"
  by (simp add: on_process_def process_of_storage)

lemma process_of_others [simp]: "process_of (fold (do_other e now) ops w) = process_of w"
  by (induction ops arbitrary: w) (simp_all add: do_other_def split: other.splits)

lemma keeps_interleave_process [keeps_intros]: "keeps (on_process P) (interleave e mine)"
  unfolding interleave_def by (rule keeps_upd) (simp add: on_process_def)

lemmas keeps_calls_process [keeps_intros] =
  keeps_tick [OF on_process_step_free] keeps_call [OF on_process_step_free]
  keeps_clock_Now [OF on_process_step_free] keeps_uuid [OF on_process_step_free]

lemma keeps_db_exec_process [keeps_intros]: "keeps (on_process P) (db_exec e mine f)"
  unfolding db_exec_def
  by (intro keeps_intros) (auto simp: keeps_def hoare_def on_process_def Let_def split: prod.splits fate.splits)

lemma keeps_commit_process [keeps_intros]: "keeps (on_process P) (tx_commit e f)"
  unfolding tx_commit_def
  by (intro keeps_intros) (auto simp: keeps_def hoare_def on_process_def split: fate.splits)

lemma keeps_process_storage [keeps_intros]:
  "keeps (on_process P) (os_CreateTemp e dir pre suf)"
  "keeps (on_process P) (copy_to_file e name rd)"
  "keeps (on_process P) (os_Remove e name)"
  "keeps (on_process P) (obj_Put e s key rd sz ct)"
  "keeps (on_process P) (obj_Get e s key)"
  "keeps (on_process P) (obj_Delete e s key)"
  by (rule keeps_by_storage, rule keeps_os keeps_objects, erule (1) on_process_storage)+


section \<open>Invariants of the process-local part\<close>

text \<open>A predicate that survives every event the worker publishes and every command of a sandbox
  operation survives the run.\<close>

locale process_invariant =
  fixes P :: "process \<Rightarrow> bool" and e :: env
  assumes published: "keeps (on_process P) (publish e ev)"
begin

lemma keeps_recordStep: "keeps (on_process P) (recordStep e did ty n su)"
  unfolding recordStep_def by (intro keeps_intros published)

lemma keeps_transition: "keeps (on_process P) (transition e did to ty n)"
  unfolding transition_def by (intro keeps_intros keeps_get published)

lemma keeps_setTerminal: "keeps (on_process P) (setTerminal e did status su)"
  unfolding setTerminal_def by (intro keeps_intros published)

lemma keeps_fail: "keeps (on_process P) (fail_drill e did su)"
  unfolding fail_drill_def by (intro keeps_intros keeps_setTerminal)

lemma keeps_finalize: "keeps (on_process P) (finalize e objects did job key art oc)"
  unfolding finalize_def final_tx_def by (intro keeps_intros keeps_get published)

lemma keeps_collect:
  assumes "\<And>s. keeps (on_process P) (Destroy e s)"
  shows "keeps (on_process P) (collect_evidence e objects did job s h ready)"
  unfolding collect_evidence_def Let_def
  by (intro keeps_intros keeps_fail keeps_finalize assms)

lemma keeps_run_body:
  assumes "\<And>ex spec. keeps (on_process P) (sandbox_Create e ex spec)"
    and "\<And>s. keeps (on_process P) (Destroy e s)"
    and "\<And>s path. keeps (on_process P) (CopyPostgresBackup e s path)"
    and "\<And>s. keeps (on_process P) (RestorePostgresPlain e s)"
    and "\<And>s. keeps (on_process P) (ValidatePostgresConnectivity e s)"
  shows "keeps (on_process P) (run_body e deps did)"
  unfolding run_body_def configured_run_def stage_phase_def sandbox_phase_def restore_phase_def
    validate_phase_def Let_def
  by (intro keeps_intros keeps_fail keeps_collect keeps_recordStep keeps_transition keeps_setTerminal assms)

end

text \<open>The hub stays well-formed and no publication panics.\<close>

definition hub_ok :: "process \<Rightarrow> bool" where
  "hub_ok pr = (hub_inv (pr_hub pr) \<and> \<not> pr_crashed pr)"

lemma publish_hub_ok: "keeps (on_process hub_ok) (publish e ev)"
  unfolding publish_def
proof (rule keeps_upd)
  fix w
  assume w: "on_process hub_ok w"
  then obtain h where "Publish marshal_event ev (w_hub w) = Some h" "hub_inv h"
    using Publish_inv [of "w_hub w" marshal_event ev] by (auto simp: on_process_def hub_ok_def process_of_def)
  with w show "on_process hub_ok (case Publish marshal_event ev (w_hub w) of
       None \<Rightarrow> w\<lparr>w_crashed := True\<rparr> | Some h \<Rightarrow> w\<lparr>w_hub := h\<rparr>)"
    by (simp add: on_process_def hub_ok_def process_of_def)
qed

interpretation hub_kept: process_invariant hub_ok e for e
  by unfold_locales (rule publish_hub_ok)

definition running_is :: "string list \<Rightarrow> process \<Rightarrow> bool" where
  "running_is rs pr = (pr_running pr = rs)"

interpretation running_kept: process_invariant "running_is rs" e for rs e
proof unfold_locales
  show "keeps (on_process (running_is rs)) (publish e ev)" for ev
    unfolding publish_def
    by (rule keeps_upd) (simp add: on_process_def running_is_def process_of_def split: option.splits)
qed

lemma hub_ok_docker: "on_process hub_ok w \<Longrightarrow> docker_only w w' \<Longrightarrow> on_process hub_ok w'"
  by (simp add: on_process_def hub_ok_def process_of_def docker_only_simps)

lemma running_docker: "on_process (running_is rs) w \<Longrightarrow> docker_only w w' \<Longrightarrow> on_process (running_is rs) w'"
  by (simp add: on_process_def running_is_def process_of_def docker_only_simps)

lemma run_body_hub_ok: "keeps (on_process hub_ok) (run_body e deps did)"
  by (rule hub_kept.keeps_run_body; rule keeps_by_docker, rule keeps_sandbox, erule (1) hub_ok_docker)

lemma run_body_running: "keeps (on_process (running_is rs)) (run_body e deps did)"
  by (rule running_kept.keeps_run_body; rule keeps_by_docker, rule keeps_sandbox, erule (1) running_docker)

lemma run_leaves_pool:
  assumes "hub_inv (w_hub w)" and "\<not> w_crashed w"
    and run: "run_state (worker_run e deps did) w = (u, w')"
  shows "hub_inv (w_hub w') \<and> \<not> w_crashed w' \<and> w_running w' = removeAll did (w_running w)"
proof -
  let ?w1 = "w\<lparr>w_running := List.insert did (w_running w), w_cancelled := removeAll did (w_cancelled w)\<rparr>"
  let ?w2 = "snd (run_state (run_body e deps did) ?w1)"
  have "on_process hub_ok ?w1"
    using assms by (simp add: on_process_def hub_ok_def process_of_def)
  then have "on_process hub_ok ?w2" by (rule keeps_run [OF run_body_hub_ok])
  moreover have "on_process (running_is (List.insert did (w_running w))) ?w2"
    by (rule keeps_run [OF run_body_running]) (simp add: on_process_def running_is_def process_of_def)
  moreover have "w' = ?w2\<lparr>w_running := removeAll did (w_running ?w2)\<rparr>"
    using run by (auto simp: worker_run_def split: prod.splits)
  ultimately show ?thesis
    by (auto simp: on_process_def hub_ok_def running_is_def process_of_def List.insert_def)
qed



section \<open>The Docker commands of a run\<close>

definition docker_log :: "(docker_call list \<Rightarrow> bool) \<Rightarrow> process \<Rightarrow> bool" where
  "docker_log Q pr = Q (pr_docker pr)"

interpretation log_kept: process_invariant "docker_log Q" e for Q e
proof unfold_locales
  show "keeps (on_process (docker_log Q)) (publish e ev)" for ev
    unfolding publish_def
    by (rule keeps_upd) (simp add: on_process_def docker_log_def process_of_def split: option.splits)
qed

abbreviation on_log :: "(docker_call list \<Rightarrow> bool) \<Rightarrow> world \<Rightarrow> bool" where
  "on_log Q \<equiv> on_process (docker_log Q)"

lemma on_log_iff [simp]: "on_log Q w = Q (w_docker w)"
  by (simp add: on_process_def docker_log_def process_of_def)

text \<open>The log since a given point, with commands from a given set.\<close>

definition log_within :: "docker_call list \<Rightarrow> string list set \<Rightarrow> docker_call list \<Rightarrow> bool" where
  "log_within L S L' = (\<exists>mid. L' = L @ mid \<and> fst ` set mid \<subseteq> S)"

definition log_removed :: "docker_call list \<Rightarrow> string list set \<Rightarrow> Sandbox \<Rightarrow> docker_call list \<Rightarrow> bool" where
  "log_removed L S s L' = (\<exists>mid rem. L' = L @ mid @ rem \<and> map fst rem = sandbox_removal s \<and> fst ` set mid \<subseteq> S)"

lemma keeps_in_sandbox:
  "cmd (sx_ContainerName s) \<in> S \<Longrightarrow> keeps (on_log (log_within L S)) (in_sandbox e s cmd what)"
  unfolding in_sandbox_def
  by (intro keeps_intros) (auto simp: keeps_def hoare_def log_within_def)

definition restore_cmds :: "Sandbox \<Rightarrow> string \<Rightarrow> string list set" where
  "restore_cmds s path =
     {copy_cmd path (sx_ContainerName s), restore_cmd (sx_ContainerName s), connect_cmd (sx_ContainerName s)} \<union>
     set (sandbox_removal s)"

lemma keeps_restore_cmds:
  "restore_cmds s path \<subseteq> S \<Longrightarrow> keeps (on_log (log_within L S)) (CopyPostgresBackup e s path)"
  "restore_cmds s path \<subseteq> S \<Longrightarrow> keeps (on_log (log_within L S)) (RestorePostgresPlain e s)"
  "restore_cmds s path \<subseteq> S \<Longrightarrow> keeps (on_log (log_within L S)) (ValidatePostgresConnectivity e s)"
  unfolding CopyPostgresBackup_def RestorePostgresPlain_def ValidatePostgresConnectivity_def
  by (rule keeps_in_sandbox, simp add: restore_cmds_def)+

lemma destroy_removed:
  assumes "managed_sandbox s"
  shows "hoare (on_log (log_within L S)) (Destroy e s) (\<lambda>_. on_log (log_removed L S s))"
proof (rule hoareI)
  fix w r w'
  assume "on_log (log_within L S) w" and run: "run_state (Destroy e s) w = (r, w')"
  then obtain mid where "w_docker w = L @ mid" "fst ` set mid \<subseteq> S" by (auto simp: log_within_def)
  moreover obtain rem where "w_docker w' = w_docker w @ rem" "map fst rem = sandbox_removal s"
    using run_Destroy [OF assms, of e w] run by auto
  ultimately show "on_log (log_removed L S s) w'" by (auto simp: log_removed_def)
qed

lemma log_removed_within:
  "set (sandbox_removal s) \<subseteq> S \<Longrightarrow> log_removed L S s L' \<Longrightarrow> log_within L S L'"
proof -
  assume sub: "set (sandbox_removal s) \<subseteq> S" and "log_removed L S s L'"
  then obtain mid rem where rem: "L' = L @ mid @ rem" "map fst rem = sandbox_removal s" "fst ` set mid \<subseteq> S"
    by (auto simp: log_removed_def)
  have "fst ` set rem \<subseteq> S" using sub rem(2) by (metis list.set_map)
  with rem show ?thesis unfolding log_within_def by (intro exI [of _ "mid @ rem"]) auto
qed


text \<open>The result flag says whether the removal of the sandbox was the last thing Docker was told.\<close>

definition flag_log :: "docker_call list \<Rightarrow> string list set \<Rightarrow> Sandbox \<Rightarrow> bool \<Rightarrow> world \<Rightarrow> bool" where
  "flag_log L S s destroyed w = on_log (if destroyed then log_removed L S s else log_within L S) w"

lemma hoare_return_flag:
  assumes "keeps (on_log Q) m" and "\<And>w. on_log Q w \<Longrightarrow> flag_log L S s b w"
  shows "hoare (on_log Q) (do { m; State_Monad.return b }) (flag_log L S s)"
  using assms by (auto simp: keeps_def hoare_def split: prod.splits)

lemma hoare_return_False: "hoare (on_log (log_within L S)) (State_Monad.return False) (flag_log L S s)"
  by (rule hoare_return) (simp add: flag_log_def)

lemma hoare_fail_flag:
  "hoare (on_log (log_within L S)) (do { fail_drill e did su; State_Monad.return False }) (flag_log L S s)"
  by (rule hoare_return_flag [OF log_kept.keeps_fail]) (simp add: flag_log_def)

lemma collect_log:
  assumes "managed_sandbox s" and "set (sandbox_removal s) \<subseteq> S"
  shows "hoare (on_log (log_within L S)) (collect_evidence e objects did job s h ready) (flag_log L S s)"
  unfolding collect_evidence_def Let_def
proof (rule hoare_keeps_bind, intro keeps_intros)
  fix put
  let ?key = "evidence_key (j_orgID job) did"
  have down: "hoare (on_log (log_removed L S s)) (do { x \<leftarrow> obj_Delete e objects ?key; fail_drill e did su; State_Monad.return False })
      (flag_log L S s)" for su
  proof -
    have "keeps (on_log (log_removed L S s)) (do { x \<leftarrow> obj_Delete e objects ?key; fail_drill e did su })"
      by (intro keeps_intros log_kept.keeps_fail)
    then show ?thesis
      using log_removed_within [OF assms(2)]
      by (auto simp: keeps_def hoare_def flag_log_def split: prod.splits)
  qed
  have ok: "hoare (on_log (log_removed L S s)) (do {
        x \<leftarrow> db_exec e (Some did) (sandbox_destroyed did);
        finalize e objects did job ?key art oc;
        State_Monad.return True }) (flag_log L S s)" for art oc
  proof -
    have "keeps (on_log (log_removed L S s)) (do {
        x \<leftarrow> db_exec e (Some did) (sandbox_destroyed did); finalize e objects did job ?key art oc })"
      by (intro keeps_intros log_kept.keeps_finalize)
    then show ?thesis by (auto simp: keeps_def hoare_def flag_log_def split: prod.splits)
  qed
  show "hoare (on_log (log_within L S)) (case put of
       Inl _ \<Rightarrow> do { fail_drill e did ''Recovery evidence could not be stored''; State_Monad.return False }
     | Inr artifact \<Rightarrow> do {
         err \<leftarrow> Destroy e s;
         case err of
           Some _ \<Rightarrow> do {
             _ \<leftarrow> obj_Delete e objects ?key;
             fail_drill e did ''Sandbox cleanup failed'';
             State_Monad.return False }
         | None \<Rightarrow> do {
             _ \<leftarrow> db_exec e (Some did) (sandbox_destroyed did);
             finalize e objects did job ?key artifact (drill_outcome job ready);
             State_Monad.return True } }) (flag_log L S s)"
    using down ok hoare_fail_flag
    by (auto intro!: hoare_bind [OF destroy_removed [OF assms(1)]] split: sum.splits option.splits)
qed

lemma phases_log:
  assumes "managed_sandbox s" and "restore_cmds s path \<subseteq> S"
  shows "hoare (on_log (log_within L S)) (restore_phase e objects did job s path h) (flag_log L S s)"
proof -
  have sub: "set (sandbox_removal s) \<subseteq> S" using assms(2) by (simp add: restore_cmds_def)
  note rules = hoare_return_False hoare_fail_flag hoare_keeps_bind keeps_restore_cmds [OF assms(2)]
    log_kept.keeps_transition log_kept.keeps_recordStep keeps_calls_process keeps_return keeps_db_exec_process
  have val: "hoare (on_log (log_within L S)) (validate_phase e objects did job s h) (flag_log L S s)"
    unfolding validate_phase_def
    by (rule hoare_keeps_bind [OF log_kept.keeps_transition])
      (auto split: option.splits intro!: rules collect_log [OF assms(1) sub])
  show ?thesis
    unfolding restore_phase_def
    by (rule hoare_keeps_bind [OF keeps_db_exec_process])
      (auto split: option.splits sum.splits intro!: rules val)
qed

text \<open>The whole life of a sandbox: of what its commands create, nothing is left, but for a network whose
  creation failed.\<close>

definition drill_cmds :: "SandboxSpec \<Rightarrow> string \<Rightarrow> string \<Rightarrow> string \<Rightarrow> string \<Rightarrow> string list set" where
  "drill_cmds spec path c n v =
     {network_create n, volume_create v, run_args spec c n v, logs_cmd c, ready_cmd c,
      copy_cmd path c, restore_cmd c, connect_cmd c, rm_container c, rm_network n, rm_volume v}"

lemma drill_cmds_removal:
  "set (sandbox_removal s) \<subseteq> drill_cmds spec path (sx_ContainerName s) (sx_NetworkName s) (sx_VolumeName s)"
  by (simp add: sandbox_removal_def removal_cmds_def drill_cmds_def)

definition log_clean :: "SandboxSpec \<Rightarrow> string \<Rightarrow> docker_call list \<Rightarrow> docker_call list \<Rightarrow> bool" where
  "log_clean spec path L L' =
     (\<exists>cs c n v. L' = L @ cs \<and> nothing_left cs \<and> fst ` set cs \<subseteq> drill_cmds spec path c n v)"

lemma log_clean_refl: "log_clean spec path L L"
  by (simp add: log_clean_def nothing_left_def)

lemma create_log:
  assumes "run_state (sandbox_Create e ex spec) w = (r, w')"
  shows "case r of
      Inl _ \<Rightarrow> log_clean spec path (w_docker w) (w_docker w')
    | Inr s \<Rightarrow> managed_sandbox s \<and>
        log_within (w_docker w) (drill_cmds spec path (sx_ContainerName s) (sx_NetworkName s) (sx_VolumeName s)) (w_docker w')"
proof (cases "sp_Image spec = de_allowedImage ex \<and> \<not> spec_invalid spec")
  case False
  then show ?thesis using assms run_sandbox_Create_refused [of spec ex e w] log_clean_refl by auto
next
  case True
  let ?b = "base_name spec (uuid_at e (w_step w))"
  obtain cs where cs: "w_docker w' = w_docker w @ cs" "create_cmds spec ?b r cs"
    using run_sandbox_Create [OF _ _ assms] True by blast
  have sub: "fst ` set cs \<subseteq> drill_cmds spec path (?b @ ''-pg'') (?b @ ''-net'') (?b @ ''-data'')"
    using create_commands [OF cs(2)] by (auto simp: drill_cmds_def)
  show ?thesis
  proof (cases r)
    case (Inl er)
    then have "nothing_left cs" using create_left_over [OF cs(2)] by simp
    then have "log_clean spec path (w_docker w) (w_docker w')" unfolding log_clean_def using cs(1) sub by blast
    then show ?thesis using Inl by simp
  next
    case (Inr s)
    then have "managed_sandbox s" using cs(2) create_managed by blast
    moreover have "sx_ContainerName s = ?b @ ''-pg''" "sx_NetworkName s = ?b @ ''-net''" "sx_VolumeName s = ?b @ ''-data''"
      using cs(2) Inr by (auto simp: create_cmds_def Let_def)
    ultimately show ?thesis using Inr cs(1) sub by (auto simp: log_within_def)
  qed
qed

lemma log_removed_clean:
  assumes "log_removed L (drill_cmds spec path (sx_ContainerName s) (sx_NetworkName s) (sx_VolumeName s)) s L'"
  shows "log_clean spec path L L'"
proof -
  let ?c = "sx_ContainerName s" and ?n = "sx_NetworkName s" and ?v = "sx_VolumeName s"
  let ?S = "drill_cmds spec path ?c ?n ?v"
  obtain mid rem where mid: "L' = L @ mid @ rem" "map fst rem = sandbox_removal s" "fst ` set mid \<subseteq> ?S"
    using assms by (auto simp: log_removed_def)
  have "fst ` set rem \<subseteq> ?S"
    using mid(2) by (metis (no_types, lifting) drill_cmds_removal list.set_map)
  then have "fst ` set (mid @ rem) \<subseteq> ?S" using mid(3) by auto
  moreover have "left_over (mid @ rem) = []"
  proof (rule left_over_cmds)
    show "map fst (mid @ rem) = map fst mid @ removal_cmds ?c ?n ?v"
      using mid(2) by (simp add: sandbox_removal_def)
    show "\<forall>cmd \<in> set (map fst mid). creation cmd \<in> {None, Some (Container ?c), Some (Network ?n), Some (Volume ?v)}"
      using mid(3) by (auto simp: drill_cmds_def)
  qed
  ultimately show ?thesis unfolding log_clean_def nothing_left_def using mid(1) by blast
qed

lemma sandbox_phase_log:
  "hoare (\<lambda>w. w_docker w = L) (sandbox_phase e deps ex objects did job path h)
     (\<lambda>_. on_log (log_clean (worker_spec deps did (j_orgID job)) path L))"
  unfolding sandbox_phase_def
proof (rule hoare_bind)
  let ?spec = "worker_spec deps did (j_orgID job)"
  let ?S = "\<lambda>s. drill_cmds ?spec path (sx_ContainerName s) (sx_NetworkName s) (sx_VolumeName s)"
  let ?mid = "\<lambda>r w. case r of Inl _ \<Rightarrow> on_log (log_clean ?spec path L) w
      | Inr s \<Rightarrow> managed_sandbox s \<and> on_log (log_within L (?S s)) w"
  show "hoare (\<lambda>w. w_docker w = L) (sandbox_Create e ex ?spec) ?mid"
    by (rule hoareI) (drule create_log [where path = path], simp split: sum.splits)
  fix r
  have removed: "on_log (log_removed L (?S s) s) w \<Longrightarrow> on_log (log_clean ?spec path L) w" for s w
    using log_removed_clean by simp
  show "hoare (?mid r) (case r of
       Inl _ \<Rightarrow> fail_drill e did ''Sandbox creation failed''
     | Inr sandbox \<Rightarrow> do {
         destroyed \<leftarrow> restore_phase e objects did job sandbox path h;
         if destroyed then State_Monad.return ()
         else do {
           _ \<leftarrow> Destroy e sandbox;
           _ \<leftarrow> db_exec e (Some did) (sandbox_destroyed did);
           State_Monad.return ()
         }
       }) (\<lambda>_. on_log (log_clean ?spec path L))"
  proof (cases r)
    case (Inl er)
    then show ?thesis
      using log_kept.keeps_fail [of "log_clean ?spec path L" e did] by (simp add: keeps_def hoare_def)
  next
    case (Inr s)
    have sub: "restore_cmds s path \<subseteq> ?S s"
      by (auto simp: restore_cmds_def drill_cmds_def sandbox_removal_def removal_cmds_def)
    have fin: "managed_sandbox s \<Longrightarrow> hoare (flag_log L (?S s) s d) (if d then State_Monad.return ()
         else do {
           _ \<leftarrow> Destroy e s;
           _ \<leftarrow> db_exec e (Some did) (sandbox_destroyed did);
           State_Monad.return ()
         }) (\<lambda>_. on_log (log_clean ?spec path L))" for d
    proof (cases d)
      case True
      then show ?thesis using removed by (auto intro!: hoare_return simp: flag_log_def)
    next
      case False
      assume m: "managed_sandbox s"
      have "keeps (on_log (log_removed L (?S s) s)) (do { x \<leftarrow> db_exec e (Some did) (sandbox_destroyed did); State_Monad.return () })"
        by (intro keeps_intros)
      then have "hoare (on_log (log_within L (?S s))) (do {
           _ \<leftarrow> Destroy e s; _ \<leftarrow> db_exec e (Some did) (sandbox_destroyed did); State_Monad.return () })
          (\<lambda>_. on_log (log_removed L (?S s) s))"
        by (intro hoare_bind [OF destroy_removed [OF m]]) (simp add: keeps_def)
      then show ?thesis
        using False removed by (auto simp: flag_log_def hoare_def split: prod.splits)
    qed
    show ?thesis
    proof (cases "managed_sandbox s")
      case True
      then show ?thesis
        using Inr hoare_bind [OF phases_log [OF True sub] fin [OF True]] by (simp add: hoare_def)
    qed (simp add: Inr hoare_def)
  qed
qed

text \<open>The run as a whole: before the sandbox phase no command is issued.\<close>

definition run_log :: "WorkerDependencies \<Rightarrow> string \<Rightarrow> docker_call list \<Rightarrow> docker_call list \<Rightarrow> bool" where
  "run_log deps did L L' = (\<exists>org path. log_clean (worker_spec deps did org) path L L')"

lemma run_log_refl: "run_log deps did L L"
  by (auto simp: run_log_def log_clean_refl)

lemma stage_phase_log:
  "hoare (on_log (\<lambda>L'. L' = L)) (stage_phase e deps ex objects did job path) (\<lambda>_. on_log (run_log deps did L))"
proof -
  have eq: "(\<lambda>w. w_docker w = L) = on_log (\<lambda>L'. L' = L)" by (simp add: fun_eq_iff)
  have post: "hoare (on_log (\<lambda>L'. L' = L)) (fail_drill e did su) (\<lambda>_. on_log (run_log deps did L))" for su
    using log_kept.keeps_fail [of "\<lambda>L'. L' = L" e did su]
    unfolding keeps_def by (rule hoare_post) (simp add: run_log_refl)
  have sandbox: "hoare (on_log (\<lambda>L'. L' = L)) (sandbox_phase e deps ex objects did job path h) (\<lambda>_. on_log (run_log deps did L))" for h
    using sandbox_phase_log [of L] unfolding eq by (rule hoare_post) (auto simp: run_log_def)
  show ?thesis
    unfolding stage_phase_def Let_def
    by (auto intro!: hoare_keeps_bind keeps_process_storage keeps_calls_process post sandbox
        split: sum.splits prod.splits)
qed

lemma run_body_log:
  "hoare (\<lambda>w. w_docker w = L) (run_body e deps did) (\<lambda>_. on_log (run_log deps did L))"
proof -
  have eq: "(\<lambda>w. w_docker w = L) = on_log (\<lambda>L'. L' = L)" by (simp add: fun_eq_iff)
  have lift: "keeps (on_log (\<lambda>L'. L' = L)) m \<Longrightarrow> hoare (on_log (\<lambda>L'. L' = L)) m (\<lambda>_. on_log (run_log deps did L))"
    for m :: "unit program"
    unfolding keeps_def by (erule hoare_post) (simp add: run_log_refl)
  have stage: "hoare (on_log (\<lambda>L'. L' = L)) (do {
        stage_phase e deps ex objects did job path; _ \<leftarrow> os_Remove e path; State_Monad.return () })
      (\<lambda>_. on_log (run_log deps did L))" for ex objects job path
    by (rule hoare_bind [OF stage_phase_log])
      (rule keeps_bind [OF keeps_process_storage(3) keeps_return, unfolded keeps_def])
  have inc: "hoare (on_log (\<lambda>L'. L' = L)) (do { _ \<leftarrow> setTerminal e did st su; State_Monad.return () })
      (\<lambda>_. on_log (run_log deps did L))" for st su
    by (rule lift) (intro keeps_bind keeps_return log_kept.keeps_setTerminal)
  have return: "hoare (on_log (\<lambda>L'. L' = L)) (State_Monad.return ()) (\<lambda>_. on_log (run_log deps did L))"
    by (rule lift) (rule keeps_return)
  have configured: "hoare (on_log (\<lambda>L'. L' = L)) (configured_run e deps ex objects did)
      (\<lambda>_. on_log (run_log deps did L))" for ex objects
    unfolding configured_run_def
    by (rule hoare_keeps_bind [OF log_kept.keeps_transition])
      (auto intro!: hoare_keeps_bind [OF keeps_db_exec_process] hoare_keeps_bind [OF keeps_process_storage(1)] stage
        inc return lift [OF log_kept.keeps_fail] split: option.splits sum.splits)
  show ?thesis
    unfolding eq run_body_def
    by (auto intro!: configured inc hoare_keeps_bind [OF log_kept.keeps_transition] split: option.splits)
qed

end
