(* ===== verification/Json_Round_Trip.thy ===== *)
theory Json_Round_Trip
  imports Go_Json
begin

text \<open>
  Reading what was written: a decoder gets back every value whose strings are valid UTF-8.
\<close>

section \<open>Runes and escapes\<close>

lemma hex_value_digit: "k < 16 \<Longrightarrow> hex_value (hex_digit k) = Some k"
  by (auto simp: hex_value_def hex_digit_def of_char_of)

lemma hex4_digits: "r < 65536 \<Longrightarrow> hex4 (map (\<lambda>k. hex_digit (r div 16 ^ k mod 16)) [3, 2, 1, 0] @ s) = Some (r, s)"
proof -
  assume r: "r < 65536"
  have top: "r div 4096 < 16" using r by (simp add: less_mult_imp_div_less)
  have "((r div 4096 * 16 + r div 256 mod 16) * 16 + r div 16 mod 16) * 16 + r mod 16 = r"
  proof -
    have "r div 4096 * 16 + r div 256 mod 16 = r div 256"
      using div_mult_mod_eq [of "r div 256" 16] by (simp add: div_mult2_eq [symmetric])
    moreover have "r div 256 * 16 + r div 16 mod 16 = r div 16"
      using div_mult_mod_eq [of "r div 16" 16] by (simp add: div_mult2_eq [symmetric])
    ultimately show ?thesis using div_mult_mod_eq [of r 16] by simp
  qed
  then show ?thesis by (simp add: top hex_value_digit power_numeral_even power_numeral_odd)
qed

text \<open>The bytes of a rune that is not invalid.\<close>

lemma decode_rune_bytes:
  assumes "decode_rune bs = (r, w)" and "(r, w) \<noteq> (65533, 1)"
  obtains (one) b t where "bs = b # t" "b < 128" "r = b" "w = 1"
  | (two) b0 b1 t where "bs = b0 # b1 # t" "194 \<le> b0" "b0 \<le> 223" "cont b1" "r = (b0 - 192) * 64 + (b1 - 128)" "w = 2"
  | (three) b0 b1 b2 t where "bs = b0 # b1 # b2 # t" "224 \<le> b0" "b0 \<le> 239" "second_ok b0 b1" "cont b2"
      "r = (b0 - 224) * 4096 + (b1 - 128) * 64 + (b2 - 128)" "w = 3"
  | (four) b0 b1 b2 b3 t where "bs = b0 # b1 # b2 # b3 # t" "240 \<le> b0" "b0 \<le> 244" "second_ok b0 b1" "cont b2" "cont b3"
      "r = (b0 - 240) * 262144 + (b1 - 128) * 4096 + (b2 - 128) * 64 + (b3 - 128)" "w = 4"
proof (cases bs)
  case Nil
  then show ?thesis using assms by (simp add: decode_rune_def)
next
  case (Cons b0 t0)
  consider "b0 < 128" | "194 \<le> b0" "b0 \<le> 223" | "224 \<le> b0" "b0 \<le> 239" | "240 \<le> b0" "b0 \<le> 244"
    | "128 \<le> b0" "b0 < 194 \<or> 244 < b0" by linarith
  then show ?thesis
  proof cases
    case 1
    then show ?thesis using assms Cons by (intro one) (simp_all add: decode_rune_def)
  next
    case 2
    then obtain b1 t1 where "t0 = b1 # t1" "cont b1" "r = (b0 - 192) * 64 + (b1 - 128)" "w = 2"
      using assms Cons by (cases t0) (simp_all add: decode_rune_def split: if_splits)
    then show ?thesis using 2 Cons by (intro two) simp_all
  next
    case 3
    then obtain b1 b2 t1 where "t0 = b1 # b2 # t1"
      using assms Cons by (cases t0; cases "tl t0") (simp_all add: decode_rune_def)
    then show ?thesis
      using 3 assms Cons by (intro three [of b0 b1 b2 t1]) (auto simp: decode_rune_def split: if_splits)
  next
    case 4
    then obtain b1 b2 b3 t1 where "t0 = b1 # b2 # b3 # t1"
      using assms Cons by (cases t0; cases "tl t0"; cases "tl (tl t0)") (simp_all add: decode_rune_def)
    then show ?thesis
      using 4 assms Cons by (intro four [of b0 b1 b2 b3 t1]) (auto simp: decode_rune_def split: if_splits)
  next
    case 5
    then have "decode_rune bs = (65533, 1)" unfolding Cons decode_rune_def by (auto simp del: One_nat_def)
    then show ?thesis using assms by simp
  qed
qed

lemma second_ok_cont: "second_ok b0 b1 \<Longrightarrow> cont b1 \<and> (b0 = 224 \<longrightarrow> 160 \<le> b1) \<and> (b0 = 240 \<longrightarrow> 144 \<le> b1)"
  by (auto simp: second_ok_def cont_def split: if_splits)

lemma decode_rune_cases:
  assumes "decode_rune bs = (r, w)" and "(r, w) \<noteq> (65533, 1)"
  shows "w \<le> length bs \<and> (r < 128 \<and> w = 1 \<and> hd bs = r \<or> 128 \<le> r \<and> 1 < w \<and> 194 \<le> hd bs)"
  using assms
proof (cases rule: decode_rune_bytes)
  case (three b0 b1 b2 t)
  then have "128 \<le> b1" "b0 = 224 \<longrightarrow> 160 \<le> b1" using second_ok_cont cont_def by blast+
  then have "128 \<le> r" using three(2,6) by (cases "b0 = 224") linarith+
  then show ?thesis using three by simp
next
  case (four b0 b1 b2 b3 t)
  then have "128 \<le> b1" "b0 = 240 \<longrightarrow> 144 \<le> b1" using second_ok_cont cont_def by blast+
  then have "128 \<le> r" using four(2,7) by (cases "b0 = 240") linarith+
  then show ?thesis using four by simp
qed simp_all

lemma decode_rune_take:
  assumes "decode_rune bs = (r, w)" and "(r, w) \<noteq> (65533, 1)"
  shows "decode_rune (take w bs @ x) = (r, w)"
  using assms by (cases rule: decode_rune_bytes) (simp_all add: decode_rune_def)

text \<open>The two line separators are three bytes each.\<close>

lemma decode_separator:
  assumes "decode_rune bs = (r, w)" and "r = 0x2028 \<or> r = 0x2029"
  shows "take w bs = [226, 128, 128 + r mod 64]"
proof -
  have "(r, w) \<noteq> (65533, 1)" using assms(2) by auto
  from assms(1) this show ?thesis
  proof (cases rule: decode_rune_bytes)
    case (three b0 b1 b2 t)
    then have b: "128 \<le> b1" "b1 \<le> 191" "128 \<le> b2" "b2 \<le> 191" using second_ok_cont cont_def by blast+
    then have "b0 = 226" using three(2,6) assms(2) by linarith
    then have "b1 = 128" using three(6) assms(2) b by linarith
    then show ?thesis using three b \<open>b0 = 226\<close> assms(2) by auto
  next
    case (two b0 b1 t)
    then have "r \<le> (223 - 192) * 64 + (191 - 128)" by (auto simp: cont_def)
    then show ?thesis using assms(2) by auto
  next
    case (four b0 b1 b2 b3 t)
    then have "128 \<le> b1" "b0 = 240 \<longrightarrow> 144 \<le> b1" using second_ok_cont cont_def by blast+
    then have "65536 \<le> r" using four(2,7) by (cases "b0 = 240") linarith+
    then show ?thesis using assms(2) by auto
  qed (use assms(2) in auto)
qed


section \<open>Strings\<close>

lemma quote_body_rune:
  assumes "s \<noteq> []" and "decode_rune (map of_char s) = (r, w)"
  shows "quote_body s = quote_rune r (take w s) @ quote_body (drop w s)"
  using assms by (subst quote_body.simps) simp

lemma control_chars:
  "char_of (0x22 :: nat) = CHR 0x22" "char_of (0x5C :: nat) = CHR 0x5C" "char_of (8 :: nat) = CHR 0x08"
  "char_of (12 :: nat) = CHR 0x0C" "char_of (10 :: nat) = CHR 0x0A" "char_of (13 :: nat) = CHR 0x0D"
  "char_of (9 :: nat) = CHR 0x09"
  by (simp_all add: char_of_eq_iff)

lemma read_quoted_rune:
  assumes "s \<noteq> []" and "decode_rune (map of_char s) = (r, w)" and "(r, w) \<noteq> (65533, 1)"
  shows "read_string (Suc n) (quote_rune r (take w s) @ x) = map_option (apfst ((@) (take w s))) (read_string n x)"
proof -
  let ?bs = "map of_char s :: nat list"
  have hd_s: "hd ?bs = of_char (hd s)" using assms(1) by (simp add: hd_map)
  have split: "w \<le> length s" "r < 128 \<and> w = 1 \<and> of_char (hd s) = r \<or> 128 \<le> r \<and> 1 < w \<and> 194 \<le> (of_char (hd s) :: nat)"
    using decode_rune_cases [OF assms(2,3)] by (simp_all add: hd_s)
  have ascii: "take w s = [char_of r]" if "r < 128"
  proof -
    have "w = 1" "hd s = char_of r" using split(2) that by (auto simp: char_of_eq_iff)
    then show ?thesis using assms(1) by (cases s) simp_all
  qed
  have esc: "read_string (Suc n) (u_escape r @ x) = map_option (apfst ((@) (encode_rune r))) (read_string n x)"
    if "r < 55296"
  proof -
    have "read_u (map (\<lambda>k. hex_digit (r div 16 ^ k mod 16)) [3, 2, 1, 0] @ x) = Some (encode_rune r, x)"
      using that by (simp only: read_u_def hex4_digits) simp
    then show ?thesis by (simp add: u_escape_def read_escape_def)
  qed
  have len: "length (take w s) = w" using split(1) by simp
  consider (control) "r \<in> {0x22, 0x5C, 8, 12, 10, 13, 9}" | (escaped) "r \<notin> {0x22, 0x5C, 8, 12, 10, 13, 9}" "r < 32 \<or> r \<in> {0x26, 0x3C, 0x3E}"
    | (separator) "r = 0x2028 \<or> r = 0x2029"
    | (raw) "r \<notin> {0x22, 0x5C, 0x26, 0x3C, 0x3E, 0x2028, 0x2029}" "32 \<le> r" by fastforce
  then show ?thesis
  proof cases
    case control
    then have "take w s = [char_of r]" by (intro ascii) auto
    with control show ?thesis
      by (elim insertE emptyE) (simp_all add: quote_rune_def read_escape_def control_chars)
  next
    case escaped
    then have "r < 128" by auto
    have "quote_rune r (take w s) = u_escape r" using escaped by (auto simp: quote_rune_def)
    moreover have "encode_rune r = take w s" using ascii [OF \<open>r < 128\<close>] \<open>r < 128\<close> by (simp add: encode_rune_def)
    ultimately show ?thesis using esc \<open>r < 128\<close> by simp
  next
    case separator
    have "take w s = map char_of (take w ?bs)" by (simp add: take_map [symmetric] map_idI)
    also have "take w ?bs = [226, 128, 128 + r mod 64]" by (rule decode_separator [OF assms(2) separator])
    also have "map char_of [226, 128, 128 + r mod 64] = encode_rune r" using separator by (auto simp: encode_rune_def)
    finally have "encode_rune r = take w s" by simp
    moreover have "quote_rune r (take w s) = u_escape r" using separator by (auto simp: quote_rune_def)
    ultimately show ?thesis using esc separator by auto
  next
    case raw
    have "quote_rune r (take w s) = take w s" using raw assms(3) len by (auto simp: quote_rune_def)
    moreover obtain c t where c: "take w s = c # t" and cs: "c = hd s"
      using assms(1) split(2) by (cases s; cases w) auto
    have "decode_rune (map of_char (take w s @ x)) = (r, w)"
      using decode_rune_take [OF assms(2,3), of "map of_char x"] by (simp add: take_map)
    moreover have "(of_char c :: nat) \<noteq> 0x22" "(of_char c :: nat) \<noteq> 0x5C" "\<not> (of_char c :: nat) < 32"
      using split(2) raw cs by auto
    then have "c \<noteq> CHR 0x22" "c \<noteq> CHR 0x5C" by auto
    moreover have "drop w (take w s @ x) = x" "take w (take w s @ x) = take w s" using len by simp_all
    ultimately show ?thesis using \<open>\<not> (of_char c :: nat) < 32\<close> assms(3) by (auto simp: c)
  qed
qed

lemma read_string_quote:
  assumes "valid_utf8 (map of_char s)" and "length (quote_body s) < n"
  shows "read_string n (quote_body s @ CHR 0x22 # rest) = Some (s, rest)"
  using assms
proof (induction s arbitrary: n rule: quote_body.induct)
  case (1 s)
  obtain n' where n: "n = Suc n'" using 1(3) by (cases n) simp_all
  show ?case
  proof (cases "s = []")
    case True
    then show ?thesis by (simp add: n quote_body.simps)
  next
    case False
    obtain r w where d: "decode_rune (map of_char s) = (r, w)" by fastforce
    then have ok: "(r, w) \<noteq> (65533, 1)" "valid_utf8 (map of_char (drop w s))"
      using 1(2) False by (subst (asm) valid_utf8.simps; simp add: drop_map)+
    have q: "quote_body s = quote_rune r (take w s) @ quote_body (drop w s)" by (rule quote_body_rune [OF False d])
    have "quote_rune r (take w s) \<noteq> []"
      using decode_rune_cases [OF d ok(1)] False by (auto simp: quote_rune_def u_escape_def)
    then have "length (quote_body (drop w s)) < n'" using 1(3) n q by (cases "quote_rune r (take w s)") simp_all
    then have "read_string n' (quote_body (drop w s) @ CHR 0x22 # rest) = Some (drop w s, rest)"
      using 1(1) [OF False _ ok(2)] d by simp
    then show ?thesis unfolding n q append_assoc read_quoted_rune [OF False d ok(1)] by simp
  qed
qed


section \<open>Numbers\<close>

definition number_end :: "string \<Rightarrow> bool" where
  "number_end s = (case s of [] \<Rightarrow> True | c # _ \<Rightarrow> \<not> is_digit c \<and> c \<notin> {CHR ''.'', CHR ''e'', CHR ''E''})"

lemma read_digits_append:
  assumes "list_all is_digit ds" and "ds \<noteq> []" and "number_end rest"
  shows "read_digits (ds @ rest) = Some (ds, rest)"
proof -
  have "takeWhile is_digit rest = []" "dropWhile is_digit rest = rest"
    using assms(3) by (cases rest; simp add: number_end_def)+
  then have split: "takeWhile is_digit (ds @ rest) = ds" "dropWhile is_digit (ds @ rest) = rest"
    using assms(1) by (simp_all add: list_all_iff)
  show ?thesis unfolding read_digits_def split using assms(2) by (cases ds) simp_all
qed

lemma format_dec_first: "0 < i \<Longrightarrow> hd (format_dec i) \<noteq> CHR ''0''"
proof (induction i rule: format_dec.induct)
  case (1 i)
  show ?case
  proof (cases "i < 10")
    case True
    then have "(of_char (digit_char (nat i)) :: nat) = 48 + nat i" by (simp add: of_char_of)
    moreover have "(of_char (CHR ''0'') :: nat) = 48" by simp
    ultimately have "digit_char (nat i) \<noteq> CHR ''0''" using 1(2) by (metis add_cancel_left_right nat_0_iff not_le)
    then show ?thesis using True by (simp add: format_dec.simps [of i])
  next
    case False
    then show ?thesis using 1 by (simp add: format_dec.simps [of i])
  qed
qed

lemma read_int_format: "0 \<le> i \<Longrightarrow> number_end rest \<Longrightarrow> read_int (format_dec i @ rest) = Some (format_dec i, rest)"
proof (cases "i = 0")
  case True
  then show ?thesis by (simp add: read_int_def format_dec.simps char_of_eq_iff)
next
  case False
  assume i: "0 \<le> i" and "number_end rest"
  then have "read_digits (format_dec i @ rest) = Some (format_dec i, rest)"
    by (intro read_digits_append format_dec_digits) simp_all
  moreover obtain c cs where "format_dec i = c # cs" by (cases "format_dec i") simp_all
  moreover have "c \<noteq> CHR ''0''" using format_dec_first [of i] i False \<open>format_dec i = c # cs\<close> by simp
  ultimately show ?thesis by (simp add: read_int_def)
qed

lemma no_fraction: "number_end rest \<Longrightarrow> read_fraction rest = Some ([], rest) \<and> read_exponent rest = Some ([], rest)"
  by (cases rest) (auto simp: number_end_def read_fraction_def read_exponent_def HasPrefix_def)

lemma read_number_format:
  assumes "number_end rest"
  shows "read_number (format_int i @ rest) = Some (JNum i, rest)"
proof (cases "i < 0")
  case True
  then show ?thesis
    using read_int_format [OF _ assms, of "- i"] no_fraction [OF assms] format_dec_value [of "- i"]
    by (simp add: read_number_def format_int_def HasPrefix_def Let_def)
next
  case False
  then have "list_all is_digit (format_dec i)" by (intro format_dec_digits) simp
  then have "\<not> HasPrefix (format_dec i @ rest) ''-''"
    by (cases "format_dec i") (auto simp: HasPrefix_def is_digit_def)
  then show ?thesis
    using False read_int_format [OF _ assms, of i] no_fraction [OF assms] format_dec_value [of i]
    by (simp add: read_number_def format_int_def Let_def)
qed


section \<open>Values\<close>

text \<open>A value a decoder reads back: its strings are valid UTF-8, it nests at most so deep, and its numbers
  are integers.\<close>

fun json_ok :: "nat \<Rightarrow> json \<Rightarrow> bool" where
  "json_ok d (JStr s) = valid_utf8 (map of_char s)"
| "json_ok d (JLit s) = False"
| "json_ok d (JArr xs) = (0 < d \<and> list_all (json_ok (d - 1)) xs)"
| "json_ok d (JObj kvs) = (0 < d \<and> list_all (\<lambda>kv. valid_utf8 (map of_char (fst kv)) \<and> json_ok (d - 1) (snd kv)) kvs)"
| "json_ok d v = True"

lemma number_end_brackets [simp]: "number_end (CHR '']'' # s)" "number_end (CHR ''}'' # s)" "number_end (CHR '','' # s)"
  by (simp_all add: number_end_def is_digit_def)

lemma format_int_first: "\<exists>c cs. format_int i = c # cs \<and> (is_digit c \<or> c = CHR ''-'')"
proof (cases "i < 0")
  case False
  then have "list_all is_digit (format_dec i)" by (intro format_dec_digits) simp
  then show ?thesis using False by (cases "format_dec i") (auto simp: format_int_def)
qed (simp add: format_int_def)

lemma read_value_number:
  assumes "number_end rest"
  shows "read_value (Suc n) d (format_int i @ rest) = Some (JNum i, rest)"
proof -
  obtain c cs where c: "format_int i = c # cs" "is_digit c \<or> c = CHR ''-''" using format_int_first by blast
  then have "\<not> json_space c" "c \<notin> {CHR 0x22, CHR ''{'', CHR ''['', CHR ''t'', CHR ''f'', CHR ''n''}"
    by (auto simp: json_space_def is_digit_def)
  then show ?thesis using read_number_format [OF assms, of i] c(1) by simp
qed

lemma read_value_string:
  assumes "valid_utf8 (map of_char s)"
  shows "read_value (Suc n) d (json_quote s @ rest) = Some (JStr s, rest)"
  using read_string_quote [OF assms, of "length (quote_body s @ CHR 0x22 # rest)" rest]
  by (simp add: json_quote_def json_space_def)

text \<open>The first byte of a value decides how it is read, and is no white space.\<close>

lemma json_Marshal_first: "json_ok d v \<Longrightarrow> \<exists>c cs. json_Marshal v = c # cs \<and> \<not> json_space c \<and> c \<noteq> CHR '']'' \<and> c \<noteq> CHR ''}''"
proof (cases v)
  case (JNum i)
  then show ?thesis using format_int_first [of i] by (auto simp: json_space_def is_digit_def)
qed (auto simp: json_quote_def json_space_def)

lemma skip_first: "\<not> json_space c \<Longrightarrow> skip_json_space (c # s) = c # s"
  by simp

lemma read_Marshal:
  "json_ok d v \<Longrightarrow> number_end rest \<Longrightarrow> length (json_Marshal v) \<le> n \<Longrightarrow>
     read_value n d (json_Marshal v @ rest) = Some (v, rest)"
  "xs \<noteq> [] \<Longrightarrow> list_all (json_ok d) xs \<Longrightarrow> length (json_items xs) < n \<Longrightarrow>
     read_items n d (json_items xs @ CHR '']'' # rest) = Some (xs, rest)"
  "kvs \<noteq> [] \<Longrightarrow> list_all (\<lambda>kv. valid_utf8 (map of_char (fst kv)) \<and> json_ok d (snd kv)) kvs \<Longrightarrow> length (json_members kvs) < n \<Longrightarrow>
     read_members n d (json_members kvs @ CHR ''}'' # rest) = Some (kvs, rest)"
proof (induction v and xs and kvs arbitrary: n d rest and n d rest and n d rest
    rule: json_Marshal_json_items_json_members.induct)
  case 1
  then show ?case by (cases n) (simp_all add: json_space_def read_word_def HasPrefix_def)
next
  case (2 b)
  then show ?case by (cases n; cases b) (simp_all add: json_space_def read_word_def HasPrefix_def)
next
  case (3 i)
  then show ?case using read_value_number [OF 3(2)] format_int_first [of i] by (cases n) auto
next
  case (5 s)
  then show ?case using read_value_string [of s] by (cases n) (simp_all add: json_quote_def)
next
  case (6 xs)
  obtain n' where n: "n = Suc n'" using 6(4) by (cases n) simp_all
  show ?case
  proof (cases xs)
    case Nil
    then show ?thesis using 6(2) by (simp add: n json_space_def)
  next
    case (Cons x ys)
    then obtain c cs where c: "json_Marshal x = c # cs" "\<not> json_space c" "c \<noteq> CHR '']''"
      using 6(2) json_Marshal_first by fastforce
    have "read_items n' (d - 1) (json_items xs @ CHR '']'' # rest) = Some (xs, rest)"
      using 6 Cons n by simp
    moreover obtain t where "json_items xs @ CHR '']'' # rest = c # t" using Cons c(1) by simp
    ultimately show ?thesis using 6(2) c n by (simp add: json_space_def)
  qed
next
  case (7 kvs)
  obtain n' where n: "n = Suc n'" using 7(4) by (cases n) simp_all
  show ?case
  proof (cases kvs)
    case Nil
    then show ?thesis using 7(2) by (simp add: n json_space_def)
  next
    case (Cons kv ys)
    have "read_members n' (d - 1) (json_members kvs @ CHR ''}'' # rest) = Some (kvs, rest)"
      using 7 Cons n by simp
    moreover obtain t where "json_members kvs @ CHR ''}'' # rest = CHR 0x22 # t"
      using Cons by (cases kv) (simp add: json_quote_def)
    ultimately show ?thesis using 7(2) n by (simp add: json_space_def)
  qed
next
  case (9 x xs)
  obtain n' where n: "n = Suc n'" using 9(5) by (cases n) simp_all
  show ?case
  proof (cases "xs = []")
    case True
    have "read_value n' d (json_Marshal x @ CHR '']'' # rest) = Some (x, CHR '']'' # rest)"
      using 9(1) [of d "CHR '']'' # rest" n'] 9(4,5) n True by simp
    then show ?thesis using n True by (simp add: json_space_def)
  next
    case False
    have "read_value n' d (json_Marshal x @ CHR '','' # json_items xs @ CHR '']'' # rest) =
        Some (x, CHR '','' # json_items xs @ CHR '']'' # rest)"
      using 9(1) [of d "CHR '','' # json_items xs @ CHR '']'' # rest" n'] 9(4,5) n False by simp
    moreover have "read_items n' d (json_items xs @ CHR '']'' # rest) = Some (xs, rest)"
      using 9(2) [of d n' rest] 9(4,5) n False by simp
    ultimately show ?thesis using n False by (simp add: json_space_def)
  qed
next
  case (11 k v kvs)
  obtain n' where n: "n = Suc n'" using 11(5) by (cases n) simp_all
  let ?tail = "if kvs = [] then CHR ''}'' # rest else CHR '','' # json_members kvs @ CHR ''}'' # rest"
  have key: "read_string (length (quote_body k @ CHR 0x22 # x)) (quote_body k @ CHR 0x22 # x) = Some (k, x)" for x
    using 11(4) by (intro read_string_quote) simp_all
  have val: "read_value n' d (json_Marshal v @ ?tail) = Some (v, ?tail)"
    using 11(1) [of d ?tail n'] 11(4,5) n by simp
  have more: "kvs \<noteq> [] \<Longrightarrow> read_members n' d (json_members kvs @ CHR ''}'' # rest) = Some (kvs, rest)"
    using 11(2) [of d n' rest] 11(4,5) n by simp
  have "json_members ((k, v) # kvs) @ CHR ''}'' # rest = CHR 0x22 # quote_body k @ CHR 0x22 # CHR '':'' # json_Marshal v @ ?tail"
    by (simp add: json_quote_def)
  then show ?case
    using key [of "CHR '':'' # json_Marshal v @ ?tail"] val more n
    by (cases "kvs = []") (simp_all add: json_space_def del: read_string.simps)
qed simp_all

text \<open>The decoder and the encoder.\<close>

lemma json_first_Marshal:
  assumes "json_ok 10000 v" and "r_data rd = json_Marshal v @ rest" and "number_end rest" and "rest \<noteq> [] \<or> r_err rd = None"
  shows "json_first rd = Some v"
  using read_Marshal(1) [OF assms(1,3), of "length (r_data rd) + 1"] assms(2,4)
  by (auto simp: json_first_def split: json.split)

end
