(* ===== verification/Evidence_Document.thy ===== *)
theory Evidence_Document
  imports Worker Json_Round_Trip
begin

text \<open>
  The evidence document: what is stored for a successful drill is JSON that reads back as the document,
  and its size is bounded.
\<close>

section \<open>Instants in text\<close>

definition ascii :: "string \<Rightarrow> bool" where
  "ascii s = list_all (\<lambda>c. (of_char c :: nat) < 128) s"

lemma ascii_simps [simp]:
  "ascii []" "ascii (c # s) \<longleftrightarrow> (of_char c :: nat) < 128 \<and> ascii s" "ascii (s @ s') \<longleftrightarrow> ascii s \<and> ascii s'"
  by (simp_all add: ascii_def)

lemma ascii_valid: "ascii s \<Longrightarrow> valid_utf8 (map of_char s)"
  by (rule valid_utf8_ascii) (simp add: ascii_def list_all_length)

lemma ascii_digits: "list_all is_digit s \<Longrightarrow> ascii s"
  by (auto simp: ascii_def list_all_iff is_digit_def)

lemma ascii_format_dec: "0 \<le> i \<Longrightarrow> ascii (format_dec i)"
  by (simp add: ascii_digits format_dec_digits)

lemma ascii_pad: "ascii (pad w i)"
  by (simp add: pad_def zero_pad_def ascii_format_dec) (simp add: ascii_def list_all_iff)

lemma length_pad: "0 \<le> i \<Longrightarrow> 0 < w \<Longrightarrow> i < 10 ^ w \<Longrightarrow> length (pad w i) = w"
  by (simp add: pad_def length_zero_pad format_dec_length)

lemma ascii_nano: "ascii (nano_text ns)"
proof -
  have "set (dropWhile p (rev (pad 9 ns))) \<subseteq> set (pad 9 ns)" for p
    by (metis set_dropWhileD set_rev subsetI)
  then show ?thesis using ascii_pad [of 9 ns] by (auto simp: nano_text_def ascii_def list_all_iff)
qed

lemma length_nano: "0 \<le> ns \<Longrightarrow> ns < time_Second \<Longrightarrow> length (nano_text ns) \<le> 10"
  using length_pad [of ns 9] length_dropWhile_le [of "\<lambda>c. c = CHR ''0''" "rev (pad 9 ns)"]
  by (auto simp: nano_text_def)

lemma ascii_seconds_text: "ascii (seconds_text t)"
  by (simp add: seconds_text_def date_text_def clock_text_def ascii_pad Let_def split: prod.split)

lemma length_clock_text: "0 \<le> s \<Longrightarrow> s < 86400 \<Longrightarrow> length (clock_text s) = 8"
  by (simp add: clock_text_def length_pad)

lemma time_Marshal_text:
  assumes "time_Marshal t = Some s"
  shows "ascii s" and "length s \<le> 31"
proof -
  let ?days = "t div time_Second div 86400"
  obtain y m d where c: "civil ?days = (y, m, d)" by (metis surj_pair)
  have y: "0 \<le> y" "y < 10000" and s: "s = RFC3339Nano t"
    using assms c by (auto simp: time_Marshal_def Let_def split: if_splits)
  show "ascii s" unfolding s by (simp add: RFC3339Nano_def ascii_seconds_text ascii_nano)
  have m: "1 \<le> m" "m \<le> 12" "1 \<le> d" "d \<le> month_lengths y ! nat (m - 1)" using civil_range [OF c] by auto
  have "month_lengths y ! nat (m - 1) \<le> 31"
  proof -
    have "\<forall>x \<in> set (month_lengths y). x \<le> 31" by (simp add: month_lengths_def)
    moreover have "nat (m - 1) < length (month_lengths y)" using m(1,2) by (simp add: month_lengths_def)
    ultimately show ?thesis using nth_mem by blast
  qed
  then have "length (date_text (y, m, d)) = 10" using y m by (simp add: date_text_def length_pad)
  then have "length (seconds_text t) = 19" using c by (simp add: seconds_text_def Let_def length_clock_text)
  then show "length s \<le> 31" unfolding s using length_nano [of "t mod time_Second"] by (simp add: RFC3339Nano_def)
qed


section \<open>The document\<close>

lemma evidence_bytes_Some:
  assumes "time_Marshal (ep_when ep) = Some w" and "time_Marshal (ep_backupSnapshotTime ep) = Some s"
  shows "evidence_bytes ep = json_Marshal (evidence_document ep w s)"
  using assms by (simp add: evidence_bytes_def)

definition json_text :: "string \<Rightarrow> bool" where
  "json_text s = valid_utf8 (map of_char s)"

lemma json_text_ascii: "ascii s \<Longrightarrow> json_text s"
  by (simp add: json_text_def ascii_valid)

lemma json_ok_Str: "json_ok d (JStr s) = json_text s"
  by (simp add: json_text_def)

lemma json_ok_Strs: "0 < d \<Longrightarrow> list_all json_text ls \<Longrightarrow> json_ok d (JArr (List.map JStr ls))"
  by (simp add: list_all_iff json_text_def)

lemma json_ok_Obj: "0 < d \<Longrightarrow> list_all (\<lambda>kv. ascii (fst kv) \<and> json_ok (d - 1) (snd kv)) kvs \<Longrightarrow> json_ok d (JObj kvs)"
  by (auto simp: list_all_iff ascii_valid)

lemma ascii_keys: "ascii ''backupSha256''" "ascii ''backupSnapshotTime''" "ascii ''how''" "ascii ''limitations''"
    "ascii ''measuredRpoSeconds''" "ascii ''measuredRtoSeconds''" "ascii ''result''" "ascii ''sandboxId''"
    "ascii ''what''" "ascii ''when''"
  by simp_all

lemma evidence_document_ok:
  assumes "ascii w" and "ascii s" and "ascii (ep_what ep)" and "ascii (ep_how ep)" and "ascii (ep_result ep)"
    and "json_text (ep_sandboxId ep)" and "json_text (ep_backupSha256 ep)" and "list_all json_text (ep_limitations ep)"
  shows "json_ok 10000 (evidence_document ep w s)"
  unfolding evidence_document_def
proof (rule json_ok_Obj, simp, unfold list.pred_inject fst_conv snd_conv, intro conjI)
  show "json_ok (10000 - 1) (JArr (List.map JStr (ep_limitations ep)))" using assms by (intro json_ok_Strs) simp_all
qed (simp_all only: json_ok_Str json_ok.simps json_text_ascii assms ascii_keys list.pred_inject)

text \<open>Sizes.\<close>

lemma length_quote_rune: "bs \<noteq> [] \<Longrightarrow> length (quote_rune r bs) \<le> 6 * length bs"
proof -
  assume "bs \<noteq> []"
  then have "1 \<le> length bs" by (cases bs) simp_all
  moreover have "length (quote_rune r bs) \<le> 6 \<or> quote_rune r bs = bs" by (simp add: quote_rune_def u_escape_def)
  ultimately show ?thesis by auto
qed

lemma length_quote_body: "length (quote_body s) \<le> 6 * length s"
proof (induction s rule: quote_body.induct)
  case (1 s)
  show ?case
  proof (cases "s = []")
    case False
    obtain r w where d: "decode_rune (map of_char s) = (r, w)" by fastforce
    then have w: "0 < w" by (metis decode_width snd_conv)
    then have "take w s \<noteq> []" using False by simp
    then have "length (quote_rune r (take w s)) \<le> 6 * length (take w s)" by (rule length_quote_rune)
    moreover have "length (quote_body (drop w s)) \<le> 6 * length (drop w s)" using 1 [OF False] d by simp
    moreover have "length s = length (take w s) + length (drop w s)" by (metis append_take_drop_id length_append)
    ultimately show ?thesis unfolding quote_body_rune [OF False d] length_append by linarith
  qed (simp add: quote_body.simps)
qed

lemma length_json_quote: "length (json_quote s) \<le> 6 * length s + 2"
  using length_quote_body [of s] by (simp add: json_quote_def)

lemma length_format_int: "\<bar>i\<bar> < 10 ^ n \<Longrightarrow> 0 < n \<Longrightarrow> length (format_int i) \<le> Suc n"
  using format_dec_length [of "\<bar>i\<bar>" n] by (auto simp: format_int_def)


text \<open>A measured number of seconds has at most ten digits.\<close>

lemma int64_Seconds_bound:
  assumes "\<bar>d\<bar> \<le> 2 ^ 63"
  shows "\<bar>int64_Seconds d\<bar> < 10 ^ 10"
proof -
  have "0 \<le> seconds_nonneg x \<and> seconds_nonneg x < 10000000000" if x: "0 \<le> x" "x \<le> 9223372036854775808" for x
  proof -
    define q f where "q = x div time_Second" and "f = float64 (of_int (x mod time_Second) / 1000000000)"
    have m: "0 \<le> x mod time_Second" "x mod time_Second < 1000000000" by simp_all
    have f0: "0 \<le> f" and f1: "f \<le> of_int (x mod time_Second) / 1000000000 + 1 / 18014398509481984"
      unfolding f_def using fraction_bounds [OF m] by simp_all
    have "(of_int (x mod time_Second) :: rat) \<le> of_int 1000000000" using m(2) by (simp only: of_int_le_iff)
    then have f2: "f \<le> 2" using f1 by simp
    have q0: "0 \<le> q" using x(1) by (simp add: q_def pos_imp_zdiv_nonneg_iff)
    have "q \<le> 9223372036" using x(2) unfolding q_def by (simp add: div_le_mono zdiv_mono1 [of x 9223372036854775808 "1000000000", simplified])
    then have q1: "(of_int q :: rat) \<le> of_int 9223372036" by (simp only: of_int_le_iff)
    have q2: "(0::rat) \<le> of_int q" using q0 by simp
    show ?thesis
    proof (cases "of_int q + f = 0")
      case True
      then show ?thesis by (simp add: seconds_nonneg_def q_def f_def float64_def)
    next
      case False
      then have pos: "0 < of_int q + f" using q2 f0 by linarith
      have "of_int q + f < 2 powi 34" using q1 f2 by (simp add: power_int_def)
      then have "\<bar>float64 (of_int q + f) - (of_int q + f)\<bar> \<le> 2 powi (34 - 54)" by (rule float64_error [OF pos])
      moreover have "(2::rat) powi (34 - 54) \<le> 1" by (simp add: power_int_def power_one_over)
      ultimately have up: "float64 (of_int q + f) \<le> of_int q + f + 1" by linarith
      have "of_int 0 \<le> float64 (of_int q + f)"
        using pos q1 f2 by (intro float64_ge_int) (simp_all add: power_int_def)
      then show ?thesis using up q1 f2 by (simp add: seconds_nonneg_def q_def f_def)
    qed
  qed
  from this [of d] this [of "- d"] assms show ?thesis
    by (simp add: int64_Seconds_def floor_less_iff)
qed

lemma measured_bounds:
  "\<bar>oc_rpo (drill_outcome job ready)\<bar> < 10 ^ 10" "\<bar>oc_rto (drill_outcome job ready)\<bar> < 10 ^ 10"
proof -
  have "\<bar>time_Sub t u\<bar> \<le> 2 ^ 63" for t u by (auto simp: time_Sub_def abs_le_iff)
  then have "\<bar>int64_Seconds (time_Sub t u)\<bar> < 10 ^ 10" for t u by (intro int64_Seconds_bound)
  then show "\<bar>oc_rpo (drill_outcome job ready)\<bar> < 10 ^ 10" "\<bar>oc_rto (drill_outcome job ready)\<bar> < 10 ^ 10"
    by (simp_all add: drill_outcome_def MeasureRPO_def MeasureRTO_def Let_def split: prod.split)
qed

text \<open>The document of a drill without limitations, with a short sandbox name and hash, is small.\<close>

lemma length_document:
  assumes "ep_limitations ep = []" and "length w \<le> 31" and "length s \<le> 31"
    and "length (ep_what ep) \<le> 64" and "length (ep_how ep) \<le> 64" and "length (ep_result ep) \<le> 64"
    and "length (ep_sandboxId ep) \<le> 64" and "length (ep_backupSha256 ep) \<le> 64"
    and "\<bar>ep_measuredRpoSeconds ep\<bar> < 10 ^ 10" and "\<bar>ep_measuredRtoSeconds ep\<bar> < 10 ^ 10"
  shows "length (json_Marshal (evidence_document ep w s)) \<le> 4000"
proof -
  have q: "length (json_quote x) \<le> 386" if "length x \<le> 64" for x using length_json_quote [of x] that by simp
  have k: "length (json_quote x) \<le> 122" if "length x \<le> 20" for x using length_json_quote [of x] that by simp
  have n: "length (format_int i) \<le> 11" if "\<bar>i\<bar> < 10 ^ 10" for i using length_format_int [OF that] by simp
  note vals = q [OF assms(4)] q [OF assms(5)] q [OF assms(6)] q [OF assms(7)] q [OF assms(8)]
    n [OF assms(9)] n [OF assms(10)] q [of w] q [of s]
  note names = k [of "''backupSha256''"] k [of "''backupSnapshotTime''"] k [of "''how''"] k [of "''limitations''"]
    k [of "''measuredRpoSeconds''"] k [of "''measuredRtoSeconds''"] k [of "''result''"] k [of "''sandboxId''"]
    k [of "''what''"] k [of "''when''"]
  show ?thesis
    using names vals assms(2,3) by (simp add: evidence_document_def assms(1))
qed

lemma evidence_small:
  assumes "limitations_of (unmarshal_strings (j_required job)) = []" and "length sid \<le> 64" and "length h \<le> 64"
    and "oc = drill_outcome job ready"
  shows "length (evidence_bytes (evidence_payload job sid ready [] (oc_rpo oc) (oc_rto oc) h)) \<le> 4000"
proof (cases "time_Marshal ready")
  case (Some w)
  show ?thesis
  proof (cases "time_Marshal (j_snapshotAt job)")
    case s: (Some s)
    let ?ep = "evidence_payload job sid ready [] (oc_rpo oc) (oc_rto oc) h"
    have "evidence_bytes ?ep = json_Marshal (evidence_document ?ep w s)"
      by (rule evidence_bytes_Some) (simp_all add: evidence_payload_def Some s)
    moreover have "length (json_Marshal (evidence_document ?ep w s)) \<le> 4000"
      using time_Marshal_text(2) [OF Some] time_Marshal_text(2) [OF s] assms measured_bounds
      by (intro length_document) (simp_all add: evidence_payload_def)
    ultimately show ?thesis by simp
  qed (simp add: evidence_bytes_def evidence_payload_def split: option.split)
qed (simp add: evidence_bytes_def evidence_payload_def)


text \<open>
  C33. The evidence object is JSON that a decoder reads back as the document the worker wrote: the instants,
  the measured values, the sandbox, the hash and the limitations are all recovered from the stored bytes.
\<close>

theorem evidence_reads_back:
  assumes "time_Marshal ready = Some w" and "time_Marshal (j_snapshotAt job) = Some s"
    and "list_all json_text (sid # h # limitations)"
  shows "\<exists>kvs. json_first (bytes_NewReader (evidence_bytes (evidence_payload job sid ready limitations rpo rto h))) = Some (JObj kvs) \<and>
    map_of kvs ''when'' = Some (JStr w) \<and> map_of kvs ''backupSnapshotTime'' = Some (JStr s) \<and>
    map_of kvs ''measuredRpoSeconds'' = Some (JNum rpo) \<and> map_of kvs ''measuredRtoSeconds'' = Some (JNum rto) \<and>
    map_of kvs ''sandboxId'' = Some (JStr sid) \<and> map_of kvs ''backupSha256'' = Some (JStr h) \<and>
    map_of kvs ''limitations'' = Some (JArr (List.map JStr limitations)) \<and> map_of kvs ''result'' = Some (JStr ''PASS'')"
proof -
  let ?ep = "evidence_payload job sid ready limitations rpo rto h"
  have ok: "json_ok 10000 (evidence_document ?ep w s)"
    using assms(3) time_Marshal_text(1) [OF assms(1)] time_Marshal_text(1) [OF assms(2)]
    by (intro evidence_document_ok) (simp_all add: evidence_payload_def)
  have "evidence_bytes ?ep = json_Marshal (evidence_document ?ep w s)"
    by (rule evidence_bytes_Some) (simp_all add: evidence_payload_def assms(1,2))
  then have "json_first (bytes_NewReader (evidence_bytes ?ep)) = Some (evidence_document ?ep w s)"
    using ok by (intro json_first_Marshal [where rest = "[]"]) (simp_all add: bytes_NewReader_def number_end_def)
  then show ?thesis by (simp add: evidence_document_def evidence_payload_def)
qed

definition example_job :: drill_job where
  "example_job = \<lparr>j_orgID = ''o1'', j_drillStarted = 999900 * time_Second, j_snapshotAt = 999000 * time_Second,
     j_checksum = None, j_storageKey = ''k'', j_rpoTarget = 3600, j_rtoTarget = 60,
     j_required = JArr [JStr ''POSTGRES_CONNECTIVITY'']\<rparr>"

lemma example_instants:
  "time_Marshal (1000000 * time_Second) = Some ''0001-01-12T13:46:40Z''"
  "time_Marshal (j_snapshotAt example_job) = Some ''0001-01-12T13:30:00Z''"
  by code_simp+

theorem evidence_reads_back_witness:
  "\<exists>kvs. json_first (bytes_NewReader (evidence_bytes
      (evidence_payload example_job ''c1'' (1000000 * time_Second) [''DATA was not configured''] 900 100 ''ab''))) = Some (JObj kvs) \<and>
     map_of kvs ''when'' = Some (JStr ''0001-01-12T13:46:40Z'') \<and> map_of kvs ''measuredRpoSeconds'' = Some (JNum 900)"
proof -
  have "list_all json_text [''c1'', ''ab'', ''DATA was not configured'']" by (simp add: json_text_ascii)
  from evidence_reads_back [OF example_instants this, of 900 100] show ?thesis by blast
qed

end
