(* ===== verification/Evidence_Store.thy ===== *)
theory Evidence_Store
  imports Drill_Evidence Evidence_Document
begin

text \<open>
  Database and object storage together: a run that ends with a successful drill leaves the evidence
  object under the key of the drill, with the digest that its artifact row records, unless an answer was
  lost. A commit whose answer is lost is the exception: the worker then deletes the object of a drill
  that has succeeded.
\<close>

section \<open>What the other operations leave alone\<close>

definition unfinished :: "string \<Rightarrow> tables \<Rightarrow> bool" where
  "unfinished did t = (drill_status t did \<noteq> Some DrillSucceeded)"

lemma unfinished_back:
  assumes "unfinished did t"
    and "\<And>d'. drill_by_id t' did = Some d' \<Longrightarrow> dr_status d' = DrillSucceeded \<Longrightarrow> drill_by_id t did = Some d'"
  shows "unfinished did t'"
  unfolding unfinished_def
proof
  assume "drill_status t' did = Some DrillSucceeded"
  then obtain d' where d': "drill_by_id t' did = Some d'" "dr_status d' = DrillSucceeded"
    by (auto simp: drill_status_def)
  then have "drill_by_id t did = Some d'" by (rule assms(2))
  then show False using assms(1) d'(2) by (simp add: unfinished_def drill_status_def)
qed

lemma unfinished_same_drills: "unfinished did t \<Longrightarrow> recovery_drills t' = recovery_drills t \<Longrightarrow> unfinished did t'"
  by (simp add: unfinished_def drill_status_def drill_by_id_def)

lemma unfinished_other:
  assumes "other_allowed (Some did) op" and "unfinished did t"
  shows "unfinished did (apply_other now op t)"
proof (cases op)
  case (OtherTransition did' to step)
  then show ?thesis
    using assms by (auto simp: apply_other_def other_allowed_def intro: unfinished_back [OF assms(2)] dest: not_by_transition_tx)
next
  case (OtherFinish did' artifact newID ready)
  then have "did' \<noteq> did" using assms(1) by (simp add: other_allowed_def)
  then show ?thesis
    using assms(2) by (auto simp: OtherFinish apply_other_def final_tx_of_def intro: unfinished_back [OF assms(2)]
        dest: not_by_final_writes split: sum.split)
qed (use assms in \<open>auto simp: apply_other_def intro: unfinished_back [OF assms(2)] unfinished_same_drills [OF assms(2)]
    dest: not_by_insert not_by_cancel not_by_terminal\<close>)

interpretation unfinished: drill_progress did "unfinished did" for did
proof unfold_locales
  show "stable (Some did) (unfinished did)" by (simp add: stable_def unfinished_other)
  fix t
  assume u: "unfinished did t"
  show "unfinished did (insert_step did ty n su now t)" for ty n su now
    using u by (rule unfinished_same_drills) simp
  show "unfinished did (transition_writes did to ty (step_number to) now t)"
    if "drill_status t did = Some s" "\<not> terminal to" for s to ty now
    using transition_writes_status [OF that(1), of to ty "step_number to" now] that(2) by (auto simp: unfinished_def)
  show "unfinished did (fst (set_terminal did status su now t))"
    if "status \<in> {DrillFailed, DrillCancelled, DrillInconclusive}" for status su now
    by (rule unfinished_back [OF u]) (rule not_by_terminal [OF _ _ that])
  show "unfinished did (fst (upsert_sandbox org did cr re co ne t))" for org cr re co ne
    using u by (rule unfinished_same_drills) simp
  show "unfinished did (fst (sandbox_destroyed did now t))" for now
    using u by (rule unfinished_same_drills) simp
qed

text \<open>The object under a key, which only operations on the storage change.\<close>

definition holds :: "object_storage \<Rightarrow> string \<Rightarrow> bytes \<Rightarrow> world \<Rightarrow> bool" where
  "holds objects key b w = (obj_at objects w key = Some b)"

lemma obj_at_cong:
  assumes "w_files w' = w_files w" and "w_bucket w' = w_bucket w"
  shows "obj_at objects w' = obj_at objects w"
  using stored_cong [OF assms(1)] assms(2) by (cases objects) (simp_all add: obj_at_def fun_eq_iff s3_stored_def)

lemma holds_step_free [simp]: "step_free (holds objects key b)"
  using obj_at_cong [of "w\<lparr>w_step := n\<rparr>" w objects for w n] by (simp add: step_free_def holds_def)

lemma other_storage: "w_files (do_other e now op w) = w_files w \<and> w_bucket (do_other e now op w) = w_bucket w"
  by (cases op) (simp_all add: do_other_def)

lemma others_storage:
  "w_files (fold (do_other e now) ops w) = w_files w \<and> w_bucket (fold (do_other e now) ops w) = w_bucket w"
  by (induction ops arbitrary: w) (simp_all add: other_storage)

lemma keeps_holds_same:
  assumes "\<And>w. w_files (snd (run_state m w)) = w_files w \<and> w_bucket (snd (run_state m w)) = w_bucket w"
  shows "keeps (holds objects key b) m"
  using obj_at_cong [OF conjunct1 [OF assms] conjunct2 [OF assms], of objects] by (simp add: keeps_def hoare_def holds_def)

lemma keeps_holds_docker:
  assumes "\<And>w0. keeps (docker_only w0) m"
  shows "keeps (holds objects key b) m"
  using assms
proof (rule keeps_by_docker)
  show "holds objects key b w'" if "holds objects key b w" "docker_only w w'" for w w'
    using that(1) obj_at_cong [OF docker_only_simps(2,3) [OF that(2)]] by (simp add: holds_def)
qed

lemmas keeps_calls_holds [keeps_intros] =
  keeps_tick [OF holds_step_free] keeps_call [OF holds_step_free]
  keeps_clock_Now [OF holds_step_free] keeps_uuid [OF holds_step_free]

lemma keeps_holds [keeps_intros]:
  "keeps (holds objects key b) (interleave e mine)"
  "keeps (holds objects key b) (db_exec e mine f)"
  "keeps (holds objects key b) (publish e ev)"
  "keeps (holds objects key b) (Destroy e sb)"
proof -
  show il: "keeps (holds objects key b) (interleave e mine)"
    unfolding interleave_def by (rule keeps_holds_same) (simp add: others_storage)
  show "keeps (holds objects key b) (db_exec e mine f)"
    unfolding db_exec_def
    by (intro keeps_intros il, rule keeps_holds_same) (auto split: prod.splits fate.splits)
  show "keeps (holds objects key b) (publish e ev)"
    unfolding publish_def by (rule keeps_holds_same) (simp split: option.split)
  show "keeps (holds objects key b) (Destroy e sb)"
    by (rule keeps_holds_docker) (rule keeps_sandbox)
qed


section \<open>The end of a run\<close>

text \<open>The bytes the worker uploads, and what a successful drill has stored.\<close>

definition worker_evidence :: "drill_job \<Rightarrow> string \<Rightarrow> instant \<Rightarrow> string \<Rightarrow> bytes" where
  "worker_evidence job sid ready h =
     evidence_bytes (evidence_payload job sid ready (limitations_of (unmarshal_strings (j_required job)))
       (oc_rpo (drill_outcome job ready)) (oc_rto (drill_outcome job ready)) h)"

definition evidence_stored :: "env \<Rightarrow> object_storage \<Rightarrow> string \<Rightarrow> world \<Rightarrow> bool" where
  "evidence_stored e objects did w =
     (\<exists>d job ready sid h. drill_by_id (w_db w) did = Some d \<and> job_at did job (w_db w) \<and>
        outcome_recorded d (drill_outcome job ready) \<and>
        holds objects (evidence_key (dr_organization_id d) did) (worker_evidence job sid ready h) w \<and>
        list_ex (\<lambda>a. ea_storage_key a = evidence_key (dr_organization_id d) did \<and>
          ea_sha256 a = hex_sha256 e (worker_evidence job sid ready h)) (evidence_artifacts (w_db w)))"

definition settled :: "env \<Rightarrow> object_storage \<Rightarrow> string \<Rightarrow> world \<Rightarrow> bool" where
  "settled e objects did w = (unfinished did (w_db w) \<or> evidence_stored e objects did w)"

lemma settled_cong:
  assumes "w_db w' = w_db w" and "\<And>org. obj_at objects w' (evidence_key org did) = obj_at objects w (evidence_key org did)"
  shows "settled e objects did w' = settled e objects did w"
  using assms by (simp add: settled_def evidence_stored_def holds_def)

abbreviation working :: "string \<Rightarrow> drill_job \<Rightarrow> world \<Rightarrow> bool" where
  "working did job \<equiv> on_db (\<lambda>t. unfinished did t \<and> left_queue did t \<and> job_at did job t)"

lemma job_organization: "job_at did job t \<Longrightarrow> drill_by_id t did = Some d \<Longrightarrow> dr_organization_id d = j_orgID job"
  by (auto simp: job_at_def job_rows_iff scan_job_def split: option.splits)

lemma final_writes_artifact:
  "list_ex (\<lambda>a. ea_storage_key a = oi_Key art \<and> ea_sha256 a = oi_SHA256 art)
     (evidence_artifacts (final_writes org did art new_id now oc t))"
proof -
  obtain t1 aid where a: "upsert_artifact org did (oi_Key art) (oi_ContentType art) (oi_Size art) (oi_SHA256 art) (fst new_id) t = (t1, aid)"
    by fastforce
  show ?thesis
    using upsert_artifact_row [OF a] unfolding final_writes_def Let_def a prod.case by (auto simp: list_ex_iff)
qed

lemma final_writes_settled:
  assumes "unfinished did (w_db w)" and "job_at did job (w_db w)"
    and "oi_Key art = evidence_key (j_orgID job) did" and "oi_SHA256 art = hex_sha256 e (worker_evidence job sid ready h)"
    and "holds objects (evidence_key (j_orgID job) did) (worker_evidence job sid ready h) w"
  shows "settled e objects did (w\<lparr>w_db := final_writes (j_orgID job) did art new_id now (drill_outcome job ready) (w_db w)\<rparr>)"
    (is "settled e objects did ?w'")
proof -
  let ?t' = "w_db ?w'"
  have job: "job_at did job ?t'"
    using assms(2) job_at_closed final_writes_evolves unfolding evolve_closed_def by simp blast
  have "evidence_stored e objects did ?w'" if succ: "drill_status ?t' did = Some DrillSucceeded"
  proof -
    obtain d' where d': "drill_by_id ?t' did = Some d'" "dr_status d' = DrillSucceeded"
      using succ by (auto simp: drill_status_def)
    then obtain d where d: "drill_by_id (w_db w) did = Some d" by (auto simp: final_writes_drill)
    have "dr_status d \<noteq> DrillSucceeded" using assms(1) d by (simp add: unfinished_def drill_status_def)
    then have "outcome_recorded d' (drill_outcome job ready)"
      using d d' by (auto simp: final_writes_drill outcome_recorded_def split: if_splits)
    moreover have "dr_organization_id d' = j_orgID job" by (rule job_organization [OF job d'(1)])
    moreover have "holds objects (evidence_key (j_orgID job) did) (worker_evidence job sid ready h) ?w'"
      using assms(5) obj_at_cong [of ?w' w objects] by (simp add: holds_def)
    ultimately show ?thesis
      using d'(1) job final_writes_artifact [of art "j_orgID job" did new_id now "drill_outcome job ready" "w_db w"] assms(3,4)
      by (auto simp: evidence_stored_def)
  qed
  then show ?thesis by (auto simp: settled_def unfinished_def)
qed


lemma hoare_case_option:
  "(r = None \<Longrightarrow> hoare P m Q) \<Longrightarrow> (\<And>y. r = Some y \<Longrightarrow> hoare P (g y) Q) \<Longrightarrow>
   hoare P (case r of None \<Rightarrow> m | Some y \<Rightarrow> g y) Q"
  by (cases r) simp_all

lemma hoare_case_sum:
  "(\<And>x. r = Inl x \<Longrightarrow> hoare P (f x) Q) \<Longrightarrow> (\<And>y. r = Inr y \<Longrightarrow> hoare P (g y) Q) \<Longrightarrow>
   hoare P (case r of Inl x \<Rightarrow> f x | Inr y \<Rightarrow> g y) Q"
  by (cases r) simp_all

lemma hoare_case_prod: "(\<And>x y. r = (x, y) \<Longrightarrow> hoare P (f x y) Q) \<Longrightarrow> hoare P (case r of (x, y) \<Rightarrow> f x y) Q"
  by (cases r) simp

lemma working_closed [simp]: "evolve_closed (\<lambda>t. left_queue did t \<and> job_at did job t)"
  by (intro evolve_closed_conj) simp_all

abbreviation uploaded :: "object_storage \<Rightarrow> string \<Rightarrow> drill_job \<Rightarrow> bytes \<Rightarrow> world \<Rightarrow> bool" where
  "uploaded objects did job b \<equiv> (\<lambda>w. working did job w \<and> holds objects (evidence_key (j_orgID job) did) b w)"

definition committed :: "env \<Rightarrow> object_storage \<Rightarrow> string \<Rightarrow> go_error option \<Rightarrow> world \<Rightarrow> bool" where
  "committed e objects did r w = (if r = None then settled e objects did w else unfinished did (w_db w))"

lemma commit_settles:
  assumes "\<And>n er. fate_at e n \<noteq> Lost er"
    and "oi_Key art = evidence_key (j_orgID job) did" and "oi_SHA256 art = hex_sha256 e (worker_evidence job sid ready h)"
  shows "hoare (uploaded objects did job (worker_evidence job sid ready h))
    (tx_commit e (final_writes (j_orgID job) did art new_id now (drill_outcome job ready))) (committed e objects did)"
proof (rule hoareI)
  fix w r w'
  assume pre: "uploaded objects did job (worker_evidence job sid ready h) w"
    and run: "run_state (tx_commit e (final_writes (j_orgID job) did art new_id now (drill_outcome job ready))) w = (r, w')"
  let ?w = "w\<lparr>w_step := Suc (w_step w)\<rparr>"
  have pre': "unfinished did (w_db ?w)" "job_at did job (w_db ?w)"
    "holds objects (evidence_key (j_orgID job) did) (worker_evidence job sid ready h) ?w"
    using pre holds_step_free by (auto simp: on_db_def step_free_def)
  show "committed e objects did r w'"
  proof (cases "fate_at e (w_step w)")
    case Performed
    then show ?thesis
      using run final_writes_settled [OF pre'(1,2) assms(2,3) pre'(3), where new_id = new_id] by (auto simp: tx_commit_def committed_def)
  next
    case (Refused er)
    then show ?thesis using run pre' by (auto simp: tx_commit_def committed_def)
  next
    case (Lost er)
    then show ?thesis using assms(1) by blast
  qed
qed

lemma final_tx_settles:
  assumes "\<And>n er. fate_at e n \<noteq> Lost er"
    and "oi_Key art = evidence_key (j_orgID job) did" and "oi_SHA256 art = hex_sha256 e (worker_evidence job sid ready h)"
  shows "hoare (uploaded objects did job (worker_evidence job sid ready h))
    (final_tx e did job art (drill_outcome job ready)) (committed e objects did)"
  unfolding final_tx_def
  by (intro hoare_keeps_bind hoare_case_option hoare_if hoare_return commit_settles [OF assms] keeps_conj keeps_intros
      keeps_get unfinished.with_P_interleave working_closed) (simp_all add: committed_def on_db_def)

lemma finalize_settles:
  assumes "\<And>n er. fate_at e n \<noteq> Lost er"
    and "oi_Key art = evidence_key (j_orgID job) did" and "oi_SHA256 art = hex_sha256 e (worker_evidence job sid ready h)"
  shows "hoare (uploaded objects did job (worker_evidence job sid ready h))
    (finalize e objects did job key art (drill_outcome job ready)) (\<lambda>_. settled e objects did)"
  unfolding finalize_def
proof (rule hoare_bind [OF final_tx_settles [OF assms]])
  fix r
  have "keeps (on_db (unfinished did)) (do { x \<leftarrow> obj_Delete e objects key; State_Monad.return () })"
    by (intro keeps_intros)
  then have del: "hoare (on_db (unfinished did)) (do { x \<leftarrow> obj_Delete e objects key; State_Monad.return () }) (\<lambda>_. settled e objects did)"
    unfolding keeps_def by (rule hoare_post) (simp add: settled_def on_db_def)
  have pub: "hoare (settled e objects did) (publish e ev) (\<lambda>_. settled e objects did)" for ev
    by (rule hoareI) (auto simp: publish_def split: option.splits
        intro: settled_cong [THEN iffD2] simp: obj_at_cong [of "w\<lparr>w_hub := h\<rparr>" w for w h] obj_at_cong [of "w\<lparr>w_crashed := h\<rparr>" w for w h])
  show "hoare (committed e objects did r) (case r of
        None \<Rightarrow> publish e (completed_event did
           [(''status'', ''SUCCEEDED''), (''assessment'', assessment_string (oc_assessment (drill_outcome job ready)))])
      | Some x \<Rightarrow> do { x \<leftarrow> obj_Delete e objects key; State_Monad.return () }) (\<lambda>_. settled e objects did)"
  proof (cases r)
    case None
    then show ?thesis using pub by (simp add: committed_def [abs_def])
  next
    case (Some er)
    then show ?thesis using del by (simp add: committed_def [abs_def] on_db_def [abs_def])
  qed
qed


text \<open>The flag of the phases says whether the last transaction was reached; otherwise the drill has not
  succeeded.\<close>

definition flagged :: "env \<Rightarrow> object_storage \<Rightarrow> string \<Rightarrow> bool \<Rightarrow> world \<Rightarrow> bool" where
  "flagged e objects did b w = (if b then settled e objects did w else unfinished did (w_db w))"

lemma flagged_False:
  "keeps (working did job) m \<Longrightarrow> hoare (working did job) (do { m; State_Monad.return False }) (flagged e objects did)"
  by (rule hoare_keeps_bind) (auto simp: flagged_def on_db_def intro: hoare_return)

lemma return_False: "hoare (working did job) (State_Monad.return False) (flagged e objects did)"
  by (rule hoare_return) (simp add: flagged_def on_db_def)

lemma evidence_key_comps: "key_comps (evidence_key org did) = key_comps (org @ ''/drills/'' @ did @ ''/evidence'') @ [''recovery.json'']"
proof -
  have split: "evidence_key org did = (org @ ''/drills/'' @ did @ ''/evidence'') @ CHR ''/'' # ''recovery.json''"
    by (simp add: evidence_key_def)
  have "strings_Split (CHR ''/'') (evidence_key org did) =
      strings_Split (CHR ''/'') (org @ ''/drills/'' @ did @ ''/evidence'') @ [''recovery.json'']"
    unfolding split by (rule strings_Split_last) simp
  then show ?thesis unfolding key_comps_def by simp
qed

lemma evidence_key_proper: "proper_key (evidence_key org did)"
  by (simp add: proper_key_def evidence_key_comps HasPrefix_def)

lemma put_evidence:
  assumes "obj_inv objects"
  shows "hoare (working did job)
    (obj_Put e objects (evidence_key (j_orgID job) did) (bytes_NewReader b) (int (length b)) ct)
    (\<lambda>r w. working did job w \<and> (\<forall>art. r = Inr art \<longrightarrow> holds objects (evidence_key (j_orgID job) did) b w \<and>
       oi_Key art = evidence_key (j_orgID job) did \<and> oi_SHA256 art = hex_sha256 e b))"
proof (rule hoareI, intro conjI allI impI)
  fix w r w' art
  let ?key = "evidence_key (j_orgID job) did"
  assume w: "working did job w"
    and run: "run_state (obj_Put e objects ?key (bytes_NewReader b) (int (length b)) ct) w = (r, w')"
  show "working did job w'"
    using keeps_run [OF keeps_db_storage(4) w, of e objects ?key "bytes_NewReader b" "int (length b)" ct] run by simp
  assume r: "r = Inr art"
  have "obj_proper objects ?key"
    using evidence_key_proper by (cases objects) (simp_all add: obj_proper_def)
  from objects.put_ok [OF assms this run [unfolded r]] obtain data where
    d: "prefix data b" "length data = length b" "obj_at objects w' ?key = Some data"
    "art = \<lparr>oi_Key = ?key, oi_Size = int (length b), oi_SHA256 = hex_sha256 e data, oi_ContentType = ct\<rparr>"
    by (auto simp: bytes_NewReader_def)
  then have "data = b" by (metis not_equal_is_parallel parallelE prefix_order.refl)
  with d show "holds objects ?key b w'" "oi_Key art = ?key" "oi_SHA256 art = hex_sha256 e b"
    by (simp_all add: holds_def)
qed


lemma collect_settles:
  assumes "\<And>n er. fate_at e n \<noteq> Lost er" and "obj_inv objects"
  shows "hoare (working did job) (collect_evidence e objects did job sb h ready) (flagged e objects did)"
  unfolding collect_evidence_def Let_def worker_evidence_def [symmetric]
proof (rule hoare_bind [OF put_evidence [OF assms(2)]])
  fix r
  let ?key = "evidence_key (j_orgID job) did" and ?b = "worker_evidence job (sx_ID sb) ready h"
  have failed: "hoare (working did job) (fail_drill e did su \<bind> (\<lambda>_. State_Monad.return False)) (flagged e objects did)" for su
    by (intro flagged_False unfinished.keeps_fail working_closed) simp
  have deleted: "hoare (uploaded objects did job ?b)
      (obj_Delete e objects ?key \<bind> (\<lambda>_. fail_drill e did su \<bind> (\<lambda>_. State_Monad.return False))) (flagged e objects did)" for su
    by (rule hoare_pre [where P = "working did job"]) (intro hoare_keeps_bind failed keeps_intros, simp)
  have last_tx: "hoare (uploaded objects did job ?b)
      (finalize e objects did job ?key art (drill_outcome job ready) \<bind> (\<lambda>_. State_Monad.return True)) (flagged e objects did)"
    if "oi_Key art = ?key" "oi_SHA256 art = hex_sha256 e ?b" for art
    by (rule hoare_bind [OF finalize_settles [OF assms(1) that]]) (auto simp: flagged_def intro: hoare_return)
  have ended: "hoare (uploaded objects did job ?b)
      (Destroy e sb \<bind> (\<lambda>err. case err of
           Some _ \<Rightarrow> obj_Delete e objects ?key \<bind>
             (\<lambda>_. fail_drill e did ''Sandbox cleanup failed'' \<bind> (\<lambda>_. State_Monad.return False))
         | None \<Rightarrow> db_exec e (Some did) (sandbox_destroyed did) \<bind>
             (\<lambda>_. finalize e objects did job ?key art (drill_outcome job ready) \<bind> (\<lambda>_. State_Monad.return True))))
      (flagged e objects did)"
    if "oi_Key art = ?key" "oi_SHA256 art = hex_sha256 e ?b" for art
    by (intro hoare_keeps_bind hoare_case_option deleted last_tx that keeps_conj keeps_intros unfinished.keeps_sandbox_rows
        working_closed)
  show "hoare (\<lambda>w. working did job w \<and> (\<forall>art. r = Inr art \<longrightarrow> holds objects ?key ?b w \<and> oi_Key art = ?key \<and> oi_SHA256 art = hex_sha256 e ?b))
      (case r of
       Inl _ \<Rightarrow> fail_drill e did ''Recovery evidence could not be stored'' \<bind> (\<lambda>_. State_Monad.return False)
     | Inr artifact \<Rightarrow> Destroy e sb \<bind> (\<lambda>err. case err of
           Some _ \<Rightarrow> obj_Delete e objects ?key \<bind>
             (\<lambda>_. fail_drill e did ''Sandbox cleanup failed'' \<bind> (\<lambda>_. State_Monad.return False))
         | None \<Rightarrow> db_exec e (Some did) (sandbox_destroyed did) \<bind>
             (\<lambda>_. finalize e objects did job ?key artifact (drill_outcome job ready) \<bind> (\<lambda>_. State_Monad.return True))))
      (flagged e objects did)"
  proof (cases r)
    case (Inl er)
    then show ?thesis using failed by (simp add: hoare_def)
  next
    case (Inr art)
    then show ?thesis using ended [of art] by (auto simp: hoare_def)
  qed
qed

lemma phases_settle:
  assumes "\<And>n er. fate_at e n \<noteq> Lost er" and "obj_inv objects"
  shows "hoare (working did job) (restore_phase e objects did job sb path h) (flagged e objects did)"
  unfolding restore_phase_def validate_phase_def
  by (intro hoare_keeps_bind hoare_case_option hoare_case_sum return_False collect_settles assms keeps_intros
      unfinished.keeps_transition unfinished.keeps_fail unfinished.keeps_recordStep unfinished.keeps_sandbox_rows working_closed)
    simp_all

text \<open>After the phases.\<close>

lemma working_settled: "keeps (working did job) m \<Longrightarrow> hoare (working did job) m (\<lambda>_. settled e objects did)"
  unfolding keeps_def by (erule hoare_post) (simp add: on_db_def settled_def)

lemma destroy_settles:
  "hoare (flagged e objects did b) (if b then State_Monad.return ()
      else Destroy e sb \<bind> (\<lambda>_. db_exec e (Some did) (sandbox_destroyed did) \<bind> (\<lambda>_. State_Monad.return ())))
     (\<lambda>_. settled e objects did)"
proof -
  have "keeps (on_db (unfinished did)) (Destroy e sb \<bind> (\<lambda>_. db_exec e (Some did) (sandbox_destroyed did) \<bind> (\<lambda>_. State_Monad.return ())))"
    using unfinished.keeps_sandbox_rows(2) [of "\<lambda>_. True" did e] by (intro keeps_intros) simp
  then show ?thesis
    by (cases b) (auto simp: flagged_def [abs_def] keeps_def hoare_def settled_def on_db_def)
qed

lemma sandbox_phase_settles:
  assumes "\<And>n er. fate_at e n \<noteq> Lost er" and "obj_inv objects"
  shows "hoare (working did job) (sandbox_phase e deps executor objects did job path h) (\<lambda>_. settled e objects did)"
  unfolding sandbox_phase_def
  by (rule hoare_keeps_bind, intro keeps_intros, rule hoare_case_sum, rule working_settled, rule unfinished.keeps_fail)
    (simp_all add: hoare_bind [OF phases_settle [OF assms] destroy_settles])

lemma stage_phase_settles:
  assumes "\<And>n er. fate_at e n \<noteq> Lost er" and "obj_inv objects"
  shows "hoare (working did job) (stage_phase e deps executor objects did job path) (\<lambda>_. settled e objects did)"
  unfolding stage_phase_def Let_def
  by (intro hoare_keeps_bind hoare_case_sum hoare_case_prod hoare_if sandbox_phase_settles assms working_settled
      unfinished.keeps_fail working_closed keeps_intros) simp_all


text \<open>The temporary file of the run is not the object of its evidence.\<close>

lemma remove_settles:
  assumes "obj_inv objects" and "CHR ''/'' \<notin> set x" and "path = join_path dir (''restoreguard-backup-'' @ x @ ''.sql'')"
  shows "hoare (settled e objects did) (os_Remove e path) (\<lambda>_. settled e objects did)"
proof (rule hoareI)
  fix w r w'
  assume w: "settled e objects did w" and run: "run_state (os_Remove e path) w = (r, w')"
  have "storage_only w w'" using keeps_run [OF keeps_os(4) storage_only_refl, of w e path] run by simp
  then have "w_db w' = w_db w" by (rule storage_only_simps(1))
  moreover have "obj_at objects w' (evidence_key org did) = obj_at objects w (evidence_key org did)" for org
  proof (cases objects)
    case (OnLocal l)
    have "path \<noteq> p" if "local_path l (evidence_key org did) = Inr p" for p
      unfolding assms(3) using assms(1,2) OnLocal
      by (intro name_not_path [OF _ that]) (simp_all add: obj_inv_def evidence_key_comps)
    then show ?thesis
      using run_Remove_other [OF run] by (auto simp: OnLocal obj_at_def stored_def split: sum.splits)
  next
    case (OnS3 s3)
    have "w_bucket w' = w_bucket w" using run by (auto simp: os_Remove_def split: option.splits if_splits)
    then show ?thesis by (simp add: OnS3 obj_at_def s3_stored_def)
  qed
  ultimately show "settled e objects did w'" using w by (simp add: settled_cong [of w' w])
qed

lemma staged_settles:
  assumes "\<And>n er. fate_at e n \<noteq> Lost er" and "obj_inv objects"
  shows "hoare (working did job)
    (os_CreateTemp e dir ''restoreguard-backup-'' ''.sql'' \<bind> (\<lambda>temp. case temp of
         Inl _ \<Rightarrow> fail_drill e did ''Backup staging failed''
       | Inr path \<Rightarrow> stage_phase e deps executor objects did job path \<bind> (\<lambda>_. os_Remove e path \<bind> (\<lambda>_. State_Monad.return ()))))
    (\<lambda>_. settled e objects did)"
proof (rule hoare_bind)
  show "hoare (working did job) (os_CreateTemp e dir ''restoreguard-backup-'' ''.sql'')
    (\<lambda>r w. working did job w \<and> (\<forall>p. r = Inr p \<longrightarrow> (\<exists>x. CHR ''/'' \<notin> set x \<and> p = join_path dir (''restoreguard-backup-'' @ x @ ''.sql''))))"
  proof (rule hoareI)
    fix w r w'
    assume w: "working did job w" and run: "run_state (os_CreateTemp e dir ''restoreguard-backup-'' ''.sql'') w = (r, w')"
    have "working did job w'"
      using keeps_run [OF keeps_db_storage(1) w, of e dir "''restoreguard-backup-''" "''.sql''"] run by simp
    then show "working did job w' \<and> (\<forall>p. r = Inr p \<longrightarrow> (\<exists>x. CHR ''/'' \<notin> set x \<and> p = join_path dir (''restoreguard-backup-'' @ x @ ''.sql'')))"
      using run_CreateTemp [OF run] by auto
  qed
  fix r
  have failed: "hoare (working did job) (fail_drill e did ''Backup staging failed'') (\<lambda>_. settled e objects did)"
    by (rule working_settled, rule unfinished.keeps_fail) simp_all
  have staged: "hoare (working did job) (stage_phase e deps executor objects did job p \<bind> (\<lambda>_. os_Remove e p \<bind> (\<lambda>_. State_Monad.return ())))
      (\<lambda>_. settled e objects did)" if "CHR ''/'' \<notin> set x" "p = join_path dir (''restoreguard-backup-'' @ x @ ''.sql'')" for p x
    by (rule hoare_bind [OF stage_phase_settles [OF assms]], rule hoare_bind [OF remove_settles [OF assms(2) that]])
      (rule hoare_return)
  show "hoare (\<lambda>w. working did job w \<and> (\<forall>p. r = Inr p \<longrightarrow> (\<exists>x. CHR ''/'' \<notin> set x \<and> p = join_path dir (''restoreguard-backup-'' @ x @ ''.sql''))))
     (case r of Inl _ \<Rightarrow> fail_drill e did ''Backup staging failed''
       | Inr path \<Rightarrow> stage_phase e deps executor objects did job path \<bind> (\<lambda>_. os_Remove e path \<bind> (\<lambda>_. State_Monad.return ())))
     (\<lambda>_. settled e objects did)"
    using failed staged by (cases r) (auto simp: hoare_def)
qed


lemma inconclusive_settles:
  "hoare (\<lambda>w. unfinished did (w_db w) \<and> left_queue did (w_db w))
     (setTerminal e did DrillInconclusive su \<bind> (\<lambda>_. State_Monad.return ())) (\<lambda>_. settled e objects did)"
proof -
  have "keeps (on_db (\<lambda>t. unfinished did t \<and> left_queue did t)) (setTerminal e did DrillInconclusive su \<bind> (\<lambda>_. State_Monad.return ()))"
    by (intro keeps_intros unfinished.keeps_setTerminal) simp_all
  then show ?thesis by (auto simp: keeps_def hoare_def on_db_def settled_def)
qed

lemma configured_settles:
  assumes "\<And>n er. fate_at e n \<noteq> Lost er" and "obj_inv objects"
  shows "hoare (on_db (unfinished did)) (configured_run e deps executor objects did) (\<lambda>_. settled e objects did)"
  unfolding configured_run_def
proof (rule hoare_bind)
  show "hoare (on_db (unfinished did)) (transition e did DrillPreparing ''FETCH_BACKUP'' 1)
      (\<lambda>r w. unfinished did (w_db w) \<and> (r = None \<longrightarrow> left_queue did (w_db w)))"
    using unfinished.transition_left [of "\<lambda>_. True" DrillPreparing 1] by simp
  fix t1
  let ?inc = "setTerminal e did DrillInconclusive ''A selected snapshot with a trusted storage key and policy is required''
    \<bind> (\<lambda>_. State_Monad.return ())"
  let ?rest = "\<lambda>r. case r of Inl _ \<Rightarrow> ?inc
      | Inr job \<Rightarrow> if j_storageKey job = [] then ?inc
          else os_CreateTemp e (temp_dir e) ''restoreguard-backup-'' ''.sql'' \<bind> (\<lambda>temp. case temp of
             Inl _ \<Rightarrow> fail_drill e did ''Backup staging failed''
           | Inr path \<Rightarrow> stage_phase e deps executor objects did job path \<bind> (\<lambda>_. os_Remove e path \<bind> (\<lambda>_. State_Monad.return ())))"
  have selected: "hoare (on_db (\<lambda>t. unfinished did t \<and> left_queue did t))
      (db_exec e (Some did) (select_job did) \<bind> ?rest) (\<lambda>_. settled e objects did)"
  proof (rule hoare_bind [OF unfinished.select_hoare])
    fix r
    show "hoare (\<lambda>w. unfinished did (w_db w) \<and> left_queue did (w_db w) \<and> (\<forall>job. r = Inr job \<longrightarrow> job_at did job (w_db w)))
       (?rest r) (\<lambda>_. settled e objects did)"
    proof (cases r)
      case (Inl er)
      then show ?thesis using inconclusive_settles by simp
    next
      case (Inr job)
      show ?thesis
        using inconclusive_settles [of did e _ objects] staged_settles [OF assms, of did job "temp_dir e" deps executor]
        by (auto simp: Inr hoare_def on_db_def)
    qed
  qed simp
  show "hoare (\<lambda>w. unfinished did (w_db w) \<and> (t1 = None \<longrightarrow> left_queue did (w_db w)))
     (case t1 of None \<Rightarrow> db_exec e (Some did) (select_job did) \<bind> ?rest | Some _ \<Rightarrow> State_Monad.return ()) (\<lambda>_. settled e objects did)"
    using selected by (cases t1) (auto simp: hoare_def on_db_def settled_def)
qed

lemma run_settles:
  assumes "wd_Executor deps = Some executor" and "wd_Objects deps = Some objects"
    and "\<And>n er. fate_at e n \<noteq> Lost er" and "obj_inv objects"
  shows "hoare (on_db (unfinished did)) (worker_run e deps did) (\<lambda>_. settled e objects did)"
  unfolding worker_run_def run_body_def assms(1,2) prod.case option.case
proof (rule hoare_keeps_bind, rule keeps_upd)
  show "hoare (on_db (unfinished did)) (configured_run e deps executor objects did \<bind>
      (\<lambda>_. upd (\<lambda>w. w\<lparr>w_running := removeAll did (w_running w)\<rparr>))) (\<lambda>_. settled e objects did)"
  proof (rule hoare_bind [OF configured_settles [OF assms(3,4)]])
    show "hoare (settled e objects did) (upd (\<lambda>w. w\<lparr>w_running := removeAll did (w_running w)\<rparr>)) (\<lambda>_. settled e objects did)"
      using settled_cong [of "w\<lparr>w_running := removeAll did (w_running w)\<rparr>" w objects did e for w]
        obj_at_cong [of "w\<lparr>w_running := removeAll did (w_running w)\<rparr>" w objects for w]
      by (simp add: hoare_def)
  qed
qed (simp add: on_db_def)

end
