(* ===== verification/Example_Run.thy ===== *)
theory Example_Run
  imports Drill_Evidence Evidence_Document
begin

text \<open>
  A complete successful drill in the calm environment, phase by phase: the properties of
  successful runs are about something. The example pool has one queued drill whose snapshot
  is a two-byte object of the local store.
\<close>

section \<open>Single calls\<close>

text \<open>The state of the example between two phases.\<close>

definition at_status :: "DrillStatus \<Rightarrow> world \<Rightarrow> bool" where
  "at_status st w =
     (map dr_id (recovery_drills (w_db w)) = [''d1''] \<and> recovery_policies (w_db w) = [example_policy] \<and> drill_status (w_db w) ''d1'' = Some st \<and>
      w_hub w = NewEventHub \<and>
      dom (w_files w) \<subseteq> {''/d/objects/k'', ''/tmp/restoreguard-backup-1.sql'', ''/d/objects/o1/drills/d1/evidence/recovery.json''} \<and>
      w_files w ''/d/objects/k'' = Some ''hi'')"

lemma at_status_step [simp]: "at_status st (w\<lparr>w_step := n\<rparr>) = at_status st w"
  by (simp add: at_status_def)

lemma at_status_docker: "docker_only w w' \<Longrightarrow> at_status st w' = at_status st w"
  by (simp add: at_status_def docker_only_simps)

lemma calm_publish: "w_hub w = NewEventHub \<Longrightarrow> run_state (publish calm ev) w = ((), w)"
  by (simp add: publish_def Publish_def subs_of_def NewEventHub_def split: option.split)

lemma calm_transition:
  assumes "at_status from w" and "CanTransition from to"
  shows "\<exists>w'. run_state (transition calm ''d1'' to ty n) w = (None, w') \<and> at_status to w' \<and>
    (\<exists>now. w_db w' = transition_writes ''d1'' to ty n now (w_db w)) \<and> w_files w' = w_files w"
proof -
  have st: "drill_status (w_db w) ''d1'' = Some from" and hub: "w_hub w = NewEventHub"
    using assms(1) by (auto simp: at_status_def)
  let ?now = "1000000 * time_Second + int (w_step w) + 2"
  let ?w' = "w\<lparr>w_step := w_step w + 6, w_db := transition_writes ''d1'' to ty n ?now (w_db w)\<rparr>"
  have "run_state (transition calm ''d1'' to ty n) w = (None, ?w')"
    using st hub assms(2)
    by (simp add: transition_def calm_interleave calm_call State_Monad.get_def Transition_def calm_commit calm_publish)
  moreover have "at_status to ?w'"
    using assms(1) transition_writes_status [OF st, of to ty n ?now]
    by (auto simp: at_status_def transition_writes_def update_status_def map_update_where insert_step_def)
  ultimately show ?thesis by auto
qed

text \<open>Writes that leave the drills alone.\<close>

lemma at_status_db:
  "recovery_drills t = recovery_drills (w_db w) \<Longrightarrow> same_inputs (w_db w) t \<Longrightarrow> at_status st (w\<lparr>w_db := t\<rparr>) = at_status st w"
  by (simp add: at_status_def drill_status_def drill_by_id_def same_inputs_def)

lemma calm_recordStep:
  assumes "at_status st w"
  shows "\<exists>w'. run_state (recordStep calm ''d1'' ty n su) w = (None, w') \<and> at_status st w'"
  using assms
  by (simp add: recordStep_def calm_exec calm_publish at_status_db) (simp add: at_status_def calm_publish drill_status_def drill_by_id_def insert_step_def)

lemma calm_sandbox_rows:
  "at_status st w \<Longrightarrow>
   \<exists>x w'. run_state (db_exec calm m (\<lambda>_. upsert_sandbox org did cr re co ne)) w = (Inr x, w') \<and> at_status st w'"
  "at_status st w \<Longrightarrow>
   \<exists>x w'. run_state (db_exec calm m (sandbox_destroyed did)) w = (Inr x, w') \<and> at_status st w'"
  by (simp_all add: calm_exec at_status_db upsert_sandbox_def sandbox_destroyed_def same_inputs_def)

definition short_sandbox :: "Sandbox \<Rightarrow> bool" where
  "short_sandbox s = (managed_sandbox s \<and> length (sx_ID s) \<le> 64)"

lemma short_sandboxD: "short_sandbox s \<Longrightarrow> managed_sandbox s"
  by (simp add: short_sandbox_def)

definition example_drill_job :: "drill_job \<Rightarrow> bool" where
  "example_drill_job job = (j_orgID job = ''o1'' \<and> limitations_of (unmarshal_strings (j_required job)) = [])"

lemma calm_Create:
  assumes "sp_Image spec = de_allowedImage ex" and "\<not> spec_invalid spec"
  shows "\<exists>s w'. run_state (sandbox_Create calm ex spec) w = (Inr s, w') \<and> docker_only w w' \<and> short_sandbox s"
proof -
  obtain r w' where run: "run_state (sandbox_Create calm ex spec) w = (r, w')" by fastforce
  have "docker_only w w'"
    using keeps_run [OF keeps_sandbox(1), of w w] run by (metis docker_only_refl snd_conv)
  moreover obtain s where s: "r = Inr s" "length (sx_ID s) \<le> 64"
    using run assms by (auto simp: sandbox_Create_def await_ready_def Let_def calm_ready_loop)
  moreover have "managed_sandbox s" using run s docker_executor.create_ok by blast
  ultimately show ?thesis using run by (auto simp: short_sandbox_def)
qed

lemma calm_in_container:
  assumes "managed_sandbox s"
  shows "\<exists>w'. run_state (CopyPostgresBackup calm s path) w = (None, w') \<and> docker_only w w'"
    and "\<exists>w'. run_state (RestorePostgresPlain calm s) w = (None, w') \<and> docker_only w w'"
    and "\<exists>w'. run_state (ValidatePostgresConnectivity calm s) w = (None, w') \<and> docker_only w w'"
    and "\<exists>w'. run_state (Destroy calm s) w = (None, w') \<and> docker_only w w'"
proof -
  show "\<exists>w'. run_state (Destroy calm s) w = (None, w') \<and> docker_only w w'"
    using assms managed_name keeps_run [OF keeps_sandbox(2), of w w calm s]
    by (cases "run_state (Destroy calm s) w")
      (auto simp: Destroy_def managed_sandbox_def run_remove_resource gone_def Let_def)
qed (use assms in \<open>auto simp: CopyPostgresBackup_def RestorePostgresPlain_def ValidatePostgresConnectivity_def
    in_sandbox_def managed_sandbox_def docker_only_def\<close>)


section \<open>The phases\<close>

lemma example_moves:
  "CanTransition DrillQueued DrillPreparing" "CanTransition DrillPreparing DrillRestoring"
  "CanTransition DrillRestoring DrillValidating" "CanTransition DrillValidating DrillFinalizing"
  by (simp_all add: CanTransition_iff)

definition example_key :: string where
  "example_key = ''o1/drills/d1/evidence/recovery.json''"

lemma example_paths:
  "local_path example_local ''k'' = Inr ''/d/objects/k''"
  "local_path example_local example_key = Inr ''/d/objects/o1/drills/d1/evidence/recovery.json''"
  "Dir ''/d/objects/o1/drills/d1/evidence/recovery.json'' = ''/d/objects/o1/drills/d1/evidence''"
  by code_simp+

lemma calm_Put:
  assumes "at_status st w" and "length p \<le> 4000"
  shows "\<exists>info w'. run_state (obj_Put calm (OnLocal example_local) example_key (bytes_NewReader p)
      (int (length p)) ct) w = (Inr info, w') \<and> at_status st w'"
proof -
  have "''/d/objects/o1/drills/d1/evidence/.upload-1'' \<notin> dom (w_files w)"
    using assms by (auto simp: at_status_def)
  then have fresh: "w_files w ''/d/objects/o1/drills/d1/evidence/.upload-1'' = None" by auto
  have jp: "join_path ''/d/objects/o1/drills/d1/evidence'' (''.upload-'' @ ''1'' @ []) =
      ''/d/objects/o1/drills/d1/evidence/.upload-1''" by (simp add: join_path_def)
  have max: "l_maxBytes example_local = 65536" by (simp add: example_local_def)
  show ?thesis
    using assms fresh jp
    by (auto simp: obj_Put_def local_Put_def max example_paths calm_call os_CreateTemp_def fate_err_def put_temp_def
        copy_to_file_def io_Copy_def ctx_cut_def context_reader_def io_LimitReader_def bytes_NewReader_def
        wrap64_def os_Rename_def os_Remove_def Let_def at_status_def)
qed

lemma final_writes_policies: "recovery_policies (final_writes org did art new_id now oc t) = recovery_policies t"
  by (simp add: final_writes_def Let_def upsert_artifact_def upsert_evidence_def finish_drill_def upsert_report_def
      split: option.splits)

lemma calm_finalize:
  assumes "at_status DrillFinalizing w"
  shows "\<exists>w'. run_state (finalize calm objects ''d1'' job key art oc) w = ((), w') \<and> at_status DrillSucceeded w' \<and>
    (\<exists>new_id now. w_db w' = final_writes (j_orgID job) ''d1'' art new_id now oc (w_db w))"
proof -
  obtain d where d: "recovery_drills (w_db w) = [d]" "dr_id d = ''d1''"
    using assms by (auto simp: at_status_def)
  have fin: "dr_status d = DrillFinalizing" and hub: "w_hub w = NewEventHub"
    using assms d by (auto simp: at_status_def drill_status_def drill_by_id_def row_with_def)
  have one: "rows_affected (finish_where ''d1'') (recovery_drills (w_db w)) = 1"
    by (simp add: d fin rows_affected_def finish_where_def)
  let ?start = "1000000 * time_Second + int (w_step w)" and ?now = "1000000 * time_Second + int (w_step w) + 6"
  let ?t = "final_writes (j_orgID job) ''d1'' art (''0123456789ab'', ''0123456789ab'', ?start) ?now oc (w_db w)"
  have "run_state (finalize calm objects ''d1'' job key art oc) w = ((), w\<lparr>w_step := w_step w + 10, w_db := ?t\<rparr>)"
    using one hub
    by (simp add: finalize_def final_tx_def calm_call calm_interleave State_Monad.get_def calm_commit calm_publish)
  moreover have "at_status DrillSucceeded (w\<lparr>w_step := w_step w + 10, w_db := ?t\<rparr>)"
  proof -
    have "drill_by_id (w_db w) ''d1'' = Some d" by (simp add: drill_by_id_def row_with_def d)
    then have "drill_status ?t ''d1'' = Some DrillSucceeded" by (simp add: drill_status_def final_writes_drill fin)
    then show ?thesis using assms by (simp add: at_status_def final_writes_ids final_writes_policies)
  qed
  ultimately show ?thesis by auto
qed

lemma calm_collect:
  assumes "at_status DrillFinalizing w" and "short_sandbox s" and "example_drill_job job" and "length h \<le> 64"
  shows "\<exists>w'. run_state (collect_evidence calm (OnLocal example_local) ''d1'' job s h ready) w = (True, w') \<and>
    at_status DrillSucceeded w'"
proof -
  have key: "evidence_key (j_orgID job) ''d1'' = example_key" and lims: "limitations_of (unmarshal_strings (j_required job)) = []"
    using assms(3) by (simp_all add: evidence_key_def example_key_def example_drill_job_def)
  let ?oc = "drill_outcome job ready"
  let ?p = "evidence_bytes (evidence_payload job (sx_ID s) ready [] (oc_rpo ?oc) (oc_rto ?oc) h)"
  have "length ?p \<le> 4000" using assms(2,4) lims by (intro evidence_small) (simp_all add: short_sandbox_def)
  then obtain info w1 where put: "run_state (obj_Put calm (OnLocal example_local) example_key (bytes_NewReader ?p)
      (int (length ?p)) ''application/json'') w = (Inr info, w1)" and w1: "at_status DrillFinalizing w1"
    using calm_Put [OF assms(1)] by blast
  obtain w2 where de: "run_state (Destroy calm s) w1 = (None, w2)" "docker_only w1 w2"
    using calm_in_container(4) [OF short_sandboxD [OF assms(2)]] by blast
  have w2: "at_status DrillFinalizing w2" using at_status_docker [OF de(2)] w1 by simp
  obtain x w3 where sd: "run_state (db_exec calm (Some ''d1'') (sandbox_destroyed ''d1'')) w2 = (Inr x, w3)"
    and w3: "at_status DrillFinalizing w3"
    using calm_sandbox_rows(2) [OF w2] by blast
  obtain w4 where fi: "run_state (finalize calm (OnLocal example_local) ''d1'' job example_key info (drill_outcome job ready)) w3 = ((), w4)"
    and w4: "at_status DrillSucceeded w4"
    using calm_finalize [OF w3] by blast
  show ?thesis
    using put de(1) sd fi w4 by (simp add: collect_evidence_def Let_def key lims)
qed

lemma calm_validate:
  assumes "at_status DrillRestoring w" and "short_sandbox s" and "example_drill_job job" and "length h \<le> 64"
  shows "\<exists>w'. run_state (validate_phase calm (OnLocal example_local) ''d1'' job s h) w = (True, w') \<and>
    at_status DrillSucceeded w'"
proof -
  obtain w1 where t1: "run_state (transition calm ''d1'' DrillValidating ''POSTGRES_CONNECTIVITY'' 4) w = (None, w1)"
    and w1: "at_status DrillValidating w1"
    using calm_transition [OF assms(1) example_moves(3)] by blast
  obtain w2 where va: "run_state (ValidatePostgresConnectivity calm s) w1 = (None, w2)" "docker_only w1 w2"
    using calm_in_container(3) [OF short_sandboxD [OF assms(2)]] by blast
  let ?w3 = "w2\<lparr>w_step := Suc (w_step w2)\<rparr>"
  have w3: "at_status DrillValidating ?w3" using at_status_docker [OF va(2)] w1 by simp
  obtain w4 where t2: "run_state (transition calm ''d1'' DrillFinalizing ''COLLECT_EVIDENCE'' 5) ?w3 = (None, w4)"
    and w4: "at_status DrillFinalizing w4"
    using calm_transition [OF w3 example_moves(4)] by blast
  show ?thesis
    using t1 va(1) t2 calm_collect [OF w4 assms(2-4)] by (simp add: validate_phase_def)
qed

lemma calm_restore:
  assumes "at_status DrillPreparing w" and "short_sandbox s" and "example_drill_job job" and "length h \<le> 64"
  shows "\<exists>w'. run_state (restore_phase calm (OnLocal example_local) ''d1'' job s path h) w = (True, w') \<and>
    at_status DrillSucceeded w'"
proof -
  obtain x w1 where up: "run_state (db_exec calm (Some ''d1'') (\<lambda>_. upsert_sandbox (j_orgID job) ''d1'' (sx_CreatedAt s)
        (sx_ReadyAt s) (sx_ContainerName s) (sx_NetworkName s))) w = (Inr x, w1)" and w1: "at_status DrillPreparing w1"
    using calm_sandbox_rows(1) [OF assms(1)] by blast
  obtain w2 where rs: "run_state (recordStep calm ''d1'' ''CREATE_SANDBOX'' 2 ''Isolated Docker sandbox became ready'') w1 = (None, w2)"
    and w2: "at_status DrillPreparing w2"
    using calm_recordStep [OF w1] by blast
  obtain w3 where t1: "run_state (transition calm ''d1'' DrillRestoring ''RESTORE_POSTGRES'' 3) w2 = (None, w3)"
    and w3: "at_status DrillRestoring w3"
    using calm_transition [OF w2 example_moves(2)] by blast
  obtain w4 where cp: "run_state (CopyPostgresBackup calm s path) w3 = (None, w4)" "docker_only w3 w4"
    using calm_in_container(1) [OF short_sandboxD [OF assms(2)]] by blast
  obtain w5 where re: "run_state (RestorePostgresPlain calm s) w4 = (None, w5)" "docker_only w4 w5"
    using calm_in_container(2) [OF short_sandboxD [OF assms(2)]] by blast
  have w5: "at_status DrillRestoring w5" using at_status_docker [OF cp(2)] at_status_docker [OF re(2)] w3 by simp
  show ?thesis
    using up rs t1 cp(1) re(1) calm_validate [OF w5 assms(2-4)] by (simp add: restore_phase_def)
qed

lemma example_spec_valid: "\<not> spec_invalid (worker_spec example_deps ''d1'' org)"
  by (simp add: spec_invalid_def worker_spec_def compactID_def safeIdentifier_def float_le_def float_gt_def
      is_alnum_def is_lower_def is_upper_def is_digit_def)

lemma calm_sandbox_phase:
  assumes "at_status DrillPreparing w" and "example_drill_job job" and "length h \<le> 64"
  shows "\<exists>w'. run_state (sandbox_phase calm example_deps example_executor (OnLocal example_local) ''d1'' job path h) w = ((), w') \<and>
    at_status DrillSucceeded w'"
proof -
  have "sp_Image (worker_spec example_deps ''d1'' (j_orgID job)) = de_allowedImage example_executor"
    by (simp add: worker_spec_def example_deps_def example_executor_def)
  then obtain s w1 where cr: "run_state (sandbox_Create calm example_executor (worker_spec example_deps ''d1'' (j_orgID job))) w = (Inr s, w1)"
      "docker_only w w1" "short_sandbox s"
    using calm_Create [OF _ example_spec_valid] by blast
  have w1: "at_status DrillPreparing w1" using at_status_docker [OF cr(2)] assms(1) by simp
  obtain w2 where "run_state (restore_phase calm (OnLocal example_local) ''d1'' job s path h) w1 = (True, w2)"
      "at_status DrillSucceeded w2"
    using calm_restore [OF w1 cr(3) assms(2,3)] by blast
  then show ?thesis using cr(1) by (simp add: sandbox_phase_def)
qed

lemma calm_stage:
  assumes "at_status DrillPreparing w" and "w_files w ''/tmp/restoreguard-backup-1.sql'' = Some []"
    and "example_drill_job job" "j_storageKey job = ''k''" "j_checksum job = None"
  shows "\<exists>w'. run_state (stage_phase calm example_deps example_executor (OnLocal example_local) ''d1'' job
      ''/tmp/restoreguard-backup-1.sql'') w = ((), w') \<and> at_status DrillSucceeded w'"
proof -
  let ?tmp = "''/tmp/restoreguard-backup-1.sql''"
  have k: "w_files w ''/d/objects/k'' = Some ''hi''" using assms(1) by (simp add: at_status_def)
  let ?w1 = "w\<lparr>w_step := w_step w + 3\<rparr>"
  let ?info = "\<lparr>oi_Key = ''k'', oi_Size = 2, oi_SHA256 = [], oi_ContentType = []\<rparr>"
  have get: "run_state (obj_Get calm (OnLocal example_local) ''k'') w = (Inr (\<lparr>r_data = ''hi'', r_err = None\<rparr>, ?info), ?w1)"
    using k by (simp add: obj_Get_def local_Get_def example_paths os_Open_def os_Stat_def fate_err_def State_Monad.get_def)
  let ?w2 = "w\<lparr>w_step := w_step w + 4, w_files := (w_files w)(?tmp \<mapsto> ''hi'')\<rparr>"
  have copy: "run_state (copy_to_file calm ?tmp (io_LimitReader \<lparr>r_data = ''hi'', r_err = None\<rparr> (wrap64 (artifact_limit example_deps + 1)))) ?w1
      = ((''hi'', 2, None), ?w2)"
    by (simp add: copy_to_file_def io_LimitReader_def artifact_limit_def example_deps_def wrap64_def io_Copy_def fate_err_def)
  have w3: "at_status DrillPreparing (w\<lparr>w_files := (w_files w)(?tmp \<mapsto> ''hi''), w_step := n\<rparr>)" for n
    using assms(1) by (auto simp: at_status_def)
  have sb: "\<exists>w'. run_state (sandbox_phase calm example_deps example_executor (OnLocal example_local) ''d1'' job ?tmp
      (hex_sha256 calm ''hi'')) (w\<lparr>w_files := (w_files w)(?tmp \<mapsto> ''hi''), w_step := n\<rparr>) = ((), w') \<and>
      at_status DrillSucceeded w'" for n
    by (rule calm_sandbox_phase [OF w3 assms(3)]) (simp add: hex_sha256_def)
  have lim: "artifact_limit example_deps = 64" by (simp add: artifact_limit_def example_deps_def)
  show ?thesis
    using get copy sb assms(4,5)
    by (simp add: stage_phase_def Let_def calm_call checksum_bad_def lim)
qed

lemma example_run:
  "drill_status (w_db (snd (run_state (worker_run calm example_deps ''d1'') example_world))) ''d1'' = Some DrillSucceeded"
  "recovery_policies (w_db (snd (run_state (worker_run calm example_deps ''d1'') example_world))) = [example_policy]"
proof -
  let ?w0 = "example_world\<lparr>w_running := [''d1''], w_cancelled := []\<rparr>"
  let ?tmp = "''/tmp/restoreguard-backup-1.sql''"
  have w0: "at_status DrillQueued ?w0"
    by (auto simp: at_status_def example_world_def drill_status_def drill_by_id_def row_with_def example_drill_def)
  obtain w1 now where t1: "run_state (transition calm ''d1'' DrillPreparing ''FETCH_BACKUP'' 1) ?w0 = (None, w1)"
    and w1: "at_status DrillPreparing w1" and files: "w_files w1 = w_files ?w0"
    and db: "w_db w1 = transition_writes ''d1'' DrillPreparing ''FETCH_BACKUP'' 1 now (w_db ?w0)"
    using calm_transition [OF w0 example_moves(1)] by blast
  let ?job = "\<lparr>j_orgID = ''o1'', j_drillStarted = now, j_snapshotAt = 999000 * time_Second, j_checksum = None,
      j_storageKey = ''k'', j_rpoTarget = 3600, j_rtoTarget = 60,
      j_required = JArr [JStr ''POSTGRES_CONNECTIVITY'']\<rparr>"
  have job: "snd (select_job ''d1'' t (w_db w1)) = Inr ?job" for t
    by (simp add: db select_job_def job_rows_def drill_by_id_def transition_writes_def update_status_def insert_step_def
        example_world_def no_rows_def update_where_def row_with_def example_drill_def example_snapshot_def example_policy_def
        query_row_def scan_job_def)
  have sel: "fst (select_job ''d1'' t (w_db w1)) = w_db w1" for t by (simp add: select_job_def)
  let ?w2 = "w1\<lparr>w_step := w_step w1 + 2, w_files := (w_files w1)(?tmp \<mapsto> [])\<rparr>"
  have temp: "run_state (os_CreateTemp calm (temp_dir calm) ''restoreguard-backup-'' ''.sql'') (w1\<lparr>w_step := Suc (w_step w1)\<rparr>) = (Inr ?tmp, ?w2)"
    by (simp add: os_CreateTemp_def fate_err_def Let_def join_path_def files example_world_def)
  have w2: "at_status DrillPreparing ?w2" using w1 by (auto simp: at_status_def)
  obtain w3 where st: "run_state (stage_phase calm example_deps example_executor (OnLocal example_local) ''d1'' ?job ?tmp) ?w2 = ((), w3)"
    and w3: "at_status DrillSucceeded w3"
    using calm_stage [OF w2, of ?job] by (auto simp: example_drill_job_def unmarshal_strings_def)
  obtain r w4 where rm: "run_state (os_Remove calm ?tmp) w3 = (r, w4)" by fastforce
  have "w_db w4 = w_db w3"
    using keeps_run [OF keeps_os(4), of w3 w3 calm ?tmp] rm by (simp add: storage_only_simps)
  moreover have "run_state (worker_run calm example_deps ''d1'') example_world = ((), w4\<lparr>w_running := removeAll ''d1'' (w_running w4)\<rparr>)"
    using t1 job sel temp st rm
    by (simp add: worker_run_def run_body_def configured_run_def example_deps_def calm_exec example_world_def)
  ultimately show
    "drill_status (w_db (snd (run_state (worker_run calm example_deps ''d1'') example_world))) ''d1'' = Some DrillSucceeded"
    "recovery_policies (w_db (snd (run_state (worker_run calm example_deps ''d1'') example_world))) = [example_policy]"
    using w3 by (simp_all add: at_status_def)
qed


section \<open>A commit whose answer is lost\<close>

text \<open>
  When the last transaction is committed but its answer is lost, the worker takes it for failed and deletes
  the evidence object: the drill has succeeded, and its evidence row refers to an object that is gone.
\<close>

definition lossy :: "nat \<Rightarrow> env" where
  "lossy k = calm\<lparr>fate_at := \<lambda>n. if n = k then Lost (External ''connection reset'') else Performed\<rparr>"

lemma lossy_simps [simp]:
  "fate_at (lossy k) n = (if n = k then Lost (External ''connection reset'') else Performed)"
  "clock_at (lossy k) n = 1000000 * time_Second + int n" "uuid_at (lossy k) n = ''0123456789ab''"
  "others_at (lossy k) n = []" "pg_time (lossy k) x = x"
  by (simp_all add: lossy_def)

lemma lossy_call: "w_step w \<noteq> k \<Longrightarrow> run_state (call (lossy k)) w = (None, w\<lparr>w_step := Suc (w_step w)\<rparr>)"
  by (simp add: run_call)

lemma lost_commit_deletes_evidence:
  assumes "at_status DrillFinalizing w" and "w_files w ''/d/objects/o1/drills/d1/evidence/recovery.json'' = Some b"
  shows "\<exists>w'. run_state (finalize (lossy (w_step w + 9)) (OnLocal example_local) ''d1'' job example_key art oc) w = ((), w') \<and>
    drill_status (w_db w') ''d1'' = Some DrillSucceeded \<and> obj_at (OnLocal example_local) w' example_key = None"
proof -
  let ?e = "lossy (w_step w + 9)"
  obtain d where d: "recovery_drills (w_db w) = [d]" "dr_id d = ''d1''"
    using assms by (auto simp: at_status_def)
  have fin: "dr_status d = DrillFinalizing"
    using assms d by (auto simp: at_status_def drill_status_def drill_by_id_def row_with_def)
  have one: "rows_affected (finish_where ''d1'') (recovery_drills (w_db w)) = 1"
    by (simp add: d fin rows_affected_def finish_where_def)
  let ?start = "1000000 * time_Second + int (w_step w)" and ?now = "1000000 * time_Second + int (w_step w) + 6"
  let ?t = "final_writes (j_orgID job) ''d1'' art (''0123456789ab'', ''0123456789ab'', ?start) ?now oc (w_db w)"
  let ?w1 = "w\<lparr>w_step := w_step w + 10, w_db := ?t\<rparr>"
  have tx: "run_state (final_tx ?e ''d1'' job art oc) w = (Some (External ''connection reset''), ?w1)"
    using one by (simp add: final_tx_def clock_Now_def uuid_NewString_def lossy_call interleave_def State_Monad.get_def tx_commit_def)
  obtain r w2 where del: "run_state (obj_Delete ?e (OnLocal example_local) example_key) ?w1 = (r, w2)" by fastforce
  then have "w_db w2 = ?t" and gone: "w_files w2 ''/d/objects/o1/drills/d1/evidence/recovery.json'' = None"
    using assms(2) by (auto simp: obj_Delete_def local_Delete_def example_paths os_Remove_def fate_err_def split: if_splits)
  moreover have "drill_status ?t ''d1'' = Some DrillSucceeded"
  proof -
    have "drill_by_id (w_db w) ''d1'' = Some d" by (simp add: drill_by_id_def row_with_def d)
    then show ?thesis by (simp add: drill_status_def final_writes_drill fin)
  qed
  moreover have "obj_at (OnLocal example_local) w2 example_key = None"
    using gone by (simp add: obj_at_def stored_def example_paths)
  ultimately show ?thesis using tx del by (simp add: finalize_def)
qed

end
