(* ===== verification/Report.thy ===== *)
theory Report
  imports Go_Time
begin

text \<open>
  The recovery report of package \<open>report\<close> (\<open>pdf.go\<close>): the lines of the report, the escaping of
  their text, and the PDF document with its cross-reference table. Two readers state what a PDF
  viewer relies on: one follows \<open>startxref\<close> and the cross-reference table to the objects, the
  other reads the literal strings a content stream shows.
\<close>

record RecoveryReport =
  rp_Asset :: string
  rp_Source :: string
  rp_Snapshot :: string
  rp_Sandbox :: string
  rp_Assessment :: string
  rp_Confidence :: string
  rp_Limitations :: string
  rp_SnapshotAge :: string
  rp_RPO :: string
  rp_RTO :: string
  rp_RPOResult :: string
  rp_RTOResult :: string
  rp_GeneratedAt :: instant
  rp_Validations :: "string list"
  rp_Evidence :: "string list"


definition report_lines :: "RecoveryReport \<Rightarrow> string list" where
  "report_lines r =
     [''Recovery Verification Report'',
      ''Generated: '' @ RFC3339 (rp_GeneratedAt r),
      ''Protected asset: '' @ rp_Asset r,
      ''Backup source: '' @ rp_Source r,
      ''Snapshot: '' @ rp_Snapshot r,
      ''Snapshot age: '' @ rp_SnapshotAge r,
      ''Sandbox: '' @ rp_Sandbox r,
      ''Measured RPO: '' @ rp_RPO r @ '' ('' @ rp_RPOResult r @ '')'',
      ''Measured RTO: '' @ rp_RTO r @ '' ('' @ rp_RTOResult r @ '')'',
      ''Assessment: '' @ rp_Assessment r,
      ''Recovery confidence: '' @ rp_Confidence r,
      ''Validations: '' @ strings_Join (rp_Validations r) '', '',
      ''Evidence: '' @ strings_Join (rp_Evidence r) '', '',
      ''Limitations: '' @ rp_Limitations r,
      ''This report represents the results of a controlled recovery drill under the tested conditions.'',
      ''It does not guarantee recovery under every production disaster scenario.'']"

text \<open>\<open>strings.Map\<close> works on runes; every rune outside printable ASCII becomes a space.\<close>

definition printable :: "nat \<Rightarrow> char" where
  "printable r = (if r < 32 \<or> r > 126 then CHR '' '' else char_of r)"

definition escape_char :: "char \<Rightarrow> string" where
  "escape_char c =
     (if c = CHR 0x5C then [CHR 0x5C, CHR 0x5C]
      else if c = CHR ''('' then [CHR 0x5C, CHR ''(''] else if c = CHR '')'' then [CHR 0x5C, CHR '')'']
      else [c])"

definition pdfEscape :: "string \<Rightarrow> string" where
  "pdfEscape value = concat (map escape_char (map printable (runes value)))"

abbreviation NL :: string where "NL \<equiv> [CHR 0x0A]"

fun content_loop :: "nat \<Rightarrow> string list \<Rightarrow> string" where
  "content_loop i [] = []"
| "content_loop i (line # lines) =
     ''/F1 '' @ (if i > 0 then ''10'' else ''16'') @ '' Tf ('' @ pdfEscape line @ '') Tj 0 -24 Td '' @
       content_loop (Suc i) lines"

definition page_content :: "string list \<Rightarrow> string" where
  "page_content lines = ''BT /F1 16 Tf 50 790 Td '' @ content_loop 0 lines @ ''ET''"

definition pdf_objects :: "string \<Rightarrow> string list" where
  "pdf_objects content =
     [''<< /Type /Catalog /Pages 2 0 R >>'',
      ''<< /Type /Pages /Kids [3 0 R] /Count 1 >>'',
      ''<< /Type /Page /Parent 2 0 R /MediaBox [0 0 612 842] /Resources << /Font << /F1 4 0 R >> >> /Contents 5 0 R >>'',
      ''<< /Type /Font /Subtype /Type1 /BaseFont /Helvetica >>'',
      ''<< /Length '' @ format_nat (length content) @ '' >>'' @ NL @ ''stream'' @ NL @ content @ NL @ ''endstream'']"

definition object_text :: "nat \<Rightarrow> string \<Rightarrow> string" where
  "object_text i object = format_nat i @ '' 0 obj'' @ NL @ object @ NL @ ''endobj'' @ NL"

fun write_objects :: "nat \<Rightarrow> string list \<Rightarrow> bytes \<Rightarrow> nat list \<Rightarrow> bytes \<times> nat list" where
  "write_objects i [] out offsets = (out, offsets)"
| "write_objects i (object # objects) out offsets =
     write_objects (Suc i) objects (out @ object_text (i + 1) object) (offsets @ [length out])"

definition xref_entry :: "nat \<Rightarrow> string" where
  "xref_entry offset = zero_pad 10 (format_nat offset) @ '' 00000 n '' @ NL"

definition GeneratePDF :: "RecoveryReport \<Rightarrow> bytes" where
  "GeneratePDF r =
     (let objects = pdf_objects (page_content (report_lines r));
          (out, offsets) = write_objects 0 objects (''%PDF-1.4'' @ NL) [0];
          xref = length out
      in out @ ''xref'' @ NL @ ''0 '' @ format_nat (length objects + 1) @ NL @ ''0000000000 65535 f '' @ NL @
         concat (map xref_entry (tl offsets)) @
         ''trailer << /Size '' @ format_nat (length objects + 1) @ '' /Root 1 0 R >>'' @ NL @
         ''startxref'' @ NL @ format_nat xref @ NL @ ''%%EOF'')"


section \<open>Readers\<close>

text \<open>The number before the end-of-file marker, and the offset of an object in the table there:
  a heading of nine bytes and entries of twenty.\<close>

definition read_startxref :: "bytes \<Rightarrow> nat" where
  "read_startxref pdf = nat (dec_value (rev (takeWhile is_digit (drop 6 (rev pdf)))))"

definition read_offset :: "bytes \<Rightarrow> nat \<Rightarrow> nat" where
  "read_offset pdf k = nat (dec_value (take 10 (drop (read_startxref pdf + 9 + 20 * k) pdf)))"

text \<open>A literal string up to its closing parenthesis: balanced parentheses belong to the text,
  a backslash takes the next parenthesis or backslash literally.\<close>

fun read_literal :: "nat \<Rightarrow> string \<Rightarrow> (string \<times> string) option" where
  "read_literal d [] = None"
| "read_literal d (c # cs) =
     (if c = CHR 0x5C then
        (case cs of
           [] \<Rightarrow> None
         | x # r \<Rightarrow>
             if x = CHR 0x5C \<or> x = CHR ''('' \<or> x = CHR '')''
             then map_option (apfst ((#) x)) (read_literal d r) else None)
      else if c = CHR ''('' then map_option (apfst ((#) c)) (read_literal (Suc d) cs)
      else if c = CHR '')'' then
        (if d = 0 then Some ([], cs) else map_option (apfst ((#) c)) (read_literal (d - 1) cs))
      else map_option (apfst ((#) c)) (read_literal d cs))"

lemma read_literal_shorter: "read_literal d s = Some (lit, rest) \<Longrightarrow> length rest < length s"
  by (induction d s arbitrary: lit rest rule: read_literal.induct)
    (fastforce split: if_splits list.splits)+

function shown_texts :: "string \<Rightarrow> string list" where
  "shown_texts [] = []"
| "shown_texts (c # cs) =
     (if c = CHR ''('' then
        (case read_literal 0 cs of None \<Rightarrow> [] | Some (lit, rest) \<Rightarrow> lit # shown_texts rest)
      else shown_texts cs)"
  by pat_completeness auto
termination
  by (relation "measure length") (auto dest!: read_literal_shorter)


section \<open>Lemmas\<close>

lemma read_literal_escape:
  "read_literal 0 (concat (map escape_char lit) @ CHR '')'' # rest) = Some (lit, rest)"
  by (induction lit) (simp_all add: escape_char_def)

lemma read_pdfEscape:
  "read_literal 0 (pdfEscape line @ CHR '')'' # rest) = Some (map printable (runes line), rest)"
  unfolding pdfEscape_def by (rule read_literal_escape)

lemma shown_texts_skip: "CHR ''('' \<notin> set p \<Longrightarrow> shown_texts (p @ s) = shown_texts s"
  by (induction p) auto

lemma shown_texts_content:
  "shown_texts (content_loop i lines @ ''ET'') = map (\<lambda>line. map printable (runes line)) lines"
proof (induction lines arbitrary: i)
  case (Cons line lines)
  let ?pre = "''/F1 '' @ (if i > 0 then ''10'' else ''16'') @ '' Tf ''"
  let ?post = "'' Tj 0 -24 Td ''"
  have "content_loop i (line # lines) @ ''ET'' =
      ?pre @ CHR ''('' # (pdfEscape line @ CHR '')'' # (?post @ content_loop (Suc i) lines @ ''ET''))"
    by simp
  moreover have "shown_texts (?pre @ CHR ''('' # s) = shown_texts (CHR ''('' # s)" for s
    by (rule shown_texts_skip) simp
  moreover have "shown_texts (?post @ s) = shown_texts s" for s
    by (rule shown_texts_skip) simp
  ultimately show ?case
    using Cons by (simp add: read_pdfEscape del: content_loop.simps)
qed simp

lemma write_objects_spec:
  assumes "write_objects i objects out offsets = (out', offsets')"
  shows "\<exists>tail new. out' = out @ tail \<and> offsets' = offsets @ new \<and> length new = length objects \<and>
    (\<forall>k < length objects. new ! k \<le> length out' \<and> HasPrefix (drop (new ! k) out') (object_text (i + k + 1) (objects ! k)))"
  using assms
proof (induction i objects out offsets rule: write_objects.induct)
  case (2 i object objects out offsets)
  then obtain tail new where IH: "out' = (out @ object_text (i + 1) object) @ tail"
    "offsets' = (offsets @ [length out]) @ new" "length new = length objects"
    "\<forall>k < length objects. new ! k \<le> length out' \<and>
       HasPrefix (drop (new ! k) out') (object_text (Suc i + k + 1) (objects ! k))" by auto
  have "(length out # new) ! k \<le> length out' \<and>
      HasPrefix (drop ((length out # new) ! k) out') (object_text (i + k + 1) ((object # objects) ! k))"
    if "k < length (object # objects)" for k
    using that IH by (cases k) simp_all
  then have "out' = out @ (object_text (i + 1) object @ tail) \<and> offsets' = offsets @ (length out # new) \<and>
      length (length out # new) = length (object # objects) \<and>
      (\<forall>k < length (object # objects). (length out # new) ! k \<le> length out' \<and>
        HasPrefix (drop ((length out # new) ! k) out') (object_text (i + k + 1) ((object # objects) ! k)))"
    using IH(1-3) by simp
  then show ?case by blast
qed simp

lemma length_xref_entry: "n < 10 ^ 10 \<Longrightarrow> length (xref_entry n) = 20"
  using format_dec_length [of "int n" 10]
  by (simp add: xref_entry_def length_zero_pad format_nat_def format_int_def)

lemma take_xref_entry: "n < 10 ^ 10 \<Longrightarrow> nat (dec_value (take 10 (xref_entry n))) = n"
  using format_dec_length [of "int n" 10] dec_value_zero_pad [of "int n" 10]
  by (simp add: xref_entry_def length_zero_pad format_nat_def format_int_def)

lemma HasPrefix_mono: "HasPrefix s p \<Longrightarrow> HasPrefix (s @ t) p"
  by (auto simp: HasPrefix_prefix)

lemma drop_concat_entries:
  assumes "\<And>x. x \<in> set xs \<Longrightarrow> length (f x) = n" and "k < length xs"
  shows "\<exists>tail. drop (n * k) (concat (map f xs)) = f (xs ! k) @ tail"
  using assms
proof (induction xs arbitrary: k)
  case (Cons x xs)
  show ?case
  proof (cases k)
    case (Suc j)
    have "length (f x) = n" using Cons.prems by simp
    then have "drop (n * k) (concat (map f (x # xs))) = drop (n * j) (concat (map f xs))"
      using Suc by simp
    then show ?thesis using Cons Suc by simp
  qed simp
qed simp

lemma read_startxref_end: "read_startxref (s @ ''startxref'' @ NL @ format_nat n @ NL @ ''%%EOF'') = n"
proof -
  have "list_all is_digit (format_nat n)"
    by (simp add: format_nat_def format_int_def format_dec_digits)
  then have "takeWhile is_digit (rev (format_nat n) @ CHR 0x0A # s') = rev (format_nat n)" for s'
    by (subst takeWhile_append2) (auto simp: list_all_iff is_digit_def)
  then show ?thesis
    by (simp add: read_startxref_def format_nat_def format_int_def format_dec_value)
qed


text \<open>The size of the document: escaping at most doubles the text.\<close>

lemma length_rune_list: "length (rune_list bs) \<le> length bs"
proof (induction bs rule: rune_list.induct)
  case (1 bs)
  show ?case
  proof (cases "bs = []")
    case False
    then have "length (rune_list (drop (snd (decode_rune bs)) bs)) \<le> length bs - snd (decode_rune bs)"
      using 1 by simp
    moreover have "0 < length bs" using False by simp
    ultimately have "Suc (length (rune_list (drop (snd (decode_rune bs)) bs))) \<le> length bs"
      using decode_width [of bs] by linarith
    with False show ?thesis by (subst rune_list.simps) simp
  qed (simp add: rune_list.simps)
qed

lemma length_pdfEscape: "length (pdfEscape s) \<le> 2 * length s"
proof -
  have "length (concat (map escape_char cs)) \<le> 2 * length cs" for cs
    by (induction cs) (auto simp: escape_char_def)
  from this [of "map printable (runes s)"] show ?thesis
    using length_rune_list [of "map of_char s"] by (simp add: pdfEscape_def runes_def)
qed

lemma length_content_loop: "length (content_loop i lines) \<le> 2 * length (concat lines) + 40 * length lines"
proof (induction lines arbitrary: i)
  case (Cons line lines)
  show ?case
    using length_pdfEscape [of line] Cons [of "Suc i"] by (cases "i > 0") simp_all
qed simp

lemma length_format_nat: "n < 10 ^ 10 \<Longrightarrow> length (format_nat n) \<le> 10"
  using format_dec_length [of "int n" 10] by (simp add: format_nat_def format_int_def)

lemma length_pdf_objects:
  assumes "length content < 10 ^ 10"
  shows "length (concat (pdf_objects content)) \<le> length content + 400"
  using length_format_nat [OF assms] by (simp add: pdf_objects_def)

lemma length_write_objects:
  assumes "write_objects i objects out offsets = (out', offsets')" and "i + length objects < 10"
  shows "length out' \<le> length out + length (concat objects) + 30 * length objects"
  using assms
proof (induction i objects out offsets rule: write_objects.induct)
  case (2 i object objects out offsets)
  then show ?case using length_format_nat [of "i + 1"] by (simp add: object_text_def)
qed simp

lemma GeneratePDF_length:
  assumes "length (concat (report_lines r)) \<le> 10 ^ 9"
  shows "length (GeneratePDF r) < 10 ^ 10"
proof -
  let ?lines = "report_lines r"
  define content where "content = page_content ?lines"
  obtain out offsets where w: "write_objects 0 (pdf_objects content) (''%PDF-1.4'' @ NL) [0] = (out, offsets)"
    by fastforce
  have five: "length (pdf_objects content) = 5" by (simp add: pdf_objects_def)
  have sixteen: "length ?lines = 16" by (simp add: report_lines_def)
  have "length content \<le> 2 * length (concat ?lines) + 700"
    using length_content_loop [of 0 ?lines] sixteen by (simp add: content_def page_content_def)
  then have content: "length content \<le> 2 * 10 ^ 9 + 700" using assms by linarith
  then have "length (concat (pdf_objects content)) \<le> length content + 400"
    by (intro length_pdf_objects) simp
  then have out: "length out \<le> 2 * 10 ^ 9 + 2000"
    using length_write_objects [OF w] content five by simp
  obtain new where new: "offsets = 0 # new" "length new = 5" "\<And>k. k < 5 \<Longrightarrow> new ! k \<le> length out"
    using write_objects_spec [OF w] five by auto
  have "length (xref_entry n) = 20" if "n \<in> set new" for n
  proof (rule length_xref_entry)
    have "n \<le> length out" using that new(2,3) by (auto simp: in_set_conv_nth)
    then show "n < 10 ^ 10" using out by simp
  qed
  then have "length (concat (map xref_entry new)) = 100"
    using new(2) by (simp add: length_concat o_def sum_list_triv cong: map_cong)
  then show ?thesis
    using w five new(1) out length_format_nat [of "length out"] length_format_nat [of 6]
    by (simp add: GeneratePDF_def Let_def content_def)
qed


section \<open>Properties\<close>

text \<open>
  C24. A report's cross-reference table is right: the number after \<open>startxref\<close> is the position of
  the table, and for each of the five objects the table's entry is the position of that object,
  with its number, its body and its end. The report's text is at most a billion bytes, so that
  positions have ten digits. The fifth object is the content stream, with the stream's length in bytes.
\<close>

theorem pdf_xref_sound:
  fixes r
  defines "pdf \<equiv> GeneratePDF r"
    and "objects \<equiv> pdf_objects (page_content (report_lines r))"
  assumes "length (concat (report_lines r)) \<le> 10 ^ 9" and "k < 5"
  shows "HasPrefix (drop (read_startxref pdf) pdf) (''xref'' @ NL) \<and>
    HasPrefix (drop (read_offset pdf (Suc k)) pdf) (object_text (Suc k) (objects ! k))"
proof -
  obtain out offsets where w: "write_objects 0 objects (''%PDF-1.4'' @ NL) [0] = (out, offsets)"
    by fastforce
  have five: "length objects = 5" by (simp add: objects_def pdf_objects_def)
  obtain new where new: "offsets = 0 # new" "length new = 5"
    "\<And>k. k < 5 \<Longrightarrow> new ! k \<le> length out \<and> HasPrefix (drop (new ! k) out) (object_text (k + 1) (objects ! k))"
    using write_objects_spec [OF w] five by auto
  let ?head = "''xref'' @ NL @ ''0 6'' @ NL" and ?free = "''0000000000 65535 f '' @ NL"
  let ?entries = "concat (map xref_entry new)"
  let ?trailer = "''trailer << /Size 6 /Root 1 0 R >>'' @ NL"
  have six: "format_nat 6 = ''6''"
    by code_simp
  have pdf: "pdf = out @ ?head @ ?free @ ?entries @ ?trailer @ ''startxref'' @ NL @ format_nat (length out) @ NL @ ''%%EOF''"
    unfolding pdf_def GeneratePDF_def Let_def
    using w five six new(1) by (simp add: objects_def)
  have start: "read_startxref pdf = length out"
    unfolding pdf using read_startxref_end [of "out @ ?head @ ?free @ ?entries @ ?trailer"] by simp
  have "length pdf < 10 ^ 10" using assms(3) GeneratePDF_length by (simp add: pdf_def)
  then have "length out < 10 ^ 10" by (simp add: pdf)
  then have small: "n < 10 ^ 10" if "n \<in> set new" for n
    using that new(2,3) by (auto simp: in_set_conv_nth) (meson le_less_trans)
  have entry: "length (xref_entry (new ! k)) = 20"
    using small new(2) assms(4) by (simp add: length_xref_entry)
  obtain tail where tail: "drop (20 * k) ?entries = xref_entry (new ! k) @ tail"
    using drop_concat_entries [of new xref_entry 20 k] small length_xref_entry new(2) assms(4) by auto
  define rest where "rest = ?trailer @ ''startxref'' @ NL @ format_nat (length out) @ NL @ ''%%EOF''"
  have "drop (length out + 9 + 20 * Suc k) pdf = drop (20 * k) (drop 29 (drop (length out) pdf))"
    by (simp only: drop_drop) (simp add: algebra_simps)
  also have "\<dots> = drop (20 * k) (?entries @ rest)"
    by (simp add: pdf rest_def)
  also have "\<dots> = xref_entry (new ! k) @ tail @ drop (20 * k - length ?entries) rest"
    using tail by simp
  finally have "read_offset pdf (Suc k) = nat (dec_value (take 10 (xref_entry (new ! k))))"
    using entry by (simp add: read_offset_def start)
  also have "\<dots> = new ! k"
    using small new(2) assms(4) by (simp add: take_xref_entry)
  finally have "read_offset pdf (Suc k) = new ! k" .
  moreover have "HasPrefix (drop (new ! k) pdf) (object_text (Suc k) (objects ! k))"
    using new(3) [OF assms(4)] HasPrefix_mono unfolding pdf drop_append by simp
  moreover have "HasPrefix (drop (read_startxref pdf) pdf) (''xref'' @ NL)"
    unfolding start by (simp add: pdf HasPrefix_def)
  ultimately show ?thesis by simp
qed

definition example_report :: RecoveryReport where
  "example_report = \<lparr>rp_Asset = ''ERP (demo)'', rp_Source = [], rp_Snapshot = ''s'', rp_Sandbox = ''x'',
     rp_Assessment = ''VERIFIED'', rp_Confidence = ''HIGH'', rp_Limitations = ''none'', rp_SnapshotAge = [],
     rp_RPO = ''1h0m0s'', rp_RTO = ''1m0s'', rp_RPOResult = ''PASS'', rp_RTOResult = ''PASS'',
     rp_GeneratedAt = 0, rp_Validations = [''v''], rp_Evidence = [''e'']\<rparr>"

theorem pdf_xref_sound_witness:
  "HasPrefix (drop (read_offset (GeneratePDF example_report) 5) (GeneratePDF example_report))
     (object_text 5 (pdf_objects (page_content (report_lines example_report)) ! 4))"
proof -
  have "RFC3339 0 = ''0001-01-01T00:00:00Z''" by code_simp
  then have "length (concat (report_lines example_report)) \<le> 10 ^ 9"
    by (simp add: report_lines_def example_report_def)
  then show ?thesis using pdf_xref_sound [of example_report 4] by simp
qed

text \<open>
  C25. What a viewer shows is the report's text and nothing else: reading the literal strings of
  the content stream gives exactly the lines of the report, each with the characters outside
  printable ASCII blanked. No asset name, summary or other input can close a string or add one.
\<close>

theorem pdf_shows_lines:
  "shown_texts (page_content (report_lines r)) =
     map (\<lambda>line. map printable (runes line)) (report_lines r)"
proof -
  have "shown_texts (''BT /F1 16 Tf 50 790 Td '' @ s) = shown_texts s" for s
    by (rule shown_texts_skip) simp
  then show ?thesis unfolding page_content_def by (simp only: shown_texts_content)
qed

end
