(* ===== verification/Security.thy ===== *)
theory Security
  imports World Text_Formats
begin

text \<open>
  Package \<open>security\<close>: the role permissions (\<open>rbac.go\<close>), password hashing with Argon2id
  (\<open>password.go\<close>) and the secret store (\<open>secret.go\<close>). The Argon2id key derivation is a function of
  the environment, the AEAD cipher a parameter; what the code relies on of them is named in
  \<open>argon2_ok\<close> and \<open>aead_ok\<close>.
\<close>

section \<open>Role permissions\<close>

text \<open>\<open>rolePermissions\<close>: the permissions that map to true; a role that is not a key has none.\<close>

definition rolePermissions :: "string \<Rightarrow> string list" where
  "rolePermissions role =
     (if role = ''OWNER'' then [''*'']
      else if role = ''ADMIN'' then [''*'']
      else if role = ''RECOVERY_ENGINEER'' then
        [''backup_source.read'', ''backup_source.manage'', ''recovery_policy.read'', ''recovery_policy.manage'',
         ''drill.read'', ''drill.run'', ''evidence.read'', ''report.export'']
      else if role = ''OPERATOR'' then
        [''backup_source.read'', ''recovery_policy.read'', ''drill.read'', ''drill.run'', ''evidence.read'']
      else if role = ''AUDITOR'' then
        [''backup_source.read'', ''recovery_policy.read'', ''drill.read'', ''evidence.read'', ''report.export'', ''audit.read'']
      else if role = ''VIEWER'' then
        [''backup_source.read'', ''recovery_policy.read'', ''drill.read'', ''evidence.read'']
      else [])"

fun Allowed :: "string list \<Rightarrow> string \<Rightarrow> bool" where
  "Allowed [] permission = False"
| "Allowed (role # held) permission =
     (if ''*'' \<in> set (rolePermissions role) \<or> permission \<in> set (rolePermissions role) then True
      else Allowed held permission)"

text \<open>The tables \<open>permissions\<close> and \<open>role_permissions\<close> as the first migration fills them.\<close>

definition schema_permissions :: "string list" where
  "schema_permissions =
     [''backup_source.read'', ''backup_source.manage'', ''recovery_policy.read'', ''recovery_policy.manage'',
      ''drill.read'', ''drill.run'', ''evidence.read'', ''report.export'', ''user.manage'', ''audit.read'', ''settings.manage'']"

definition schema_roles :: "string list" where
  "schema_roles = [''OWNER'', ''ADMIN'', ''RECOVERY_ENGINEER'', ''OPERATOR'', ''AUDITOR'', ''VIEWER'']"

definition schema_granted :: "string \<Rightarrow> string \<Rightarrow> bool" where
  "schema_granted role permission =
     (role \<in> set schema_roles \<and> permission \<in> set schema_permissions \<and>
      (role \<in> {''OWNER'', ''ADMIN''} \<or>
       role = ''RECOVERY_ENGINEER'' \<and> permission \<in> {''backup_source.read'', ''backup_source.manage'',
         ''recovery_policy.read'', ''recovery_policy.manage'', ''drill.read'', ''drill.run'', ''evidence.read'', ''report.export''} \<or>
       role = ''OPERATOR'' \<and> permission \<in> {''backup_source.read'', ''recovery_policy.read'', ''drill.read'',
         ''drill.run'', ''evidence.read''} \<or>
       role = ''AUDITOR'' \<and> permission \<in> {''backup_source.read'', ''recovery_policy.read'', ''drill.read'',
         ''evidence.read'', ''report.export'', ''audit.read''} \<or>
       role = ''VIEWER'' \<and> permission \<in> {''backup_source.read'', ''recovery_policy.read'', ''drill.read'', ''evidence.read''}))"


section \<open>Passwords\<close>

definition HashPassword :: "env \<Rightarrow> string \<Rightarrow> string result option program" where
  "HashPassword e password =
     (if length password < 12 \<or> length password > 256
      then State_Monad.return (Some (Inl (Errorf ''password must contain 12 to 256 characters'')))
      else do {
        salted \<leftarrow> rand_Read e 16;
        State_Monad.return
          (case salted of
             Inl er \<Rightarrow> Some (Inl (Wrapped ''salt'' er))
           | Inr salt \<Rightarrow>
               map_option (\<lambda>hash. Inr (''$argon2id$v=19$m='' @ format_int 65536 @ '',t='' @ format_int 3 @
                   '',p='' @ format_int 2 @ ''$'' @ b64_encode False salt @ ''$'' @ b64_encode False hash))
                 (argon2_IDKey e password salt 3 65536 2 32))
      })"

text \<open>\<open>fmt.Sscanf(s, "m=%d,t=%d,p=%d", ...)\<close> into a \<open>uint32\<close>, a \<open>uint32\<close> and a \<open>uint8\<close>.\<close>

definition scan_params :: "string \<Rightarrow> (nat \<times> nat \<times> nat) option" where
  "scan_params s = do {
     r1 \<leftarrow> scan_literal ''m='' (runes s);
     (memory, r2) \<leftarrow> scan_uint 32 r1;
     r3 \<leftarrow> scan_literal '',t='' r2;
     (iterations, r4) \<leftarrow> scan_uint 32 r3;
     r5 \<leftarrow> scan_literal '',p='' r4;
     (threads, _) \<leftarrow> scan_uint 8 r5;
     Some (memory, iterations, threads)
   }"

text \<open>The result is \<open>None\<close> when the key derivation panics.\<close>

definition VerifyPassword :: "env \<Rightarrow> string \<Rightarrow> string \<Rightarrow> bool option" where
  "VerifyPassword e encoded password =
     (let parts = strings_Split (CHR ''$'') encoded in
      if length parts \<noteq> 6 \<or> parts ! 1 \<noteq> ''argon2id'' then Some False
      else case scan_params (parts ! 3) of
          None \<Rightarrow> Some False
        | Some (memory, iterations, threads) \<Rightarrow>
            if memory > 128 * 1024 \<or> iterations > 10 \<or> threads > 8 then Some False
            else case b64_decode False (parts ! 4) of
                None \<Rightarrow> Some False
              | Some salt \<Rightarrow>
                  (case b64_decode False (parts ! 5) of
                     None \<Rightarrow> Some False
                   | Some want \<Rightarrow>
                       map_option (\<lambda>got. got = want)
                         (argon2_IDKey e password salt iterations memory threads (length want))))"

text \<open>What the code relies on of Argon2id: with at least one round and one thread it returns a
  key of the length asked for.\<close>

definition argon2_ok :: "env \<Rightarrow> bool" where
  "argon2_ok e =
     (\<forall>password salt rounds memory threads len. 1 \<le> rounds \<longrightarrow> 1 \<le> threads \<longrightarrow>
        (\<exists>key. argon2_IDKey e password salt rounds memory threads len = Some key \<and> length key = len))"


section \<open>Secrets\<close>

record aead =
  NonceSize :: nat
  Seal :: "bytes \<Rightarrow> bytes \<Rightarrow> bytes \<Rightarrow> bytes"
  Open :: "bytes \<Rightarrow> bytes \<Rightarrow> bytes \<Rightarrow> bytes result"

text \<open>\<open>aes.NewCipher\<close> and \<open>cipher.NewGCM\<close> are the parameters \<open>new_cipher\<close> and \<open>new_gcm\<close>.\<close>

definition NewSecretStore :: "(bytes \<Rightarrow> 'b result) \<Rightarrow> ('b \<Rightarrow> aead result) \<Rightarrow> string \<Rightarrow> aead result" where
  "NewSecretStore new_cipher new_gcm base64Key =
     (case b64_decode True base64Key of
        None \<Rightarrow> Inl (Errorf ''master key must be a base64-encoded 32-byte key'')
      | Some key \<Rightarrow>
          if length key \<noteq> 32 then Inl (Errorf ''master key must be a base64-encoded 32-byte key'')
          else case new_cipher key of
              Inl er \<Rightarrow> Inl er
            | Inr block \<Rightarrow> new_gcm block)"

definition Encrypt :: "env \<Rightarrow> aead \<Rightarrow> string \<Rightarrow> bytes \<Rightarrow> bytes result program" where
  "Encrypt e s organizationID plaintext = do {
     nonce \<leftarrow> rand_Read e (NonceSize s);
     State_Monad.return (case nonce of
         Inl er \<Rightarrow> Inl er
       | Inr n \<Rightarrow> Inr (n @ Seal s n plaintext organizationID))
   }"

definition Decrypt :: "aead \<Rightarrow> string \<Rightarrow> bytes \<Rightarrow> bytes result" where
  "Decrypt s organizationID ciphertext =
     (if length ciphertext < NonceSize s then Inl (Errorf ''invalid ciphertext'')
      else case Open s (take (NonceSize s) ciphertext) (drop (NonceSize s) ciphertext) organizationID of
          Inl er \<Rightarrow> Inl (Wrapped ''decrypt secret'' er)
        | Inr plain \<Rightarrow> Inr plain)"

text \<open>An authenticated cipher opens what it sealed under the same nonce and additional data, and
  rejects a message sealed with other additional data.\<close>

definition aead_ok :: "aead \<Rightarrow> bool" where
  "aead_ok s =
     (\<forall>nonce p a. length nonce = NonceSize s \<longrightarrow>
        Open s nonce (Seal s nonce p a) a = Inr p \<and>
        (\<forall>b. b \<noteq> a \<longrightarrow> (\<exists>er. Open s nonce (Seal s nonce p a) b = Inl er)))"


section \<open>Lemmas\<close>

lemma Allowed_iff:
  "Allowed held permission \<longleftrightarrow>
     (\<exists>role \<in> set held. ''*'' \<in> set (rolePermissions role) \<or> permission \<in> set (rolePermissions role))"
  by (induction held) auto

lemma run_rand_Read:
  "run_state (rand_Read e len) w =
     (case fate_at e (w_step w) of
        Performed \<Rightarrow> Inr (fill len (rand_at e (w_step w))) | Refused er \<Rightarrow> Inl er | Lost er \<Rightarrow> Inl er,
      w\<lparr>w_step := Suc (w_step w)\<rparr>)"
  by (simp add: rand_Read_def)

lemma password_params: "scan_params (''m='' @ format_int 65536 @ '',t='' @ format_int 3 @ '',p='' @ format_int 2) = Some (65536, 3, 2)"
proof -
  have "format_int 65536 = ''65536''" "format_int 3 = ''3''" "format_int 2 = ''2''" by code_simp+
  then show ?thesis
    by (simp add: scan_params_def scan_literal_def scan_uint_def runes_def rune_list_ascii is_space_rune_def)
qed

text \<open>The six fields of an encoded password.\<close>

lemma split_password:
  "strings_Split (CHR ''$'') (''$argon2id$v=19$'' @ params @ ''$'' @ b64_encode False salt @ ''$'' @ b64_encode False hash) =
     [[], ''argon2id'', ''v=19'', params, b64_encode False salt, b64_encode False hash]"
  if "CHR ''$'' \<notin> set params"
proof -
  have "CHR ''$'' \<notin> set (b64_encode False bs)" for bs using b64_encode_plain by blast
  then show ?thesis
    using that by (simp add: strings_Split_append strings_Split_single)
qed

lemma verify_encoded:
  assumes "argon2_IDKey e pw salt 3 65536 2 32 = Some hash" and "length hash = 32"
  shows "VerifyPassword e (''$argon2id$v=19$m='' @ format_int 65536 @ '',t='' @ format_int 3 @ '',p='' @ format_int 2 @
      ''$'' @ b64_encode False salt @ ''$'' @ b64_encode False hash) pw' =
    map_option (\<lambda>got. got = hash) (argon2_IDKey e pw' salt 3 65536 2 32)"
proof -
  let ?params = "''m='' @ format_int 65536 @ '',t='' @ format_int 3 @ '',p='' @ format_int 2"
  have "format_int 65536 = ''65536''" "format_int 3 = ''3''" "format_int 2 = ''2''" by code_simp+
  then have "CHR ''$'' \<notin> set ?params" by simp
  then have parts: "strings_Split (CHR ''$'') (''$argon2id$v=19$'' @ ?params @ ''$'' @ b64_encode False salt @ ''$'' @
      b64_encode False hash) = [[], ''argon2id'', ''v=19'', ?params, b64_encode False salt, b64_encode False hash]"
    by (rule split_password)
  have "VerifyPassword e (''$argon2id$v=19$'' @ ?params @ ''$'' @ b64_encode False salt @ ''$'' @ b64_encode False hash) pw' =
      map_option (\<lambda>got. got = hash) (argon2_IDKey e pw' salt 3 65536 2 32)"
    unfolding VerifyPassword_def Let_def parts
    using assms password_params by (simp add: b64_decode_encode del: append.simps(2) append_assoc)
  then show ?thesis by simp
qed


section \<open>Properties\<close>

text \<open>
  C26. Passwords round trip: hashing a password of 12 to 256 bytes succeeds unless the random
  source fails, the result verifies, and another password verifies against it exactly when
  Argon2id derives the same key from it under the stored salt of 16 bytes. No stored parameters,
  separators or encodings get in the way, and verification does not panic.
\<close>

theorem password_round_trip:
  assumes "argon2_ok e" and "12 \<le> length password" and "length password \<le> 256"
  shows "case fst (run_state (HashPassword e password) w) of
      None \<Rightarrow> False
    | Some (Inl er) \<Rightarrow> fate_at e (w_step w) \<noteq> Performed
    | Some (Inr encoded) \<Rightarrow>
        VerifyPassword e encoded password = Some True \<and>
        (\<exists>salt. length salt = 16 \<and> (\<forall>other. VerifyPassword e encoded other =
           Some (argon2_IDKey e other salt 3 65536 2 32 = argon2_IDKey e password salt 3 65536 2 32)))"
proof (cases "fate_at e (w_step w)")
  case Performed
  let ?salt = "fill 16 (rand_at e (w_step w))"
  have key: "\<exists>key. argon2_IDKey e pw ?salt 3 65536 2 32 = Some key \<and> length key = 32" for pw
    using assms(1) unfolding argon2_ok_def by simp
  then obtain hash where hash: "argon2_IDKey e password ?salt 3 65536 2 32 = Some hash" "length hash = 32"
    by blast
  have verify: "VerifyPassword e (''$argon2id$v=19$m='' @ format_int 65536 @ '',t='' @ format_int 3 @ '',p='' @
      format_int 2 @ ''$'' @ b64_encode False ?salt @ ''$'' @ b64_encode False hash) other =
      Some (argon2_IDKey e other ?salt 3 65536 2 32 = argon2_IDKey e password ?salt 3 65536 2 32)" for other
    using verify_encoded [OF hash] key [of other] hash by auto
  show ?thesis
    using assms(2,3) Performed hash(1) verify verify [of password]
    by (auto simp: HashPassword_def run_rand_Read intro!: exI [of _ ?salt])
qed (use assms(2,3) in \<open>simp_all add: HashPassword_def run_rand_Read\<close>)

lemma calm_argon2: "argon2_ok calm"
  by (auto simp: argon2_ok_def)

theorem password_round_trip_witness:
  "\<exists>encoded. fst (run_state (HashPassword calm ''correct-horse'') idle) = Some (Inr encoded) \<and>
     VerifyPassword calm encoded ''correct-horse'' = Some True"
  using password_round_trip [OF calm_argon2, of "''correct-horse''" idle]
  by (auto split: option.splits sum.splits)

text \<open>
  C27. Least privilege: the code's role table grants, for the six roles and the eleven permissions of
  the schema, exactly what the \<open>role_permissions\<close> of the first migration grant; so only \<open>OWNER\<close> and
  \<open>ADMIN\<close> manage users and settings, and a role the table does not know grants nothing.
\<close>

theorem roles_match_schema:
  "(permission \<in> set schema_permissions \<longrightarrow>
      Allowed held permission = list_ex (\<lambda>role. schema_granted role permission) held) \<and>
   (Allowed held ''settings.manage'' \<longleftrightarrow> ''OWNER'' \<in> set held \<or> ''ADMIN'' \<in> set held) \<and>
   (Allowed held ''user.manage'' \<longleftrightarrow> ''OWNER'' \<in> set held \<or> ''ADMIN'' \<in> set held) \<and>
   (set held \<inter> set schema_roles = {} \<longrightarrow> \<not> Allowed held permission)"
proof -
  have one: "(''*'' \<in> set (rolePermissions role) \<or> p \<in> set (rolePermissions role)) = schema_granted role p"
    if "p \<in> set schema_permissions" for role p
    using that unfolding schema_granted_def schema_roles_def rolePermissions_def schema_permissions_def
    by auto
  then have eq: "Allowed held p = list_ex (\<lambda>role. schema_granted role p) held"
    if "p \<in> set schema_permissions" for p
    using that by (auto simp: Allowed_iff list_ex_iff)
  have "schema_granted role ''settings.manage'' \<longleftrightarrow> role \<in> {''OWNER'', ''ADMIN''}"
    and "schema_granted role ''user.manage'' \<longleftrightarrow> role \<in> {''OWNER'', ''ADMIN''}" for role
    by (auto simp: schema_granted_def schema_roles_def schema_permissions_def)
  moreover have "''settings.manage'' \<in> set schema_permissions" and "''user.manage'' \<in> set schema_permissions"
    by (simp_all add: schema_permissions_def)
  ultimately have "Allowed held ''settings.manage'' \<longleftrightarrow> ''OWNER'' \<in> set held \<or> ''ADMIN'' \<in> set held"
    and "Allowed held ''user.manage'' \<longleftrightarrow> ''OWNER'' \<in> set held \<or> ''ADMIN'' \<in> set held"
    using eq [of "''settings.manage''"] eq [of "''user.manage''"] by (auto simp: list_ex_iff)
  moreover have "rolePermissions role = []" if "role \<notin> set schema_roles" for role
    using that by (simp add: rolePermissions_def schema_roles_def)
  then have "set held \<inter> set schema_roles = {} \<longrightarrow> \<not> Allowed held permission"
    by (fastforce simp: Allowed_iff disjoint_iff)
  ultimately show ?thesis using eq by blast
qed

theorem roles_match_schema_witness:
  "Allowed [''OPERATOR''] ''drill.run'' = list_ex (\<lambda>role. schema_granted role ''drill.run'') [''OPERATOR''] \<and>
   \<not> Allowed [''GUEST''] ''drill.read''"
  using roles_match_schema [of "''drill.run''" "[''OPERATOR'']"] roles_match_schema [of "''drill.read''" "[''GUEST'']"]
  unfolding schema_permissions_def schema_roles_def by auto

text \<open>
  C28. Secrets round trip and are bound to their organization: over an authenticated cipher, what
  \<open>Encrypt\<close> returns for an organization decrypts to the plaintext for that organization and is
  rejected for every other; a ciphertext shorter than a nonce is rejected.
\<close>

theorem secret_round_trip:
  assumes "aead_ok s" and "fst (run_state (Encrypt e s org plaintext) w) = Inr ciphertext"
  shows "Decrypt s org ciphertext = Inr plaintext \<and>
    (\<forall>other. other \<noteq> org \<longrightarrow> (\<exists>er. Decrypt s other ciphertext = Inl (Wrapped ''decrypt secret'' er))) \<and>
    (\<forall>short. length short < NonceSize s \<longrightarrow> Decrypt s org short = Inl (Errorf ''invalid ciphertext''))"
proof -
  obtain nonce where n: "length nonce = NonceSize s" "ciphertext = nonce @ Seal s nonce plaintext org"
    using assms(2) by (auto simp: Encrypt_def run_rand_Read split: fate.splits)
  then have "Open s nonce (Seal s nonce plaintext org) org = Inr plaintext"
    and "\<And>b. b \<noteq> org \<Longrightarrow> \<exists>er. Open s nonce (Seal s nonce plaintext org) b = Inl er"
    using assms(1) by (auto simp: aead_ok_def)
  then show ?thesis using n by (fastforce simp: Decrypt_def)
qed

text \<open>For the example: a cipher that frames the additional data in front of the message.\<close>

fun frame :: "bytes \<Rightarrow> bytes" where
  "frame [] = [CHR 0x00]"
| "frame (c # cs) = CHR 0x01 # c # frame cs"

definition framing :: aead where
  "framing = \<lparr>NonceSize = 2, Seal = \<lambda>n p a. frame a @ p,
     Open = \<lambda>n c b. if HasPrefix c (frame b) then Inr (drop (length (frame b)) c)
       else Inl (Errorf ''message authentication failed'')\<rparr>"

lemma frame_prefix: "HasPrefix (frame a @ p) (frame b) \<longleftrightarrow> a = b"
proof (induction a arbitrary: b)
  case Nil
  then show ?case by (cases b) (simp_all add: HasPrefix_def)
next
  case (Cons c cs)
  then show ?case by (cases b) (auto simp: HasPrefix_def)
qed

theorem secret_round_trip_witness:
  "\<exists>ciphertext. fst (run_state (Encrypt calm framing ''org-a'' ''secret'') idle) = Inr ciphertext \<and>
     Decrypt framing ''org-a'' ciphertext = Inr ''secret''"
proof -
  have "aead_ok framing" by (auto simp: aead_ok_def framing_def frame_prefix)
  moreover have "\<exists>c. fst (run_state (Encrypt calm framing ''org-a'' ''secret'') idle) = Inr c"
    by (simp add: Encrypt_def run_rand_Read)
  ultimately show ?thesis using secret_round_trip by blast
qed

text \<open>A stored hash with zero rounds makes the verification panic.\<close>

lemma zero_rounds_panic: "VerifyPassword calm ''$argon2id$v=19$m=65536,t=0,p=1$$'' password = None"
proof -
  have parts: "strings_Split (CHR ''$'') ''$argon2id$v=19$m=65536,t=0,p=1$$'' = [[], ''argon2id'', ''v=19'', ''m=65536,t=0,p=1'', [], []]"
    by code_simp
  have params: "scan_params ''m=65536,t=0,p=1'' = Some (65536, 0, 1)"
    by (simp add: scan_params_def scan_literal_def scan_uint_def runes_def rune_list_ascii is_space_rune_def)
  have "b64_decode False [] = Some []" by code_simp
  then show ?thesis using params by (simp add: VerifyPassword_def parts)
qed

end
