(* ===== verification/Accounts.thy ===== *)
theory Accounts
  imports Security Worker
begin

text \<open>
  Accounts and sessions (\<open>database/store.go\<close>): login, authentication of a session token, logout,
  password change, the audit log, the health check and the demo bootstrap. A statement of the
  store is a function on the tables, run by \<open>db_exec\<close> after whatever other requests did before it;
  the password change and the bootstrap are transactions. A panic of the key derivation is \<open>None\<close>.
\<close>

record Principal =
  pr_UserID :: string
  pr_OrganizationID :: string
  pr_Email :: string
  pr_DisplayName :: string
  pr_Roles :: "string list"


section \<open>Statements\<close>

definition login_rows :: "env \<Rightarrow> string \<Rightarrow> tables \<Rightarrow> user_row list" where
  "login_rows e email t =
     filter (\<lambda>u. pg_lower e (u_email u) = pg_lower e email \<and> u_active u) (users t)"

definition role_names :: "string \<Rightarrow> string \<Rightarrow> tables \<Rightarrow> string list" where
  "role_names userID orgID t =
     [r_name r. ur \<leftarrow> user_roles t, r \<leftarrow> roles t,
        r_id r = ur_role_id ur \<and> ur_user_id ur = userID \<and> ur_organization_id ur = orgID]"

text \<open>\<open>INSERT INTO sessions\<close>: \<open>token_hash\<close> is unique, the organization and the user exist.\<close>

definition insert_session ::
    "string \<Rightarrow> string \<Rightarrow> bytes \<Rightarrow> bytes \<Rightarrow> instant \<Rightarrow> tables \<Rightarrow> tables \<times> unit result" where
  "insert_session org user tokenHash csrfHash expires t =
     (if org \<notin> set (map o_id (organizations t)) \<or> user \<notin> set (map u_id (users t))
      then (t, Inl (External ''violates foreign key constraint''))
      else if tokenHash \<in> set (map se_token_hash (sessions t))
      then (t, Inl (External ''duplicate key value violates unique constraint''))
      else (t\<lparr>sessions := sessions t @
              [\<lparr>se_organization_id = org, se_user_id = user, se_token_hash = tokenHash,
                se_csrf_hash = csrfHash, se_expires_at = expires, se_revoked_at = None\<rparr>]\<rparr>, Inr ()))"

definition auth_rows :: "bytes \<Rightarrow> instant \<Rightarrow> tables \<Rightarrow> (session_row \<times> user_row) list" where
  "auth_rows digest now t =
     [(se, u). se \<leftarrow> sessions t, u \<leftarrow> users t,
        u_id u = se_user_id se \<and> u_organization_id u = se_organization_id se \<and> se_token_hash se = digest \<and>
        se_revoked_at se = None \<and> se_expires_at se > now \<and> u_active u]"

definition revoke_session :: "bytes \<Rightarrow> instant \<Rightarrow> tables \<Rightarrow> tables" where
  "revoke_session digest now t =
     t\<lparr>sessions := update_where (\<lambda>se. se_token_hash se = digest \<and> se_revoked_at se = None)
         (\<lambda>se. se\<lparr>se_revoked_at := Some now\<rparr>) (sessions t)\<rparr>"

text \<open>
  The two updates of the password change. An \<open>UPDATE\<close> changes the rows its condition finds when it is
  executed; inside a transaction the others see the change at the commit, and rows that appear in between
  are not touched. So an update is a choice of rows, by their unique key, and the writes on these rows.
\<close>

definition own_user :: "Principal \<Rightarrow> user_row \<Rightarrow> bool" where
  "own_user p u = (u_id u = pr_UserID p \<and> u_organization_id u = pr_OrganizationID p)"

definition own_session :: "Principal \<Rightarrow> session_row \<Rightarrow> bool" where
  "own_session p se = (se_user_id se = pr_UserID p \<and> se_organization_id se = pr_OrganizationID p)"

definition found_users :: "Principal \<Rightarrow> tables \<Rightarrow> string list" where
  "found_users p t = map u_id (filter (own_user p) (users t))"

definition found_sessions :: "Principal \<Rightarrow> tables \<Rightarrow> bytes list" where
  "found_sessions p t = map se_token_hash (filter (own_session p) (sessions t))"

definition set_password :: "Principal \<Rightarrow> string list \<Rightarrow> string \<Rightarrow> instant \<Rightarrow> tables \<Rightarrow> tables" where
  "set_password p found hash now t =
     t\<lparr>users := update_where (\<lambda>u. own_user p u \<and> u_id u \<in> set found)
         (\<lambda>u. u\<lparr>u_password_hash := hash, u_password_changed_at := now, u_updated_at := now\<rparr>) (users t)\<rparr>"

definition revoke_all :: "Principal \<Rightarrow> bytes list \<Rightarrow> instant \<Rightarrow> tables \<Rightarrow> tables" where
  "revoke_all p found now t =
     t\<lparr>sessions := update_where (\<lambda>se. own_session p se \<and> se_token_hash se \<in> set found)
         (\<lambda>se. se\<lparr>se_revoked_at := Some now\<rparr>) (sessions t)\<rparr>"

definition insert_audit ::
    "env \<Rightarrow> string \<Rightarrow> Principal \<Rightarrow> string \<Rightarrow> string \<Rightarrow> string option \<Rightarrow> string \<Rightarrow> string option \<Rightarrow> instant \<Rightarrow>
     tables \<Rightarrow> tables \<times> unit result" where
  "insert_audit e new_id p event resourceType resourceID metadata ip now t =
     (if \<not> pg_jsonb e metadata then (t, Inl (External ''invalid input syntax for type json''))
      else if pr_OrganizationID p \<notin> set (map o_id (organizations t)) \<or> pr_UserID p \<notin> set (map u_id (users t))
      then (t, Inl (External ''violates foreign key constraint''))
      else (t\<lparr>audit_events := audit_events t @
              [\<lparr>ae_id = new_id, ae_organization_id = pr_OrganizationID p, ae_actor_user_id = pr_UserID p,
                ae_event_type = event, ae_resource_type = resourceType, ae_resource_id = resourceID,
                ae_metadata = metadata, ae_timestamp = now, ae_ip_address = ip\<rparr>]\<rparr>, Inr ()))"


section \<open>Sessions\<close>

definition randomToken :: "env \<Rightarrow> (string \<times> bytes) result program" where
  "randomToken e = do {
     raw \<leftarrow> rand_Read e 32;
     State_Monad.return (case raw of
         Inl er \<Rightarrow> Inl er
       | Inr bs \<Rightarrow> let token = hex_EncodeToString bs in Inr (token, sha256 e token))
   }"

definition store_roles :: "env \<Rightarrow> string \<Rightarrow> string \<Rightarrow> string list result program" where
  "store_roles e userID orgID = db_exec e None (\<lambda>_ t. (t, Inr (role_names userID orgID t)))"

definition principal_of :: "user_row \<Rightarrow> string list \<Rightarrow> Principal" where
  "principal_of u held =
     \<lparr>pr_UserID = u_id u, pr_OrganizationID = u_organization_id u, pr_Email = u_email u,
      pr_DisplayName = u_display_name u, pr_Roles = held\<rparr>"

text \<open>The part of \<open>Login\<close> after the password check.\<close>

definition open_session :: "env \<Rightarrow> user_row \<Rightarrow> duration \<Rightarrow> (Principal \<times> string \<times> string) result program" where
  "open_session e u ttl = do {
     rs \<leftarrow> store_roles e (u_id u) (u_organization_id u);
     case rs of
       Inl er \<Rightarrow> State_Monad.return (Inl er)
     | Inr held \<Rightarrow> do {
         t1 \<leftarrow> randomToken e;
         case t1 of
           Inl er \<Rightarrow> State_Monad.return (Inl er)
         | Inr (token, tokenHash) \<Rightarrow> do {
             t2 \<leftarrow> randomToken e;
             case t2 of
               Inl er \<Rightarrow> State_Monad.return (Inl er)
             | Inr (csrf, csrfHash) \<Rightarrow> do {
                 now \<leftarrow> clock_Now e;
                 r \<leftarrow> db_exec e None (\<lambda>_. insert_session (u_organization_id u) (u_id u) tokenHash csrfHash
                        (pg_time e (now + ttl)));
                 State_Monad.return (case r of
                     Inl er \<Rightarrow> Inl er
                   | Inr _ \<Rightarrow> Inr (principal_of u held, token, csrf))
               }
           }
       }
   }"

definition Login ::
    "env \<Rightarrow> string \<Rightarrow> string \<Rightarrow> duration \<Rightarrow> (Principal \<times> string \<times> string) result option program" where
  "Login e email password ttl = do {
     found \<leftarrow> db_exec e None (\<lambda>_ t.
       (t, if pg_text email then query_row (login_rows e email t)
           else Inl (External ''invalid byte sequence for encoding'')));
     case found of
       Inl _ \<Rightarrow> State_Monad.return (Some (Inl (Errorf ''invalid credentials'')))
     | Inr u \<Rightarrow>
         (case VerifyPassword e (u_password_hash u) password of
            None \<Rightarrow> State_Monad.return None
          | Some False \<Rightarrow> State_Monad.return (Some (Inl (Errorf ''invalid credentials'')))
          | Some True \<Rightarrow> do {
              r \<leftarrow> open_session e u ttl;
              State_Monad.return (Some r)
            })
   }"

definition Authenticate :: "env \<Rightarrow> string \<Rightarrow> (Principal \<times> bytes) result program" where
  "Authenticate e token = do {
     found \<leftarrow> db_exec e None (\<lambda>now t. (t, query_row (auth_rows (sha256 e token) now t)));
     case found of
       Inl er \<Rightarrow> State_Monad.return (Inl er)
     | Inr (se, u) \<Rightarrow> do {
         rs \<leftarrow> store_roles e (u_id u) (u_organization_id u);
         State_Monad.return (case rs of
             Inl er \<Rightarrow> Inl er
           | Inr held \<Rightarrow> Inr (principal_of u held, se_csrf_hash se))
       }
   }"

definition Revoke :: "env \<Rightarrow> string \<Rightarrow> unit result program" where
  "Revoke e token = db_exec e None (\<lambda>now t. (revoke_session (sha256 e token) now t, Inr ()))"


section \<open>Password change, audit and health\<close>

text \<open>
  The transaction of \<open>ChangePassword\<close>; \<open>now()\<close> is the start of the transaction. Under \<open>READ COMMITTED\<close> the
  others act before each of its statements and before the commit.
\<close>

definition password_tx :: "env \<Rightarrow> Principal \<Rightarrow> string \<Rightarrow> unit result program" where
  "password_tx e p hash = do {
     now \<leftarrow> clock_Now e;
     begun \<leftarrow> call e;
     case begun of
       Some er \<Rightarrow> State_Monad.return (Inl er)
     | None \<Rightarrow> do {
         interleave e None;
         before_users \<leftarrow> State_Monad.get;
         updated \<leftarrow> call e;
         case updated of
           Some er \<Rightarrow> State_Monad.return (Inl er)
         | None \<Rightarrow> do {
             interleave e None;
             before_sessions \<leftarrow> State_Monad.get;
             revoked \<leftarrow> call e;
             case revoked of
               Some er \<Rightarrow> State_Monad.return (Inl er)
             | None \<Rightarrow> do {
                 interleave e None;
                 committed \<leftarrow> tx_commit e (\<lambda>t.
                   revoke_all p (found_sessions p (w_db before_sessions)) now
                     (set_password p (found_users p (w_db before_users)) hash now t));
                 State_Monad.return (case committed of Some er \<Rightarrow> Inl er | None \<Rightarrow> Inr ())
               }
           }
       }
   }"

definition ChangePassword :: "env \<Rightarrow> Principal \<Rightarrow> string \<Rightarrow> string \<Rightarrow> unit result option program" where
  "ChangePassword e p current new = do {
     found \<leftarrow> db_exec e None (\<lambda>_ t. (t, query_row
       (filter (\<lambda>u. u_id u = pr_UserID p \<and> u_organization_id u = pr_OrganizationID p) (users t))));
     case found of
       Inl er \<Rightarrow> State_Monad.return (Some (Inl er))
     | Inr u \<Rightarrow>
         (case VerifyPassword e (u_password_hash u) current of
            None \<Rightarrow> State_Monad.return None
          | Some False \<Rightarrow> State_Monad.return (Some (Inl (Errorf ''current password is invalid'')))
          | Some True \<Rightarrow> do {
              hashed \<leftarrow> HashPassword e new;
              case hashed of
                None \<Rightarrow> State_Monad.return None
              | Some (Inl er) \<Rightarrow> State_Monad.return (Some (Inl er))
              | Some (Inr hash) \<Rightarrow> do {
                  r \<leftarrow> password_tx e p hash;
                  State_Monad.return (Some r)
                }
            })
   }"

definition Audit ::
    "env \<Rightarrow> Principal \<Rightarrow> string \<Rightarrow> string \<Rightarrow> string \<Rightarrow> string \<Rightarrow> string option \<Rightarrow> unit result program" where
  "Audit e p event resourceType resourceID metadata ip = do {
     let rid = (if resourceID \<noteq> [] then uuid_Parse e resourceID else None);
     new_id \<leftarrow> uuid_NewString e;
     db_exec e None (insert_audit e new_id p event resourceType rid metadata ip)
   }"

definition Health :: "env \<Rightarrow> go_error option program" where
  "Health e = call e"


section \<open>The demo organization\<close>

text \<open>An insert under a primary key; the server refuses a key that is taken.\<close>

definition insert_row :: "('r \<Rightarrow> string) \<Rightarrow> 'r \<Rightarrow> 'r list \<Rightarrow> 'r list option" where
  "insert_row key r rows = (if key r \<in> set (map key rows) then None else Some (rows @ [r]))"

definition upsert_org :: "string \<Rightarrow> tables \<Rightarrow> (tables \<times> string) option" where
  "upsert_org new_id t =
     (case row_with o_slug ''restoreguard-demo'' (organizations t) of
        Some org \<Rightarrow> Some (t\<lparr>organizations := update_where (\<lambda>r. o_slug r = ''restoreguard-demo'')
            (\<lambda>r. r\<lparr>o_name := ''RestoreGuard Demo''\<rparr>) (organizations t)\<rparr>, o_id org)
      | None \<Rightarrow> map_option (\<lambda>rows. (t\<lparr>organizations := rows\<rparr>, new_id))
          (insert_row o_id \<lparr>o_id = new_id, o_name = ''RestoreGuard Demo'', o_slug = ''restoreguard-demo''\<rparr> (organizations t)))"

text \<open>\<open>ON CONFLICT(organization_id,email) DO UPDATE SET email=EXCLUDED.email\<close> leaves the row as it is,
  the password hash too.\<close>

definition upsert_user :: "string \<Rightarrow> string \<Rightarrow> string \<Rightarrow> string \<Rightarrow> instant \<Rightarrow> tables \<Rightarrow> (tables \<times> string) option" where
  "upsert_user org email hash new_id now t =
     (case find (\<lambda>u. u_organization_id u = org \<and> u_email u = email) (users t) of
        Some u \<Rightarrow> Some (t, u_id u)
      | None \<Rightarrow> map_option (\<lambda>rows. (t\<lparr>users := rows\<rparr>, new_id))
          (insert_row u_id \<lparr>u_id = new_id, u_organization_id = org, u_email = email, u_password_hash = hash,
             u_display_name = ''Demo Owner'', u_active = True, u_password_changed_at = now, u_updated_at = now\<rparr> (users t)))"

definition grant_owner :: "string \<Rightarrow> string \<Rightarrow> tables \<Rightarrow> tables" where
  "grant_owner org user t =
     t\<lparr>user_roles := user_roles t @
         filter (\<lambda>ur. ur \<notin> set (user_roles t))
           (map (\<lambda>r. \<lparr>ur_organization_id = org, ur_user_id = user, ur_role_id = r_id r\<rparr>)
             (filter (\<lambda>r. r_name r = ''OWNER'') (roles t)))\<rparr>"

definition upsert_asset :: "string \<Rightarrow> string \<Rightarrow> instant \<Rightarrow> tables \<Rightarrow> (tables \<times> string) option" where
  "upsert_asset org new_id now t =
     (let same = (\<lambda>a. a_organization_id a = org \<and> a_name a = ''Demo PostgreSQL ERP'') in
      case find same (protected_assets t) of
        Some a \<Rightarrow> Some (t\<lparr>protected_assets := update_where same (\<lambda>a. a\<lparr>a_updated_at := now\<rparr>) (protected_assets t)\<rparr>, a_id a)
      | None \<Rightarrow> map_option (\<lambda>rows. (t\<lparr>protected_assets := rows\<rparr>, new_id))
          (insert_row a_id \<lparr>a_id = new_id, a_organization_id = org, a_name = ''Demo PostgreSQL ERP'',
             a_type = ''POSTGRESQL_DATABASE'', a_environment = ''DEMO'', a_criticality = ''CRITICAL'',
             a_owner_name = Some ''Demo Team'', a_team = Some ''Platform'',
             a_description = ''Synthetic asset used only for safe recovery drills'', a_enabled = True,
             a_created_at = now, a_updated_at = now\<rparr> (protected_assets t)))"

definition upsert_source :: "string \<Rightarrow> string \<Rightarrow> instant \<Rightarrow> tables \<Rightarrow> (tables \<times> string) option" where
  "upsert_source org new_id now t =
     (let same = (\<lambda>b. bs_organization_id b = org \<and> bs_name b = ''Demo PostgreSQL Dumps'') in
      case find same (backup_sources t) of
        Some b \<Rightarrow> Some (t\<lparr>backup_sources := update_where same (\<lambda>b. b\<lparr>bs_updated_at := now\<rparr>) (backup_sources t)\<rparr>, bs_id b)
      | None \<Rightarrow> map_option (\<lambda>rows. (t\<lparr>backup_sources := rows\<rparr>, new_id))
          (insert_row bs_id \<lparr>bs_id = new_id, bs_organization_id = org, bs_name = ''Demo PostgreSQL Dumps'',
             bs_type = ''POSTGRES_DUMP'', bs_environment = ''DEMO'', bs_description = ''Synthetic local dump source'',
             bs_enabled = True, bs_last_discovery_at = None, bs_last_discovery_status = None,
             bs_created_at = now, bs_updated_at = now\<rparr> (backup_sources t)))"

definition link_source :: "string \<Rightarrow> string \<Rightarrow> string \<Rightarrow> tables \<Rightarrow> tables" where
  "link_source org asset source t =
     (if list_ex (\<lambda>l. ab_protected_asset_id l = asset \<and> ab_backup_source_id l = source) (asset_backup_sources t) then t
      else t\<lparr>asset_backup_sources := asset_backup_sources t @
             [\<lparr>ab_organization_id = org, ab_protected_asset_id = asset, ab_backup_source_id = source\<rparr>]\<rparr>)"

definition demo_policy :: "string \<Rightarrow> string \<Rightarrow> string \<Rightarrow> instant \<Rightarrow> tables \<Rightarrow> tables option" where
  "demo_policy org asset new_id now t =
     (if list_ex (\<lambda>p. p_organization_id p = org \<and> p_name p = ''Demo ERP Weekly Recovery'') (recovery_policies t) then Some t
      else map_option (\<lambda>rows. t\<lparr>recovery_policies := rows\<rparr>)
        (insert_row p_id \<lparr>p_id = new_id, p_organization_id = org, p_name = ''Demo ERP Weekly Recovery'',
           p_protected_asset_id = asset, p_rpo_target_seconds = 86400, p_rto_target_seconds = 1800,
           p_schedule = ''WEEKLY'',
           p_required_validations = JArr [JStr ''POSTGRES_CONNECTIVITY'', JStr ''POSTGRES_TABLE_EXISTS'', JStr ''POSTGRES_ROW_COUNT''],
           p_enabled = True, p_created_at = now\<rparr> (recovery_policies t)))"

text \<open>The seven statements in their order; \<open>ids\<close> are the identifiers the server generates.\<close>

definition demo_writes :: "(nat \<Rightarrow> string) \<Rightarrow> string \<Rightarrow> string \<Rightarrow> instant \<Rightarrow> tables \<Rightarrow> tables option" where
  "demo_writes ids email hash now t = do {
     (t1, orgID) \<leftarrow> upsert_org (ids 0) t;
     (t2, userID) \<leftarrow> upsert_user orgID email hash (ids 1) now t1;
     let t3 = grant_owner orgID userID t2;
     (t4, assetID) \<leftarrow> upsert_asset orgID (ids 2) now t3;
     (t5, sourceID) \<leftarrow> upsert_source orgID (ids 3) now t4;
     demo_policy orgID assetID (ids 4) now (link_source orgID assetID sourceID t5)
   }"

fun tx_statements :: "env \<Rightarrow> nat \<Rightarrow> go_error option program" where
  "tx_statements e 0 = State_Monad.return None"
| "tx_statements e (Suc k) = do {
     r \<leftarrow> call e;
     case r of Some er \<Rightarrow> State_Monad.return (Some er) | None \<Rightarrow> tx_statements e k
   }"

text \<open>The transaction of \<open>BootstrapDemo\<close>: \<open>users.email\<close> is a \<open>varchar(254)\<close>.\<close>

definition bootstrap_tx :: "env \<Rightarrow> string \<Rightarrow> string \<Rightarrow> go_error option program" where
  "bootstrap_tx e email hash = do {
     now \<leftarrow> clock_Now e;
     begun \<leftarrow> call e;
     case begun of
       Some er \<Rightarrow> State_Monad.return (Some er)
     | None \<Rightarrow> do {
         interleave e None;
         executed \<leftarrow> tx_statements e 7;
         w \<leftarrow> State_Monad.get;
         case executed of
           Some er \<Rightarrow> State_Monad.return (Some er)
         | None \<Rightarrow>
             if \<not> pg_text email \<or> length (runes email) > 254
             then State_Monad.return (Some (External ''value too long for type character varying(254)''))
             else case demo_writes (\<lambda>k. uuid_at e (w_step w + k)) email hash now (w_db w) of
                 None \<Rightarrow> State_Monad.return (Some (External ''duplicate key value violates unique constraint''))
               | Some t \<Rightarrow> tx_commit e (\<lambda>_. t)
       }
   }"

definition BootstrapDemo :: "env \<Rightarrow> string \<Rightarrow> string \<Rightarrow> go_error option option program" where
  "BootstrapDemo e email password =
     (if email = [] \<or> password = [] then State_Monad.return (Some None)
      else do {
        hashed \<leftarrow> HashPassword e password;
        case hashed of
          None \<Rightarrow> State_Monad.return None
        | Some (Inl er) \<Rightarrow> State_Monad.return (Some (Some (Wrapped ''bootstrap password'' er)))
        | Some (Inr hash) \<Rightarrow> do {
            r \<leftarrow> bootstrap_tx e email hash;
            State_Monad.return (Some r)
          }
      })"

end
