(* ===== verification/Account_Rules.thy ===== *)
theory Account_Rules
  imports Accounts
begin

text \<open>
  Rules for the store's operations. \<open>db_seen\<close> is the database a
  statement works on, after the operations of other requests up to then. The locale
  \<open>account_invariant\<close> is the contract between the statements of \<open>store.go\<close> and a predicate of the
  database: when every statement and the other requests keep it, every operation does.
\<close>

section \<open>Statements under interference\<close>

definition others_keep :: "env \<Rightarrow> (tables \<Rightarrow> bool) \<Rightarrow> bool" where
  "others_keep e J =
     (\<forall>n now op t. op \<in> set (others_at e n) \<longrightarrow> J t \<longrightarrow> J (apply_other now op t))"

definition db_seen :: "env \<Rightarrow> world \<Rightarrow> tables" where
  "db_seen e w = w_db (snd (run_state (interleave e None) w))"

lemma calm_others_keep: "others_keep calm J"
  by (simp add: others_keep_def)

lemma step_do_other [simp]: "w_step (do_other e now op w) = w_step w"
  by (simp add: do_other_def split: other.splits)

lemma step_others: "w_step (fold (do_other e now) ops w) = w_step w"
  by (induction ops arbitrary: w) simp_all

lemma step_interleave [simp]: "w_step (snd (run_state (interleave e mine) w)) = w_step w"
  by (simp add: interleave_def step_others)

lemma others_keep_fold:
  assumes "others_keep e J" and "J (w_db w)" and "set ops \<subseteq> set (others_at e n)"
  shows "J (w_db (fold (do_other e now) ops w))"
  using assms(2,3)
proof (induction ops arbitrary: w)
  case (Cons op ops)
  then have "J (w_db (do_other e now op w))"
    using assms(1) unfolding others_keep_def do_other_db by auto
  with Cons show ?case by simp
qed simp

lemma keeps_interleave_env [keeps_intros]: "others_keep e J \<Longrightarrow> keeps (on_db J) (interleave e mine)"
  unfolding interleave_def
  by (rule keeps_upd) (auto simp: on_db_def intro: others_keep_fold)

lemma db_seen_keeps: "others_keep e J \<Longrightarrow> J (w_db w) \<Longrightarrow> J (db_seen e w)"
  using keeps_run [OF keeps_interleave_env, of e J w None] by (simp add: on_db_def db_seen_def)

lemma run_db_exec:
  "run_state (db_exec e None f) w =
     (let w1 = snd (run_state (interleave e None) w);
          (t, r) = f (clock_at e (w_step w)) (db_seen e w)
      in case fate_at e (w_step w) of
           Performed \<Rightarrow> (r, w1\<lparr>w_step := Suc (w_step w), w_db := t\<rparr>)
         | Refused er \<Rightarrow> (Inl er, w1\<lparr>w_step := Suc (w_step w)\<rparr>)
         | Lost er \<Rightarrow> (Inl er, w1\<lparr>w_step := Suc (w_step w), w_db := t\<rparr>))"
  unfolding db_exec_def
  by (subst run_state_bind, subst run_interleave)
    (simp add: db_seen_def Let_def split: fate.splits prod.splits)

text \<open>A query leaves the database as it saw it; a statement that answers was performed.\<close>

lemma query_db:
  assumes "run_state (db_exec e None (\<lambda>now t. (t, q now t))) w = (r, w')"
  shows "w_db w' = db_seen e w" and "w_step w' = Suc (w_step w)"
    and "r = Inr x \<Longrightarrow> q (clock_at e (w_step w)) (db_seen e w) = Inr x"
  using assms by (auto simp: run_db_exec db_seen_def Let_def split: fate.splits)

lemma exec_db:
  assumes "run_state (db_exec e None f) w = (Inr x, w')"
  shows "f (clock_at e (w_step w)) (db_seen e w) = (w_db w', Inr x)" and "w_step w' = Suc (w_step w)"
  using assms by (auto simp: run_db_exec Let_def split: fate.splits prod.splits)

lemma keeps_db_exec_env:
  assumes "others_keep e J" and "\<And>now t. J t \<Longrightarrow> J (fst (f now t))"
  shows "keeps (on_db J) (db_exec e None f)"
  unfolding keeps_def
proof (rule hoareI)
  fix w r w'
  assume "on_db J w" and r: "run_state (db_exec e None f) w = (r, w')"
  then have "J (db_seen e w)" using assms(1) by (auto simp: on_db_def intro: db_seen_keeps)
  then show "on_db J w'"
    using assms(2) [of "db_seen e w" "clock_at e (w_step w)"] r
    by (auto simp: run_db_exec on_db_def Let_def db_seen_def split: fate.splits prod.splits)
qed

lemma keeps_query_env [keeps_intros]:
  "others_keep e J \<Longrightarrow> keeps (on_db J) (db_exec e None (\<lambda>now t. (t, q now t)))"
  by (rule keeps_db_exec_env) simp_all

lemma keeps_rand_db [keeps_intros]: "keeps (on_db J) (rand_Read e len)"
  by (rule keeps_rand_Read) (simp add: on_db_def)

lemma keeps_tx_commit: "(\<And>t. J t \<Longrightarrow> J (f t)) \<Longrightarrow> keeps (on_db J) (tx_commit e f)"
  by (auto simp: keeps_def hoare_def tx_commit_def on_db_def split: fate.splits)

lemma keeps_Hash [keeps_intros]: "keeps (on_db J) (HashPassword e pw)"
  unfolding HashPassword_def by (intro keeps_intros)

lemma keeps_token [keeps_intros]: "keeps (on_db J) (randomToken e)"
  unfolding randomToken_def by (intro keeps_intros)

lemma keeps_statements [keeps_intros]: "keeps (on_db J) (tx_statements e k)"
  by (induction k) (auto intro!: keeps_intros)

lemma keeps_case_bool [keeps_intros]:
  "(b \<Longrightarrow> keeps I m) \<Longrightarrow> (\<not> b \<Longrightarrow> keeps I m') \<Longrightarrow> keeps I (case b of True \<Rightarrow> m | False \<Rightarrow> m')"
  by (cases b) auto


text \<open>The requests on accounts, and a sequence of them.\<close>

datatype account_request =
    ReqLogin string string duration
  | ReqAuthenticate string
  | ReqRevoke string
  | ReqChangePassword Principal string string
  | ReqAudit Principal string string string string "string option"
  | ReqBootstrap string string

fun perform :: "env \<Rightarrow> account_request \<Rightarrow> unit program" where
  "perform e (ReqLogin email password ttl) = do { _ \<leftarrow> Login e email password ttl; State_Monad.return () }"
| "perform e (ReqAuthenticate token) = do { _ \<leftarrow> Authenticate e token; State_Monad.return () }"
| "perform e (ReqRevoke token) = do { _ \<leftarrow> Revoke e token; State_Monad.return () }"
| "perform e (ReqChangePassword p current new) = do { _ \<leftarrow> ChangePassword e p current new; State_Monad.return () }"
| "perform e (ReqAudit p event ty rid metadata ip) = do { _ \<leftarrow> Audit e p event ty rid metadata ip; State_Monad.return () }"
| "perform e (ReqBootstrap email password) = do { _ \<leftarrow> BootstrapDemo e email password; State_Monad.return () }"

fun perform_all :: "env \<Rightarrow> account_request list \<Rightarrow> unit program" where
  "perform_all e [] = State_Monad.return ()"
| "perform_all e (req # reqs) = do { perform e req; perform_all e reqs }"

text \<open>A program that reads the state continues in that state.\<close>

lemma keeps_get_bind:
  "(\<And>w. hoare (\<lambda>s. I s \<and> s = w) (f w) (\<lambda>_. I)) \<Longrightarrow> keeps I (State_Monad.get \<bind> f)"
  by (simp add: keeps_def hoare_def State_Monad.get_def)

lemma hoare_commit_const: "J t \<Longrightarrow> hoare (\<lambda>s. on_db J s \<and> s = w) (tx_commit e (\<lambda>_. t)) (\<lambda>_. on_db J)"
  by (auto simp: hoare_def tx_commit_def on_db_def split: fate.splits)


text \<open>What a successful authentication has seen.\<close>

lemma Authenticate_session:
  assumes "run_state (Authenticate e token) w = (Inr (p, csrf), w')"
  shows "\<exists>se u. se \<in> set (sessions (db_seen e w)) \<and> u \<in> set (users (db_seen e w)) \<and>
    se_token_hash se = sha256 e token \<and> se_revoked_at se = None \<and>
    clock_at e (w_step w) < se_expires_at se \<and> u_active u \<and>
    u_id u = se_user_id se \<and> u_organization_id u = se_organization_id se \<and> csrf = se_csrf_hash se \<and>
    p = principal_of u (role_names (u_id u) (u_organization_id u) (w_db w'))"
proof -
  obtain r1 w1 where first: "run_state (db_exec e None (\<lambda>now t. (t, query_row (auth_rows (sha256 e token) now t)))) w = (r1, w1)"
    by fastforce
  obtain se u where r1: "r1 = Inr (se, u)"
    using assms first by (cases r1) (auto simp: Authenticate_def)
  then have "query_row (auth_rows (sha256 e token) (clock_at e (w_step w)) (db_seen e w)) = Inr (se, u)"
    using query_db(3) [OF first] by blast
  then have row: "(se, u) \<in> set (auth_rows (sha256 e token) (clock_at e (w_step w)) (db_seen e w))"
    by (rule query_row_Inr)
  obtain r2 w2 where second: "run_state (store_roles e (u_id u) (u_organization_id u)) w1 = (r2, w2)" by fastforce
  then obtain held where r2: "r2 = Inr held" and p: "p = principal_of u held" "csrf = se_csrf_hash se" "w' = w2"
    using assms first r1 by (cases r2) (auto simp: Authenticate_def)
  have "held = role_names (u_id u) (u_organization_id u) (w_db w')"
    using query_db(1,3) [OF second [unfolded store_roles_def]] r2 p(3) by auto
  then have "p = principal_of u (role_names (u_id u) (u_organization_id u) (w_db w'))" using p by simp
  with row p(2) show ?thesis
    unfolding auth_rows_def by (intro exI [of _ se] exI [of _ u]) auto
qed


section \<open>The contract of the account operations\<close>

locale account_invariant =
  fixes e :: env and J :: "tables \<Rightarrow> bool"
  assumes others: "others_keep e J"
    and session: "J t \<Longrightarrow> J (fst (insert_session org user th ch ex t))"
    and revoke: "J t \<Longrightarrow> J (revoke_session digest now t)"
    and password: "J t \<Longrightarrow> J (revoke_all p ss now (set_password p us hash now t))"
    and audit: "J t \<Longrightarrow> J (fst (insert_audit e new_id p ev ty rid md ip now t))"
    and demo: "J t \<Longrightarrow> demo_writes ids email hash now t = Some t' \<Longrightarrow> J t'"
begin

lemma keeps_roles [keeps_intros]: "keeps (on_db J) (store_roles e userID orgID)"
  unfolding store_roles_def by (intro keeps_intros others)

lemma keeps_Login: "keeps (on_db J) (Login e email password ttl)"
  unfolding Login_def open_session_def
  by (intro keeps_intros others keeps_db_exec_env session)

lemma keeps_Authenticate: "keeps (on_db J) (Authenticate e token)"
  unfolding Authenticate_def by (intro keeps_intros others)

lemma keeps_Revoke: "keeps (on_db J) (Revoke e token)"
  unfolding Revoke_def by (rule keeps_db_exec_env [OF others]) (simp add: revoke)

lemma keeps_ChangePassword: "keeps (on_db J) (ChangePassword e p current new)"
  unfolding ChangePassword_def password_tx_def
  by (intro keeps_intros others keeps_tx_commit password)

lemma keeps_bootstrap_tx: "keeps (on_db J) (bootstrap_tx e email hash)"
proof -
  have last_step: "hoare (\<lambda>s. on_db J s \<and> s = w)
      (case executed of
         Some er \<Rightarrow> State_Monad.return (Some er)
       | None \<Rightarrow>
           if \<not> pg_text email \<or> length (runes email) > 254
           then State_Monad.return (Some (External ''value too long for type character varying(254)''))
           else case demo_writes (\<lambda>k. uuid_at e (w_step w + k)) email hash now (w_db w) of
               None \<Rightarrow> State_Monad.return (Some (External ''duplicate key value violates unique constraint''))
             | Some t \<Rightarrow> tx_commit e (\<lambda>_. t)) (\<lambda>_. on_db J)" for executed now w
  proof (cases "on_db J w")
    case True
    then have "J t" if "demo_writes (\<lambda>k. uuid_at e (w_step w + k)) email hash now (w_db w) = Some t" for t
      using demo that by (auto simp: on_db_def)
    then show ?thesis
      by (auto intro!: hoare_return hoare_commit_const split: option.split)
  qed (auto simp: hoare_def)
  show ?thesis
    unfolding bootstrap_tx_def by (intro keeps_intros others keeps_get_bind last_step)
qed

lemma keeps_Bootstrap: "keeps (on_db J) (BootstrapDemo e email password)"
  unfolding BootstrapDemo_def by (intro keeps_intros keeps_bootstrap_tx)

lemma keeps_Audit: "keeps (on_db J) (Audit e p ev ty rid md ip)"
  unfolding Audit_def Let_def by (intro keeps_intros keeps_db_exec_env others audit)

lemma keeps_perform: "keeps (on_db J) (perform e req)"
  by (cases req) (auto intro!: keeps_bind keeps_return keeps_Login keeps_Authenticate keeps_Revoke
      keeps_ChangePassword keeps_Audit keeps_Bootstrap)

lemma keeps_perform_all: "keeps (on_db J) (perform_all e reqs)"
  by (induction reqs) (auto intro!: keeps_bind keeps_return keeps_perform)

end


section \<open>Account operations leave drills alone\<close>

definition same_drills :: "tables \<Rightarrow> tables \<Rightarrow> bool" where
  "same_drills t t' =
     (recovery_drills t' = recovery_drills t \<and> backup_snapshots t' = backup_snapshots t \<and>
      set (recovery_policies t) \<subseteq> set (recovery_policies t'))"

lemma same_drills_evolve: "same_drills t t' \<Longrightarrow> tables_evolve t t'"
  by (simp add: same_drills_def tables_evolve_def drill_by_id_def)

lemma account_statements [simp]:
  "same_drills t (fst (insert_session org user th ch ex t))"
  "same_drills t (revoke_session digest now t)"
  "same_drills t (revoke_all p ss now (set_password p us hash now t))"
  "same_drills t (fst (insert_audit e new_id p ev ty rid md ip now t))"
  by (simp_all add: same_drills_def insert_session_def revoke_session_def revoke_all_def set_password_def insert_audit_def)

lemma demo_statements:
  "upsert_org i t = Some (t1, x) \<Longrightarrow> same_drills t t1 \<and> sessions t1 = sessions t"
  "upsert_user org em h i now t = Some (t1, x) \<Longrightarrow> same_drills t t1 \<and> sessions t1 = sessions t"
  "upsert_asset org i now t = Some (t1, x) \<Longrightarrow> same_drills t t1 \<and> sessions t1 = sessions t"
  "upsert_source org i now t = Some (t1, x) \<Longrightarrow> same_drills t t1 \<and> sessions t1 = sessions t"
  "demo_policy org a i now t = Some t1 \<Longrightarrow> same_drills t t1 \<and> sessions t1 = sessions t"
  "same_drills t (grant_owner org user t) \<and> sessions (grant_owner org user t) = sessions t"
  "same_drills t (link_source org a b t) \<and> sessions (link_source org a b t) = sessions t"
  by (auto simp: same_drills_def upsert_org_def upsert_user_def upsert_asset_def upsert_source_def demo_policy_def
      grant_owner_def link_source_def insert_row_def Let_def split: option.splits if_splits)

lemma same_drills_trans: "same_drills t t' \<Longrightarrow> same_drills t' t'' \<Longrightarrow> same_drills t t''"
  by (auto simp: same_drills_def)

lemma demo_writes_frame:
  assumes "demo_writes ids email hash now t = Some t'"
  shows "same_drills t t' \<and> sessions t' = sessions t"
proof -
  obtain t1 org t2 user t4 asset t5 src where
    w: "upsert_org (ids 0) t = Some (t1, org)" "upsert_user org email hash (ids 1) now t1 = Some (t2, user)"
      "upsert_asset org (ids 2) now (grant_owner org user t2) = Some (t4, asset)"
      "upsert_source org (ids 3) now t4 = Some (t5, src)"
      "demo_policy org asset (ids 4) now (link_source org asset src t5) = Some t'"
    using assms by (auto simp: demo_writes_def Let_def split: option.splits bind_splits)
  show ?thesis
    using demo_statements(1) [OF w(1)] demo_statements(2) [OF w(2)] demo_statements(6) [of t2 org user]
      demo_statements(3) [OF w(3)] demo_statements(4) [OF w(4)] demo_statements(7) [of t5 org asset src]
      demo_statements(5) [OF w(5)] same_drills_trans by metis
qed

interpretation accounts_evolve: account_invariant e "tables_evolve t0" for e t0
proof unfold_locales
  show "others_keep e (tables_evolve t0)"
    unfolding others_keep_def using apply_other_evolves tables_evolve_trans by blast
qed (auto elim!: tables_evolve_trans intro: same_drills_evolve dest: demo_writes_frame)


section \<open>Revoked sessions\<close>

definition token_dead :: "bytes \<Rightarrow> tables \<Rightarrow> bool" where
  "token_dead digest t =
     (digest \<in> set (map se_token_hash (sessions t)) \<and>
      (\<forall>se \<in> set (sessions t). se_token_hash se = digest \<longrightarrow> se_revoked_at se \<noteq> None))"

lemma token_dead_auth: "token_dead digest t \<Longrightarrow> auth_rows digest now t = []"
  by (auto simp: token_dead_def auth_rows_def)

lemma token_dead_update:
  assumes "token_dead digest t" and "sessions t' = update_where p (\<lambda>se. se\<lparr>se_revoked_at := Some now\<rparr>) (sessions t)"
  shows "token_dead digest t'"
proof -
  have "map se_token_hash (sessions t') = map se_token_hash (sessions t)"
    unfolding assms(2) by (rule map_update_where) simp
  then have "digest \<in> set (map se_token_hash (sessions t'))"
    using assms(1) by (simp only: token_dead_def)
  moreover have "\<forall>se \<in> set (sessions t'). se_token_hash se = digest \<longrightarrow> se_revoked_at se \<noteq> None"
    using assms by (auto simp: token_dead_def update_where_def)
  ultimately show ?thesis by (simp add: token_dead_def)
qed

lemma token_dead_insert: "token_dead digest t \<Longrightarrow> token_dead digest (fst (insert_session org user th ch ex t))"
  by (auto simp: token_dead_def insert_session_def)

lemma token_dead_frame: "token_dead digest t \<Longrightarrow> sessions t' = sessions t \<Longrightarrow> token_dead digest t'"
  by (simp add: token_dead_def)

lemma token_dead_statements:
  "token_dead digest t \<Longrightarrow> token_dead digest (revoke_session digest' now t)"
  "token_dead digest t \<Longrightarrow> token_dead digest (revoke_all p ss now (set_password p us hash now t))"
  "token_dead digest t \<Longrightarrow> token_dead digest (fst (insert_audit e i p ev ty rid md ip now t))"
  by (rule token_dead_update, assumption, simp add: revoke_session_def)
    (rule token_dead_update, assumption, simp add: revoke_all_def set_password_def,
     rule token_dead_frame, assumption, simp add: insert_audit_def)

lemma in_update_where:
  assumes "x \<in> set (update_where p f rows)"
  obtains r where "r \<in> set rows" "p r" "x = f r" | "x \<in> set rows" "\<not> p x"
  using assms by (auto simp: update_where_def split: if_splits)

lemma revoke_kills:
  assumes "digest \<in> set (map se_token_hash (sessions t))"
  shows "token_dead digest (revoke_session digest now t)"
proof -
  have "map se_token_hash (sessions (revoke_session digest now t)) = map se_token_hash (sessions t)"
    unfolding revoke_session_def by (simp add: map_update_where)
  then have "digest \<in> set (map se_token_hash (sessions (revoke_session digest now t)))"
    using assms by (simp only:)
  moreover have "\<forall>se \<in> set (sessions (revoke_session digest now t)). se_token_hash se = digest \<longrightarrow> se_revoked_at se \<noteq> None"
  proof (intro ballI impI)
    fix se
    assume "se \<in> set (sessions (revoke_session digest now t))" and hash: "se_token_hash se = digest"
    then have "se \<in> set (update_where (\<lambda>se. se_token_hash se = digest \<and> se_revoked_at se = None)
        (\<lambda>se. se\<lparr>se_revoked_at := Some now\<rparr>) (sessions t))" by (simp add: revoke_session_def)
    then show "se_revoked_at se \<noteq> None"
      by (rule in_update_where) (use hash in simp_all)
  qed
  ultimately show ?thesis by (simp add: token_dead_def)
qed

interpretation dead_tokens: account_invariant e
    "\<lambda>t. others_keep e (token_dead digest) \<longrightarrow> token_dead digest t" for e digest
proof unfold_locales
  fix t p now hash digest' and i ev ty rid md ip and t' ids email
  let ?J = "\<lambda>t. others_keep e (token_dead digest) \<longrightarrow> token_dead digest t"
  show "others_keep e ?J" by (auto simp: others_keep_def)
  show "?J t'" if "?J t" "demo_writes ids email hash now t = Some t'"
    using that(1) token_dead_frame [of digest t t'] demo_writes_frame [OF that(2)] by simp
qed (simp_all add: token_dead_insert token_dead_statements)

end
