(* ===== verification/Account_Properties.thy ===== *)
theory Account_Properties
  imports Account_Rules
begin

text \<open>
  What the account operations promise: authentication accepts live sessions only, logout and
  password change end sessions for good, and a login's token authenticates as its principal.
  The examples are one account in the calm environment.
\<close>

section \<open>Properties\<close>

text \<open>
  C13. Authentication is sound under any interference: a token is accepted only when, at the moment
  of the lookup, the database holds a session with the digest of this token that is neither revoked
  nor expired by the server's clock, of an active user of the session's organization; the
  principal is that user, its roles are those granted in that organization, and the CSRF digest
  is that session's.
\<close>

theorem authenticate_sound:
  assumes "run_state (Authenticate e token) w = (Inr (p, csrf), w')"
  shows "\<exists>se u. se \<in> set (sessions (db_seen e w)) \<and> u \<in> set (users (db_seen e w)) \<and>
    se_token_hash se = sha256 e token \<and> se_revoked_at se = None \<and>
    clock_at e (w_step w) < se_expires_at se \<and> u_active u \<and>
    u_id u = se_user_id se \<and> u_organization_id u = se_organization_id se \<and> csrf = se_csrf_hash se \<and>
    p = principal_of u (role_names (u_id u) (u_organization_id u) (w_db w'))"
  using assms by (rule Authenticate_session)

text \<open>
  C29. Logout is final: once \<open>Revoke\<close> has answered for a token that has a session, no sequence of
  logins, authentications, logouts, password changes, audits and bootstraps makes the token
  valid again, as long as the requests running besides keep it revoked.
\<close>

theorem logout_is_final:
  assumes "others_keep e (token_dead (sha256 e token))"
    and "sha256 e token \<in> set (map se_token_hash (sessions (db_seen e w)))"
    and "run_state (Revoke e token) w = (Inr (), w1)"
  shows "\<exists>er. fst (run_state (Authenticate e token) (snd (run_state (perform_all e reqs) w1))) = Inl er"
proof -
  have "token_dead (sha256 e token) (w_db w1)"
    using exec_db(1) [OF assms(3) [unfolded Revoke_def]] revoke_kills [OF assms(2)] by (metis prod.inject)
  then have "on_db (\<lambda>t. others_keep e (token_dead (sha256 e token)) \<longrightarrow> token_dead (sha256 e token) t) w1"
    by (simp add: on_db_def)
  from keeps_run [OF dead_tokens.keeps_perform_all this, of reqs]
  have "token_dead (sha256 e token) (db_seen e (snd (run_state (perform_all e reqs) w1)))"
    using assms(1) by (simp add: on_db_def db_seen_keeps)
  then show ?thesis
    by (auto simp: Authenticate_def run_db_exec token_dead_auth query_row_def Let_def split: fate.splits)
qed

text \<open>An account for examples: one organization whose owner has a given password hash.\<close>

definition account_tables :: "string \<Rightarrow> tables" where
  "account_tables encoded = no_rows\<lparr>
     organizations := [\<lparr>o_id = ''o1'', o_name = ''Demo'', o_slug = ''demo''\<rparr>],
     users := [\<lparr>u_id = ''u1'', u_organization_id = ''o1'', u_email = ''a@b'', u_password_hash = encoded,
       u_display_name = ''A'', u_active = True, u_password_changed_at = 0, u_updated_at = 0\<rparr>],
     sessions := [\<lparr>se_organization_id = ''o1'', se_user_id = ''u1'', se_token_hash = ''t'', se_csrf_hash = ''c'',
       se_expires_at = 2000000 * time_Second, se_revoked_at = None\<rparr>],
     roles := [\<lparr>r_id = ''r1'', r_name = ''OWNER''\<rparr>],
     user_roles := [\<lparr>ur_organization_id = ''o1'', ur_user_id = ''u1'', ur_role_id = ''r1''\<rparr>]\<rparr>"

definition account_world :: "string \<Rightarrow> world" where
  "account_world encoded = idle\<lparr>w_db := account_tables encoded\<rparr>"

lemma account_example [simp]:
  "db_seen calm (account_world h) = account_tables h"
  "w_db (account_world h) = account_tables h" "w_step (account_world h) = 0"
  by (simp_all add: db_seen_def calm_interleave account_world_def)

lemma example_authenticates:
  "fst (run_state (Authenticate calm ''token'') (account_world h)) =
     Inr (\<lparr>pr_UserID = ''u1'', pr_OrganizationID = ''o1'', pr_Email = ''a@b'', pr_DisplayName = ''A'',
           pr_Roles = [''OWNER'']\<rparr>, ''c'')"
  by (simp add: Authenticate_def calm_exec store_roles_def auth_rows_def account_tables_def role_names_def
      query_row_def principal_of_def)

theorem authenticate_sound_witness:
  "\<exists>se. se \<in> set (sessions (account_tables [])) \<and> se_token_hash se = ''t'' \<and> se_revoked_at se = None"
proof -
  obtain w' where "run_state (Authenticate calm ''token'') (account_world []) =
      (Inr (\<lparr>pr_UserID = ''u1'', pr_OrganizationID = ''o1'', pr_Email = ''a@b'', pr_DisplayName = ''A'',
           pr_Roles = [''OWNER'']\<rparr>, ''c''), w')"
    using example_authenticates [of "[]"] by (metis prod.collapse)
  from authenticate_sound [OF this] show ?thesis by auto
qed

theorem logout_is_final_witness:
  "\<exists>er. fst (run_state (Authenticate calm ''token'') (snd (run_state (perform_all calm
      [ReqAuthenticate ''token'', ReqRevoke ''token'', ReqBootstrap ''a@b'' ''correct-horse''])
      (snd (run_state (Revoke calm ''token'') (account_world [])))))) = Inl er"
proof -
  obtain w1 where w1: "run_state (Revoke calm ''token'') (account_world []) = (Inr (), w1)"
    by (simp add: Revoke_def calm_exec)
  have "sha256 calm ''token'' \<in> set (map se_token_hash (sessions (db_seen calm (account_world []))))"
    by (simp add: account_tables_def)
  from logout_is_final [OF calm_others_keep this w1] w1 show ?thesis by (simp del: perform_all.simps)
qed

lemma hash_verifies:
  assumes "argon2_ok e" and "run_state (HashPassword e pw) w = (Some (Inr h), w')"
  shows "12 \<le> length pw \<and> length pw \<le> 256 \<and> VerifyPassword e h pw = Some True"
proof -
  obtain salt hash where h: "argon2_IDKey e pw salt 3 65536 2 32 = Some hash" "12 \<le> length pw" "length pw \<le> 256"
    "h = ''$argon2id$v=19$m='' @ format_int 65536 @ '',t='' @ format_int 3 @ '',p='' @ format_int 2 @ ''$'' @
       b64_encode False salt @ ''$'' @ b64_encode False hash"
    using assms(2) by (auto simp: HashPassword_def run_rand_Read split: if_splits fate.splits)
  moreover from this have "length hash = 32"
    using assms(1) unfolding argon2_ok_def by (metis option.inject one_le_numeral)
  ultimately show ?thesis using verify_encoded [of e pw salt hash pw] by simp
qed

text \<open>What the others have done to the tables before the \<open>k\<close>-th call.\<close>

definition others_done :: "env \<Rightarrow> nat \<Rightarrow> tables \<Rightarrow> tables" where
  "others_done e k t = fold (apply_other (clock_at e k)) (filter (other_allowed None) (others_at e k)) t"

lemma db_others: "w_db (fold (do_other e now) ops w) = fold (apply_other now) ops (w_db w)"
  by (induction ops arbitrary: w) (simp_all add: do_other_db)

lemma db_seen_others: "db_seen e w = others_done e (w_step w) (w_db w)"
  by (simp add: db_seen_def interleave_def others_done_def db_others)

lemma interleaved:
  obtains w1 where "run_state (interleave e None) w = ((), w1)" "w_step w1 = w_step w"
    "w_db w1 = others_done e (w_step w) (w_db w)"
  using that [of "snd (run_state (interleave e None) w)"] db_seen_others [of e w] run_interleave [of e None w]
  by (simp add: db_seen_def)

text \<open>The transaction of a successful password change: each update finds its rows in the tables of its moment,
  and the writes reach the tables of the commit.\<close>

lemma password_tx_db:
  assumes "run_state (password_tx e p hash) w = (Inr (), w')"
  defines "at_users \<equiv> others_done e (w_step w + 2) (w_db w)"
  defines "at_sessions \<equiv> others_done e (w_step w + 3) at_users"
  shows "w_db w' = revoke_all p (found_sessions p at_sessions) (clock_at e (w_step w))
      (set_password p (found_users p at_users) hash (clock_at e (w_step w)) (others_done e (w_step w + 4) at_sessions))"
proof -
  let ?n = "w_step w"
  obtain w1 where w1: "run_state (interleave e None) (w\<lparr>w_step := Suc (Suc ?n)\<rparr>) = ((), w1)" "w_step w1 = Suc (Suc ?n)"
    "w_db w1 = at_users"
    by (rule interleaved [of e "w\<lparr>w_step := Suc (Suc ?n)\<rparr>"]) (simp add: at_users_def)
  obtain w2 where w2: "run_state (interleave e None) (w1\<lparr>w_step := Suc (Suc (Suc ?n))\<rparr>) = ((), w2)" "w_step w2 = Suc (Suc (Suc ?n))"
    "w_db w2 = at_sessions"
    by (rule interleaved [of e "w1\<lparr>w_step := Suc (Suc (Suc ?n))\<rparr>"]) (simp add: at_sessions_def w1(3) numeral_eq_Suc)
  obtain w3 where w3: "run_state (interleave e None) (w2\<lparr>w_step := Suc (Suc (Suc (Suc ?n)))\<rparr>) = ((), w3)"
    "w_db w3 = others_done e (w_step w + 4) at_sessions"
    by (rule interleaved [of e "w2\<lparr>w_step := Suc (Suc (Suc (Suc ?n)))\<rparr>"]) (simp add: w2(3) numeral_eq_Suc)
  show ?thesis
    using assms(1) w1 w2 w3
    by (auto simp: password_tx_def run_call State_Monad.get_def tx_commit_def clock_Now_def
        split: if_splits fate.splits option.splits)
qed

lemma run_Hash_step: "run_state (HashPassword e pw) w = (Some (Inr h), w') \<Longrightarrow> w_step w' = Suc (w_step w) \<and> w_db w' = w_db w"
  by (auto simp: HashPassword_def run_rand_Read split: if_splits fate.splits option.splits)


lemma calm_encoded: "\<exists>encoded. VerifyPassword calm encoded ''correct-horse'' = Some True"
  using verify_encoded [of calm "''correct-horse''" salt "take 32 (''correct-horse'' @ replicate 32 (CHR 0x00))" "''correct-horse''" for salt]
  by auto

definition example_principal :: Principal where
  "example_principal = \<lparr>pr_UserID = ''u1'', pr_OrganizationID = ''o1'', pr_Email = ''a@b'', pr_DisplayName = ''A'',
     pr_Roles = [''OWNER'']\<rparr>"

lemma example_change:
  assumes "VerifyPassword calm encoded ''correct-horse'' = Some True"
  obtains w' where "run_state (ChangePassword calm example_principal ''correct-horse'' ''another-horse'') (account_world encoded) = (Some (Inr ()), w')"
    "sessions (w_db w') \<noteq> []"
  using assms
  by (simp add: ChangePassword_def calm_exec query_row_def account_tables_def example_principal_def HashPassword_def
      run_rand_Read password_tx_def clock_Now_def calm_call calm_interleave calm_commit revoke_all_def set_password_def
      update_where_def State_Monad.get_def)


text \<open>A login with the old password that inserts its session between the update of the sessions and the commit
  keeps a live session.\<close>

definition late_session :: session_row where
  "late_session = \<lparr>se_organization_id = ''o1'', se_user_id = ''u1'', se_token_hash = ''n'', se_csrf_hash = ''c'',
     se_expires_at = 2000000 * time_Second, se_revoked_at = None\<rparr>"

definition late_login :: env where
  "late_login = calm\<lparr>others_at := \<lambda>k. if k = 6 then [OtherRows (\<lambda>t. t\<lparr>sessions := sessions t @ [late_session]\<rparr>)] else []\<rparr>"

lemma late_login_fields:
  "fate_at late_login n = Performed" "clock_at late_login n = clock_at calm n" "rand_at late_login n = rand_at calm n"
  "argon2_IDKey late_login = argon2_IDKey calm"
  "others_at late_login n = (if n = 6 then [OtherRows (\<lambda>t. t\<lparr>sessions := sessions t @ [late_session]\<rparr>)] else [])"
  by (simp_all add: late_login_def)

lemma late_login_survives:
  assumes "VerifyPassword calm encoded ''correct-horse'' = Some True"
  obtains w' where "run_state (ChangePassword late_login example_principal ''correct-horse'' ''another-horse'') (account_world encoded) = (Some (Inr ()), w')"
    "late_session \<in> set (sessions (w_db w'))"
proof -
  have "VerifyPassword late_login = VerifyPassword calm"
    by (intro ext) (simp only: VerifyPassword_def late_login_fields(4))
  then show ?thesis
    using assms that
    by (simp add: ChangePassword_def db_exec_def interleave_def late_login_fields query_row_def account_world_def
        account_tables_def example_principal_def HashPassword_def run_rand_Read password_tx_def clock_Now_def run_call
        tx_commit_def State_Monad.get_def do_other_def other_allowed_def apply_other_def other_rows_def revoke_all_def
        set_password_def update_where_def own_session_def found_sessions_def late_session_def image_def)
qed


section \<open>Undisturbed requests\<close>

text \<open>No other request in between and no failing call.\<close>

definition quiet :: "env \<Rightarrow> bool" where
  "quiet e = (\<forall>n. others_at e n = [] \<and> fate_at e n = Performed)"

lemma quiet_interleave: "quiet e \<Longrightarrow> run_state (interleave e m) w = ((), w)"
  by (simp add: quiet_def interleave_def)

lemma quiet_exec:
  "quiet e \<Longrightarrow> run_state (db_exec e m f) w =
     (snd (f (clock_at e (w_step w)) (w_db w)),
      w\<lparr>w_step := Suc (w_step w), w_db := fst (f (clock_at e (w_step w)) (w_db w))\<rparr>)"
  by (simp add: db_exec_def quiet_interleave) (simp add: quiet_def split: prod.splits)

lemma quiet_rand: "quiet e \<Longrightarrow> run_state (rand_Read e len) w =
    (Inr (fill len (rand_at e (w_step w))), w\<lparr>w_step := Suc (w_step w)\<rparr>)"
  by (simp add: run_rand_Read quiet_def)

lemma quiet_calm: "quiet calm"
  by (simp add: quiet_def)

lemma query_row_unique:
  assumes "x \<in> set xs" and "\<And>y. y \<in> set xs \<Longrightarrow> y = x"
  shows "query_row xs = Inr x"
proof (cases xs)
  case (Cons y ys)
  then have "y = x" by (intro assms(2)) simp
  with Cons show ?thesis by (simp add: query_row_def)
qed (use assms(1) in simp)

text \<open>What an undisturbed login does.\<close>

lemma quiet_randomToken:
  "quiet e \<Longrightarrow> run_state (randomToken e) w =
     (let token = hex_EncodeToString (fill 32 (rand_at e (w_step w))) in
      (Inr (token, sha256 e token), w\<lparr>w_step := Suc (w_step w)\<rparr>))"
  by (simp add: randomToken_def quiet_rand Let_def)

lemma plus_Sucs:
  "n + 3 = Suc (Suc (Suc n))" "n + 4 = Suc (Suc (Suc (Suc n)))" "n + 5 = Suc (Suc (Suc (Suc (Suc n))))"
  "n + 6 = Suc (Suc (Suc (Suc (Suc (Suc n)))))"
  by simp_all

lemma quiet_open_session:
  assumes "quiet e" and "run_state (open_session e u ttl) w = (Inr (p, token, csrf), w1)"
  shows "p = principal_of u (role_names (u_id u) (u_organization_id u) (w_db w))"
    and "insert_session (u_organization_id u) (u_id u) (sha256 e token) (sha256 e csrf)
       (pg_time e (clock_at e (w_step w + 3) + ttl)) (w_db w) = (w_db w1, Inr ())"
    and "w_step w1 = w_step w + 5"
proof -
  let ?token = "hex_EncodeToString (fill 32 (rand_at e (Suc (w_step w))))"
  let ?csrf = "hex_EncodeToString (fill 32 (rand_at e (Suc (Suc (w_step w)))))"
  obtain t r where t: "insert_session (u_organization_id u) (u_id u) (sha256 e ?token) (sha256 e ?csrf)
       (pg_time e (clock_at e (w_step w + 3) + ttl)) (w_db w) = (t, r)" by fastforce
  have "run_state (open_session e u ttl) w =
      (case r of Inl er \<Rightarrow> Inl er | Inr _ \<Rightarrow> Inr (principal_of u (role_names (u_id u) (u_organization_id u) (w_db w)), ?token, ?csrf),
       w\<lparr>w_step := w_step w + 5, w_db := t\<rparr>)"
    using t by (simp add: open_session_def store_roles_def quiet_exec [OF assms(1)] quiet_randomToken [OF assms(1)]
        clock_Now_def Let_def plus_Sucs)
  then have "p = principal_of u (role_names (u_id u) (u_organization_id u) (w_db w)) \<and> token = ?token \<and> csrf = ?csrf \<and>
      r = Inr () \<and> w_db w1 = t \<and> w_step w1 = w_step w + 5"
    using assms(2) by (auto split: sum.splits)
  with t show "p = principal_of u (role_names (u_id u) (u_organization_id u) (w_db w))"
    and "insert_session (u_organization_id u) (u_id u) (sha256 e token) (sha256 e csrf)
       (pg_time e (clock_at e (w_step w + 3) + ttl)) (w_db w) = (w_db w1, Inr ())"
    and "w_step w1 = w_step w + 5" by simp_all
qed

lemma quiet_Login:
  assumes "quiet e" and "run_state (Login e email password ttl) w = (Some (Inr (p, token, csrf)), w1)"
  obtains u where "u \<in> set (login_rows e email (w_db w))" "VerifyPassword e (u_password_hash u) password = Some True"
    "p = principal_of u (role_names (u_id u) (u_organization_id u) (w_db w))"
    "insert_session (u_organization_id u) (u_id u) (sha256 e token) (sha256 e csrf)
       (pg_time e (clock_at e (w_step w + 4) + ttl)) (w_db w) = (w_db w1, Inr ())"
    "w_step w1 = w_step w + 6"
proof -
  let ?w = "w\<lparr>w_step := Suc (w_step w)\<rparr>"
  obtain u where u: "query_row (login_rows e email (w_db w)) = Inr u" "VerifyPassword e (u_password_hash u) password = Some True"
    "run_state (open_session e u ttl) ?w = (Inr (p, token, csrf), w1)"
    using assms(2)
    by (auto simp: Login_def quiet_exec [OF assms(1)] split: if_splits sum.splits option.splits bool.splits prod.splits)
  show ?thesis
    using that [OF query_row_Inr [OF u(1)] u(2)] quiet_open_session [OF assms(1) u(3)]
    by (simp add: plus_Sucs)
qed

text \<open>
  C30. Login and authentication fit together: an undisturbed login hands out a token only for the
  password of an active user with that e-mail address, and until the session expires the token
  authenticates as exactly the principal of the login, with the digest of the CSRF token handed
  out beside it.
\<close>

theorem login_then_authenticate:
  assumes "quiet e" and "distinct (map u_id (users (w_db w)))"
    and "run_state (Login e email password ttl) w = (Some (Inr (p, token, csrf)), w1)"
    and "clock_at e (w_step w1) < pg_time e (clock_at e (w_step w + 4) + ttl)"
  shows "(\<exists>u \<in> set (users (w_db w)). u_id u = pr_UserID p \<and> u_active u \<and> pg_lower e (u_email u) = pg_lower e email \<and>
      VerifyPassword e (u_password_hash u) password = Some True) \<and>
    fst (run_state (Authenticate e token) w1) = Inr (p, sha256 e csrf)"
proof -
  obtain u where u: "u \<in> set (login_rows e email (w_db w))" "VerifyPassword e (u_password_hash u) password = Some True"
    "p = principal_of u (role_names (u_id u) (u_organization_id u) (w_db w))"
    "insert_session (u_organization_id u) (u_id u) (sha256 e token) (sha256 e csrf)
       (pg_time e (clock_at e (w_step w + 4) + ttl)) (w_db w) = (w_db w1, Inr ())"
    using quiet_Login [OF assms(1,3)] by blast
  have active: "u \<in> set (users (w_db w))" "u_active u" "pg_lower e (u_email u) = pg_lower e email"
    using u(1) by (auto simp: login_rows_def)
  let ?se = "\<lparr>se_organization_id = u_organization_id u, se_user_id = u_id u, se_token_hash = sha256 e token,
     se_csrf_hash = sha256 e csrf, se_expires_at = pg_time e (clock_at e (w_step w + 4) + ttl), se_revoked_at = None\<rparr>"
  have fresh: "sha256 e token \<notin> set (map se_token_hash (sessions (w_db w)))"
    and w1: "w_db w1 = w_db w\<lparr>sessions := sessions (w_db w) @ [?se]\<rparr>"
    using u(4) by (auto simp: insert_session_def split: if_splits)
  have same: "v = u" if "v \<in> set (users (w_db w))" "u_id v = u_id u" for v
    using that active(1) assms(2) by (meson distinct_map inj_onD)
  have "query_row (auth_rows (sha256 e token) (clock_at e (w_step w1)) (w_db w1)) = Inr (?se, u)"
  proof (rule query_row_unique)
    show "(?se, u) \<in> set (auth_rows (sha256 e token) (clock_at e (w_step w1)) (w_db w1))"
      using active assms(4) by (simp add: auth_rows_def w1)
    show "y = (?se, u)" if "y \<in> set (auth_rows (sha256 e token) (clock_at e (w_step w1)) (w_db w1))" for y
    proof -
      have "se_token_hash se \<noteq> sha256 e token" if "se \<in> set (sessions (w_db w))" for se
        using that fresh by (metis image_eqI list.set_map)
      then show ?thesis using that same by (auto simp: auth_rows_def w1)
    qed
  qed
  then have "fst (run_state (Authenticate e token) w1) = Inr (p, sha256 e csrf)"
    using u(3) by (simp add: Authenticate_def store_roles_def quiet_exec [OF assms(1)] w1 role_names_def)
  moreover have "pr_UserID p = u_id u" by (simp add: u(3) principal_of_def)
  ultimately show ?thesis using active u(2) by auto
qed

lemma example_login:
  assumes "VerifyPassword calm encoded ''correct-horse'' = Some True"
  obtains p token csrf w1 where
    "run_state (Login calm ''a@b'' ''correct-horse'' (43200 * time_Second)) ((account_world encoded)\<lparr>w_db := (account_tables encoded)\<lparr>sessions := []\<rparr>\<rparr>)
       = (Some (Inr (p, token, csrf)), w1)" "w_step w1 = 6"
proof -
  have "valid_utf8 (map of_char ''a@b'')" by (rule valid_utf8_ascii) simp
  then have "pg_text ''a@b''" by (simp add: pg_text_def)
  then show ?thesis
    using that assms
    by (simp add: Login_def calm_exec login_rows_def query_row_def account_tables_def open_session_def store_roles_def
        quiet_randomToken [OF quiet_calm] clock_Now_def insert_session_def Let_def)
qed

theorem login_then_authenticate_witness:
  "\<exists>encoded p token csrf w1.
     run_state (Login calm ''a@b'' ''correct-horse'' (43200 * time_Second)) ((account_world encoded)\<lparr>w_db := (account_tables encoded)\<lparr>sessions := []\<rparr>\<rparr>)
       = (Some (Inr (p, token, csrf)), w1) \<and>
     fst (run_state (Authenticate calm token) w1) = Inr (p, sha256 calm csrf)"
proof -
  obtain encoded where "VerifyPassword calm encoded ''correct-horse'' = Some True" using calm_encoded by blast
  then obtain p token csrf w1 where run: "run_state (Login calm ''a@b'' ''correct-horse'' (43200 * time_Second))
      ((account_world encoded)\<lparr>w_db := (account_tables encoded)\<lparr>sessions := []\<rparr>\<rparr>) = (Some (Inr (p, token, csrf)), w1)" "w_step w1 = 6"
    by (rule example_login)
  have "fst (run_state (Authenticate calm token) w1) = Inr (p, sha256 calm csrf)"
    by (rule conjunct2 [OF login_then_authenticate [OF quiet_calm _ run(1)]])
      (simp_all add: account_tables_def run(2))
  with run(1) show ?thesis by blast
qed

end
