(* ===== verification/Bootstrap.thy ===== *)
theory Bootstrap
  imports Account_Properties
begin

text \<open>
  The demo bootstrap (\<open>Store.BootstrapDemo\<close>): its seven statements leave behind the rows that a
  second run looks for, so it is idempotent.
\<close>

section \<open>What the statements leave behind\<close>

lemma insert_row_Some: "insert_row key r rows = Some rows' \<longleftrightarrow> key r \<notin> set (map key rows) \<and> rows' = rows @ [r]"
  by (auto simp: insert_row_def)

text \<open>What an upsert leaves behind is what the next one finds.\<close>

lemma find_append:
  "find p (xs @ ys) = (case find p xs of None \<Rightarrow> find p ys | Some x \<Rightarrow> Some x)"
  by (induction xs) auto

lemma find_update_where:
  "(\<And>r. p r \<Longrightarrow> p (f r)) \<Longrightarrow> find p (update_where p f rows) = map_option f (find p rows)"
  by (induction rows) (auto simp: update_where_def)

lemma org_found:
  "upsert_org i t = Some (t1, org) \<Longrightarrow> \<exists>r. row_with o_slug ''restoreguard-demo'' (organizations t1) = Some r \<and> o_id r = org"
  by (auto simp: upsert_org_def insert_row_Some row_with_append row_with_single row_with_def find_update_where find_append
      split: option.splits)

lemma user_found:
  "upsert_user org email h i now t = Some (t1, user) \<Longrightarrow>
   \<exists>u. find (\<lambda>u. u_organization_id u = org \<and> u_email u = email) (users t1) = Some u \<and> u_id u = user"
  by (auto simp: upsert_user_def insert_row_Some find_append split: option.splits)

lemma asset_found:
  "upsert_asset org i now t = Some (t1, asset) \<Longrightarrow>
   \<exists>a. find (\<lambda>a. a_organization_id a = org \<and> a_name a = ''Demo PostgreSQL ERP'') (protected_assets t1) = Some a \<and> a_id a = asset"
  by (auto simp: upsert_asset_def insert_row_Some find_append find_update_where Let_def split: option.splits)

lemma source_found:
  "upsert_source org i now t = Some (t1, src) \<Longrightarrow>
   \<exists>b. find (\<lambda>b. bs_organization_id b = org \<and> bs_name b = ''Demo PostgreSQL Dumps'') (backup_sources t1) = Some b \<and> bs_id b = src"
  by (auto simp: upsert_source_def insert_row_Some find_append find_update_where Let_def split: option.splits)

text \<open>Each statement writes one table.\<close>

lemma demo_one_table:
  "upsert_org i t = Some (t1, x) \<Longrightarrow> t1 = t\<lparr>organizations := organizations t1\<rparr>"
  "upsert_user org em h i now t = Some (t1, x) \<Longrightarrow> t1 = t\<lparr>users := users t1\<rparr>"
  "upsert_asset org i now t = Some (t1, x) \<Longrightarrow> t1 = t\<lparr>protected_assets := protected_assets t1\<rparr>"
  "upsert_source org i now t = Some (t1, x) \<Longrightarrow> t1 = t\<lparr>backup_sources := backup_sources t1\<rparr>"
  "demo_policy org a i now t = Some t1 \<Longrightarrow> t1 = t\<lparr>recovery_policies := recovery_policies t1\<rparr>"
  "link_source org a b t = t\<lparr>asset_backup_sources := asset_backup_sources (link_source org a b t)\<rparr>"
  by (auto simp: upsert_org_def upsert_user_def upsert_asset_def upsert_source_def demo_policy_def link_source_def
      insert_row_def Let_def split: option.splits if_splits)

lemma policy_found:
  "demo_policy org a i now t = Some t1 \<Longrightarrow>
   list_ex (\<lambda>p. p_organization_id p = org \<and> p_name p = ''Demo ERP Weekly Recovery'') (recovery_policies t1)"
  by (auto simp: demo_policy_def insert_row_Some split: if_splits)

lemma link_found:
  "list_ex (\<lambda>l. ab_protected_asset_id l = a \<and> ab_backup_source_id l = b) (asset_backup_sources (link_source org a b t))"
  by (auto simp: link_source_def)

text \<open>The tables after the seven statements hold everything the statements look for.\<close>

definition demo_present :: "string \<Rightarrow> tables \<Rightarrow> bool" where
  "demo_present email t =
     (\<exists>org user asset src.
        (\<exists>r. row_with o_slug ''restoreguard-demo'' (organizations t) = Some r \<and> o_id r = org) \<and>
        (\<exists>u. find (\<lambda>u. u_organization_id u = org \<and> u_email u = email) (users t) = Some u \<and> u_id u = user) \<and>
        (\<forall>r \<in> set (roles t). r_name r = ''OWNER'' \<longrightarrow>
           \<lparr>ur_organization_id = org, ur_user_id = user, ur_role_id = r_id r\<rparr> \<in> set (user_roles t)) \<and>
        (\<exists>a. find (\<lambda>a. a_organization_id a = org \<and> a_name a = ''Demo PostgreSQL ERP'') (protected_assets t) = Some a \<and> a_id a = asset) \<and>
        (\<exists>b. find (\<lambda>b. bs_organization_id b = org \<and> bs_name b = ''Demo PostgreSQL Dumps'') (backup_sources t) = Some b \<and> bs_id b = src) \<and>
        list_ex (\<lambda>l. ab_protected_asset_id l = asset \<and> ab_backup_source_id l = src) (asset_backup_sources t) \<and>
        list_ex (\<lambda>p. p_organization_id p = org \<and> p_name p = ''Demo ERP Weekly Recovery'') (recovery_policies t))"

lemma table_frames:
  "t1 = t\<lparr>organizations := x1\<rparr> \<Longrightarrow> users t1 = users t"
  "t1 = t\<lparr>users := x2\<rparr> \<Longrightarrow> organizations t1 = organizations t"
  "t1 = t\<lparr>protected_assets := x3\<rparr> \<Longrightarrow> organizations t1 = organizations t \<and> users t1 = users t \<and> roles t1 = roles t \<and>
     user_roles t1 = user_roles t"
  "t1 = t\<lparr>backup_sources := x4\<rparr> \<Longrightarrow> organizations t1 = organizations t \<and> users t1 = users t \<and> roles t1 = roles t \<and>
     user_roles t1 = user_roles t \<and> protected_assets t1 = protected_assets t"
  "t1 = t\<lparr>recovery_policies := x5\<rparr> \<Longrightarrow> organizations t1 = organizations t \<and> users t1 = users t \<and> roles t1 = roles t \<and>
     user_roles t1 = user_roles t \<and> protected_assets t1 = protected_assets t \<and> backup_sources t1 = backup_sources t \<and>
     asset_backup_sources t1 = asset_backup_sources t"
  "t1 = t\<lparr>asset_backup_sources := x6\<rparr> \<Longrightarrow> organizations t1 = organizations t \<and> users t1 = users t \<and> roles t1 = roles t \<and>
     user_roles t1 = user_roles t \<and> protected_assets t1 = protected_assets t \<and> backup_sources t1 = backup_sources t"
  by simp_all

lemma demo_writes_present:
  assumes "demo_writes ids email hash now t = Some t'"
  shows "demo_present email t' \<and> set (users t) \<subseteq> set (users t')"
proof -
  obtain t1 org t2 user t4 asset t5 src where
    w: "upsert_org (ids 0) t = Some (t1, org)" "upsert_user org email hash (ids 1) now t1 = Some (t2, user)"
      "upsert_asset org (ids 2) now (grant_owner org user t2) = Some (t4, asset)"
      "upsert_source org (ids 3) now t4 = Some (t5, src)"
      "demo_policy org asset (ids 4) now (link_source org asset src t5) = Some t'"
    using assms by (auto simp: demo_writes_def Let_def split: option.splits bind_splits)
  let ?t6 = "link_source org asset src t5"
  note one = demo_one_table(1) [OF w(1)] demo_one_table(2) [OF w(2)] demo_one_table(3) [OF w(3)]
    demo_one_table(4) [OF w(4)] demo_one_table(5) [OF w(5)] demo_one_table(6) [of org asset src t5]
  note frames = table_frames(1) [OF one(1)] table_frames(2) [OF one(2)] table_frames(3) [OF one(3)]
    table_frames(4) [OF one(4)] table_frames(5) [OF one(5)] table_frames(6) [OF one(6)]
  have "organizations t' = organizations t1" "users t' = users t2" "users t1 = users t" "roles t' = roles t2"
    "user_roles t' = user_roles (grant_owner org user t2)" "protected_assets t' = protected_assets t4"
    "backup_sources t' = backup_sources t5" "asset_backup_sources t' = asset_backup_sources ?t6"
    using frames by (simp_all add: grant_owner_def)
  moreover have "\<lparr>ur_organization_id = org, ur_user_id = user, ur_role_id = r_id r\<rparr> \<in> set (user_roles (grant_owner org user t2))"
    if "r \<in> set (roles t2)" "r_name r = ''OWNER''" for r
    using that by (auto simp: grant_owner_def)
  moreover have "set (users t1) \<subseteq> set (users t2)"
    using w(2) by (auto simp: upsert_user_def insert_row_Some split: option.splits)
  ultimately show ?thesis
    using org_found [OF w(1)] user_found [OF w(2)] asset_found [OF w(3)] source_found [OF w(4)]
      policy_found [OF w(5)] link_found [of asset src org t5]
    unfolding demo_present_def by (intro conjI exI [of _ org] exI [of _ user] exI [of _ asset] exI [of _ src]) simp_all
qed

lemma demo_writes_again:
  assumes "demo_present email t"
  shows "\<exists>t'. demo_writes ids email hash now t = Some t' \<and> users t' = users t \<and> user_roles t' = user_roles t \<and>
    asset_backup_sources t' = asset_backup_sources t \<and> recovery_policies t' = recovery_policies t \<and>
    map o_id (organizations t') = map o_id (organizations t) \<and>
    map a_id (protected_assets t') = map a_id (protected_assets t) \<and>
    map bs_id (backup_sources t') = map bs_id (backup_sources t)"
proof -
  obtain r u a b where f: "row_with o_slug ''restoreguard-demo'' (organizations t) = Some r"
      "find (\<lambda>v. u_organization_id v = o_id r \<and> u_email v = email) (users t) = Some u"
      "\<forall>ro \<in> set (roles t). r_name ro = ''OWNER'' \<longrightarrow>
         \<lparr>ur_organization_id = o_id r, ur_user_id = u_id u, ur_role_id = r_id ro\<rparr> \<in> set (user_roles t)"
      "find (\<lambda>v. a_organization_id v = o_id r \<and> a_name v = ''Demo PostgreSQL ERP'') (protected_assets t) = Some a"
      "find (\<lambda>v. bs_organization_id v = o_id r \<and> bs_name v = ''Demo PostgreSQL Dumps'') (backup_sources t) = Some b"
      "list_ex (\<lambda>l. ab_protected_asset_id l = a_id a \<and> ab_backup_source_id l = bs_id b) (asset_backup_sources t)"
      "list_ex (\<lambda>p. p_organization_id p = o_id r \<and> p_name p = ''Demo ERP Weekly Recovery'') (recovery_policies t)"
    using assms unfolding demo_present_def by blast
  have granted: "filter (\<lambda>ur. ur \<notin> set (user_roles t))
      (map (\<lambda>ro. \<lparr>ur_organization_id = o_id r, ur_user_id = u_id u, ur_role_id = r_id ro\<rparr>)
        (filter (\<lambda>ro. r_name ro = ''OWNER'') (roles t))) = []"
    using f(3) by (auto simp: filter_empty_conv)
  define t1 where "t1 = t\<lparr>organizations := update_where (\<lambda>r. o_slug r = ''restoreguard-demo'')
      (\<lambda>r. r\<lparr>o_name := ''RestoreGuard Demo''\<rparr>) (organizations t)\<rparr>"
  define t4 where "t4 = t1\<lparr>protected_assets := update_where (\<lambda>a. a_organization_id a = o_id r \<and> a_name a = ''Demo PostgreSQL ERP'')
      (\<lambda>a. a\<lparr>a_updated_at := now\<rparr>) (protected_assets t)\<rparr>"
  define t5 where "t5 = t4\<lparr>backup_sources := update_where (\<lambda>b. bs_organization_id b = o_id r \<and> bs_name b = ''Demo PostgreSQL Dumps'')
      (\<lambda>b. b\<lparr>bs_updated_at := now\<rparr>) (backup_sources t)\<rparr>"
  have "upsert_org (ids 0) t = Some (t1, o_id r)" by (simp add: upsert_org_def f t1_def)
  moreover have "upsert_user (o_id r) email hash (ids 1) now t1 = Some (t1, u_id u)"
    by (simp add: upsert_user_def f t1_def)
  moreover have "grant_owner (o_id r) (u_id u) t1 = t1"
    using granted by (simp add: grant_owner_def t1_def)
  moreover have "upsert_asset (o_id r) (ids 2) now t1 = Some (t4, a_id a)"
    by (simp add: upsert_asset_def Let_def t4_def) (simp add: f t1_def)
  moreover have "upsert_source (o_id r) (ids 3) now t4 = Some (t5, bs_id b)"
    by (simp add: upsert_source_def Let_def t5_def) (simp add: f t1_def t4_def)
  moreover have "link_source (o_id r) (a_id a) (bs_id b) t5 = t5"
    using f(6) by (simp add: link_source_def t5_def t4_def t1_def)
  moreover have "demo_policy (o_id r) (a_id a) (ids 4) now t5 = Some t5"
    using f(7) by (simp add: demo_policy_def t5_def t4_def t1_def)
  ultimately have "demo_writes ids email hash now t = Some t5"
    by (simp add: demo_writes_def Let_def)
  then show ?thesis
    by (intro exI [of _ t5]) (simp add: t5_def t4_def t1_def map_update_where)
qed

lemma quiet_call: "quiet e \<Longrightarrow> run_state (call e) w = (None, w\<lparr>w_step := Suc (w_step w)\<rparr>)"
  by (simp add: run_call quiet_def)

lemma quiet_statements: "quiet e \<Longrightarrow> run_state (tx_statements e k) w = (None, w\<lparr>w_step := w_step w + k\<rparr>)"
  by (induction k arbitrary: w) (simp_all add: quiet_call)

lemma quiet_Bootstrap:
  assumes "quiet e" and "email \<noteq> []" and "password \<noteq> []" and "run_state (BootstrapDemo e email password) w = (Some None, w1)"
  shows "\<exists>ids hash now. demo_writes ids email hash now (w_db w) = Some (w_db w1)"
proof -
  obtain hash w2 where h: "run_state (HashPassword e password) w = (Some (Inr hash), w2)"
    and tx: "run_state (bootstrap_tx e email hash) w2 = (None, w1)"
    using assms(2-4) by (auto simp: BootstrapDemo_def split: option.splits sum.splits prod.splits)
  have "w_db w2 = w_db w"
    using h by (auto simp: HashPassword_def run_rand_Read split: if_splits)
  moreover have "\<exists>ids now. demo_writes ids email hash now (w_db w2) = Some (w_db w1)"
    using tx assms(1)
    by (auto simp: bootstrap_tx_def clock_Now_def quiet_call quiet_interleave quiet_statements State_Monad.get_def
        tx_commit_def split: if_splits option.splits fate.splits) blast
  ultimately show ?thesis by auto
qed

text \<open>
  C29. The bootstrap is idempotent and harmless to accounts: an undisturbed run keeps every user
  row, so it never resets a password or reactivates an account, and running it again, with
  whatever password, adds no organization, user, role, asset, source, link or policy.
\<close>

theorem bootstrap_idempotent:
  assumes "quiet e" and "email \<noteq> []" and "password \<noteq> []" and "password' \<noteq> []"
    and "run_state (BootstrapDemo e email password) w = (Some None, w1)"
    and "run_state (BootstrapDemo e email password') w1 = (Some None, w2)"
  shows "set (users (w_db w)) \<subseteq> set (users (w_db w1)) \<and>
    users (w_db w2) = users (w_db w1) \<and> user_roles (w_db w2) = user_roles (w_db w1) \<and>
    asset_backup_sources (w_db w2) = asset_backup_sources (w_db w1) \<and>
    recovery_policies (w_db w2) = recovery_policies (w_db w1) \<and>
    map o_id (organizations (w_db w2)) = map o_id (organizations (w_db w1)) \<and>
    map a_id (protected_assets (w_db w2)) = map a_id (protected_assets (w_db w1)) \<and>
    map bs_id (backup_sources (w_db w2)) = map bs_id (backup_sources (w_db w1))"
proof -
  obtain ids hash now where first: "demo_writes ids email hash now (w_db w) = Some (w_db w1)"
    using quiet_Bootstrap [OF assms(1-3,5)] by blast
  obtain ids' hash' now' where second: "demo_writes ids' email hash' now' (w_db w1) = Some (w_db w2)"
    using quiet_Bootstrap [OF assms(1,2,4,6)] by blast
  show ?thesis
    using demo_writes_present [OF first] demo_writes_again [of email "w_db w1" ids' hash' now'] second by auto
qed

lemma calm_Bootstrap:
  assumes "\<And>ids hash now. demo_writes ids ''a@b'' hash now (w_db w) \<noteq> None"
  obtains w1 where "run_state (BootstrapDemo calm ''a@b'' ''correct-horse'') w = (Some None, w1)"
proof -
  have valid: "valid_utf8 (map of_char ''a@b'')" by (rule valid_utf8_ascii) simp
  have runes: "runes ''a@b'' = map of_char ''a@b''" unfolding runes_def by (rule rune_list_ascii) simp
  have "\<exists>t. demo_writes ids ''a@b'' hash now (w_db w) = Some t" for ids hash now
    using assms by blast
  then obtain f where f: "\<And>ids hash now. demo_writes ids ''a@b'' hash now (w_db w) = Some (f ids hash now)"
    by metis
  show ?thesis
    by (rule that)
      (use valid runes f in \<open>simp add: BootstrapDemo_def HashPassword_def run_rand_Read bootstrap_tx_def clock_Now_def
        calm_call calm_interleave quiet_statements [OF quiet_calm] State_Monad.get_def calm_commit pg_text_def\<close>)
qed

theorem bootstrap_idempotent_witness:
  "\<exists>w1 w2. run_state (BootstrapDemo calm ''a@b'' ''correct-horse'') idle = (Some None, w1) \<and>
     run_state (BootstrapDemo calm ''a@b'' ''correct-horse'') w1 = (Some None, w2) \<and> users (w_db w2) = users (w_db w1)"
proof -
  have "demo_writes ids ''a@b'' hash now no_rows \<noteq> None" for ids hash now
    by (simp add: demo_writes_def upsert_org_def upsert_user_def upsert_asset_def upsert_source_def demo_policy_def
        grant_owner_def link_source_def insert_row_def no_rows_def row_with_def Let_def)
  then obtain w1 where w1: "run_state (BootstrapDemo calm ''a@b'' ''correct-horse'') idle = (Some None, w1)"
    by (metis calm_Bootstrap idle_simps(2))
  then have "demo_present ''a@b'' (w_db w1)"
    using quiet_Bootstrap [OF quiet_calm _ _ w1] demo_writes_present by fastforce
  then have "demo_writes ids ''a@b'' hash now (w_db w1) \<noteq> None" for ids hash now
    using demo_writes_again [of "''a@b''" "w_db w1" ids hash now] by auto
  then obtain w2 where w2: "run_state (BootstrapDemo calm ''a@b'' ''correct-horse'') w1 = (Some None, w2)"
    using calm_Bootstrap [of w1] by blast
  with bootstrap_idempotent [OF quiet_calm _ _ _ w1 w2] w1 show ?thesis by auto
qed

end
