(* ===== verification/Resources.thy ===== *)
theory Resources
  imports Account_Rules
begin

text \<open>
  The organization's resources (\<open>database/resources.go\<close>): the overview, the paged lists, creation
  and lookup of assets, sources, policies and drills, discovery and cancellation. A list is a
  \<open>SELECT\<close> in descending order of creation with a \<open>LIMIT\<close> and an \<open>OFFSET\<close> computed in \<open>int\<close>
  arithmetic; identifiers from requests are read into their canonical form first.
\<close>

record Asset =
  as_ID :: string
  as_Name :: string
  as_Type :: string
  as_Environment :: string
  as_Criticality :: string
  as_OwnerName :: string
  as_Team :: string
  as_Description :: string
  as_Enabled :: bool
  as_CreatedAt :: instant

record Source =
  so_ID :: string
  so_Name :: string
  so_Type :: string
  so_Environment :: string
  so_Description :: string
  so_Enabled :: bool
  so_LastDiscoveryStatus :: "string option"
  so_CreatedAt :: instant

record Policy =
  po_ID :: string
  po_Name :: string
  po_ProtectedAssetID :: string
  po_RPOTargetSeconds :: int64
  po_RTOTargetSeconds :: int64
  po_Schedule :: string
  po_Enabled :: bool

abbreviation pg_error :: "string \<Rightarrow> go_error" where "pg_error s \<equiv> External s"

text \<open>A value for a \<open>varchar(n)\<close> column; \<open>varchar\<close> counts characters.\<close>

definition varchar :: "nat \<Rightarrow> string \<Rightarrow> bool" where
  "varchar n s = (pg_text s \<and> length (runes s) \<le> n)"

definition coalesce :: "string option \<Rightarrow> string" where
  "coalesce s = (case s of None \<Rightarrow> [] | Some x \<Rightarrow> x)"


section \<open>Overview\<close>

definition count_rows :: "('r \<Rightarrow> bool) \<Rightarrow> 'r list \<Rightarrow> int" where
  "count_rows p rows = int (length (filter p rows))"

definition overview_values :: "string \<Rightarrow> tables \<Rightarrow> int list" where
  "overview_values org t =
     (let drills = filter (\<lambda>d. dr_organization_id d = org) (recovery_drills t) in
      [count_rows (\<lambda>a. a_organization_id a = org \<and> a_enabled a) (protected_assets t),
       int (length (remdups (map dr_protected_asset_id (filter (\<lambda>d. dr_recovery_status d = Some Verified) drills)))),
       count_rows (\<lambda>a. a_organization_id a = org \<and>
         \<not> list_ex (\<lambda>d. dr_protected_asset_id d = a_id a) (recovery_drills t)) (protected_assets t),
       count_rows (\<lambda>d. dr_rpo_result d = Some PolicyFail) drills,
       count_rows (\<lambda>d. dr_rto_result d = Some PolicyFail) drills,
       count_rows (\<lambda>d. dr_status d = DrillFailed) drills,
       count_rows (\<lambda>d. dr_status d = DrillInconclusive) drills,
       count_rows (\<lambda>d. dr_status d \<in> {DrillQueued, DrillPreparing, DrillRestoring, DrillValidating, DrillFinalizing}) drills])"

definition overview_keys :: "string list" where
  "overview_keys = [''protectedAssets'', ''verifiedAssets'', ''neverTested'', ''rpoFailures'', ''rtoFailures'',
     ''failedDrills'', ''inconclusiveDrills'', ''runningDrills'']"

definition Overview :: "env \<Rightarrow> string \<Rightarrow> (string \<times> int) list result program" where
  "Overview e org = db_exec e None (\<lambda>_ t. (t, Inr (zip overview_keys (overview_values org t))))"


section \<open>Paged lists\<close>

definition pageValues :: "int64 \<Rightarrow> int64 \<Rightarrow> int64 \<times> int64" where
  "pageValues page limit =
     (let page = (if page < 1 then 1 else page);
          limit = (if limit < 1 then 20 else limit);
          limit = (if limit > 100 then 100 else limit)
      in (page, limit))"

text \<open>\<open>ORDER BY\<close> sorts by its key; the order of rows with equal keys is the server's (\<open>ties\<close>), and
  need not be the same from one statement to the next.\<close>

definition order_by :: "(string \<Rightarrow> nat) \<Rightarrow> ('r \<Rightarrow> string) \<Rightarrow> ('r \<Rightarrow> int) \<Rightarrow> 'r list \<Rightarrow> 'r list" where
  "order_by ties rid key rows = sort_key key (sort_key (\<lambda>r. ties (rid r)) rows)"

text \<open>\<open>ORDER BY created_at DESC LIMIT limit OFFSET offset\<close>; the server refuses a negative offset.\<close>

definition page_query ::
    "(string \<Rightarrow> nat) \<Rightarrow> ('r \<Rightarrow> string) \<Rightarrow> ('r \<Rightarrow> instant) \<Rightarrow> int64 \<Rightarrow> int64 \<Rightarrow> 'r list \<Rightarrow> 'r list result" where
  "page_query ties rid created limit offset rows =
     (if offset < 0 then Inl (pg_error ''OFFSET must not be negative'')
      else Inr (take (nat limit) (drop (nat offset) (order_by ties rid (\<lambda>r. - created r) rows))))"

definition list_page ::
    "(string \<Rightarrow> nat) \<Rightarrow> ('r \<Rightarrow> string) \<Rightarrow> ('r \<Rightarrow> instant) \<Rightarrow> ('r \<Rightarrow> 'a) \<Rightarrow> int64 \<Rightarrow> int64 \<Rightarrow> 'r list \<Rightarrow> 'a list result" where
  "list_page ties rid created scan page limit rows =
     (let (page, limit) = pageValues page limit in
      case page_query ties rid created limit (wrap64 ((page - 1) * limit)) rows of
        Inl er \<Rightarrow> Inl er
      | Inr rs \<Rightarrow> Inr (map scan rs))"

definition scan_asset :: "asset_row \<Rightarrow> Asset" where
  "scan_asset a =
     \<lparr>as_ID = a_id a, as_Name = a_name a, as_Type = a_type a, as_Environment = a_environment a,
      as_Criticality = a_criticality a, as_OwnerName = coalesce (a_owner_name a), as_Team = coalesce (a_team a),
      as_Description = a_description a, as_Enabled = a_enabled a, as_CreatedAt = a_created_at a\<rparr>"

definition asset_rows :: "env \<Rightarrow> string \<Rightarrow> string \<Rightarrow> tables \<Rightarrow> asset_row list" where
  "asset_rows e org search t =
     filter (\<lambda>a. a_organization_id a = org \<and> (search = [] \<or> pg_ilike e (a_name a) (''%'' @ search @ ''%'')))
       (protected_assets t)"

definition ListAssets :: "env \<Rightarrow> string \<Rightarrow> string \<Rightarrow> int64 \<Rightarrow> int64 \<Rightarrow> Asset list result program" where
  "ListAssets e org search page limit = db_exec e None (\<lambda>now t. (t,
     if \<not> pg_text search then Inl (pg_error ''invalid byte sequence for encoding'')
     else list_page (pg_ties e now) a_id a_created_at scan_asset page limit (asset_rows e org search t)))"

definition scan_source :: "source_row \<Rightarrow> Source" where
  "scan_source b =
     \<lparr>so_ID = bs_id b, so_Name = bs_name b, so_Type = bs_type b, so_Environment = bs_environment b,
      so_Description = bs_description b, so_Enabled = bs_enabled b,
      so_LastDiscoveryStatus = bs_last_discovery_status b, so_CreatedAt = bs_created_at b\<rparr>"

definition ListSources :: "env \<Rightarrow> string \<Rightarrow> int64 \<Rightarrow> int64 \<Rightarrow> Source list result program" where
  "ListSources e org page limit = db_exec e None (\<lambda>now t. (t,
     list_page (pg_ties e now) bs_id bs_created_at scan_source page limit
       (filter (\<lambda>b. bs_organization_id b = org) (backup_sources t))))"

definition scan_policy :: "policy_row \<Rightarrow> Policy" where
  "scan_policy p =
     \<lparr>po_ID = p_id p, po_Name = p_name p, po_ProtectedAssetID = p_protected_asset_id p,
      po_RPOTargetSeconds = p_rpo_target_seconds p, po_RTOTargetSeconds = p_rto_target_seconds p,
      po_Schedule = p_schedule p, po_Enabled = p_enabled p\<rparr>"

definition ListPolicies :: "env \<Rightarrow> string \<Rightarrow> int64 \<Rightarrow> int64 \<Rightarrow> Policy list result program" where
  "ListPolicies e org page limit = db_exec e None (\<lambda>now t. (t,
     list_page (pg_ties e now) p_id p_created_at scan_policy page limit
       (filter (\<lambda>p. p_organization_id p = org) (recovery_policies t))))"

definition scan_drill :: "drill_row \<Rightarrow> RecoveryDrill" where
  "scan_drill d =
     \<lparr>d_ID = dr_id d, d_OrganizationID = dr_organization_id d, d_ProtectedAssetID = dr_protected_asset_id d,
      d_BackupSnapshotID = coalesce (dr_backup_snapshot_id d), d_RecoveryPolicyID = coalesce (dr_recovery_policy_id d),
      d_RequestedBy = dr_requested_by d, d_TriggerType = dr_trigger_type d, d_Status = dr_status d,
      d_StartedAt = dr_started_at d, d_CompletedAt = dr_completed_at d,
      d_MeasuredRPOSeconds = dr_measured_rpo_seconds d, d_MeasuredRTOSeconds = dr_measured_rto_seconds d,
      d_RPOResult = (case dr_rpo_result d of None \<Rightarrow> PolicyUnset | Some x \<Rightarrow> x),
      d_RTOResult = (case dr_rto_result d of None \<Rightarrow> PolicyUnset | Some x \<Rightarrow> x),
      d_RecoveryStatus = dr_recovery_status d, d_Confidence = dr_confidence d, d_Summary = dr_summary d,
      d_CreatedAt = dr_created_at d, d_UpdatedAt = dr_updated_at d\<rparr>"

definition drill_rows :: "string \<Rightarrow> string \<Rightarrow> string \<Rightarrow> tables \<Rightarrow> drill_row list" where
  "drill_rows org status asset t =
     filter (\<lambda>d. dr_organization_id d = org \<and> (status = [] \<or> status_string (dr_status d) = status) \<and>
         (asset = [] \<or> dr_protected_asset_id d = asset)) (recovery_drills t)"

definition ListDrills :: "env \<Rightarrow> string \<Rightarrow> string \<Rightarrow> string \<Rightarrow> int64 \<Rightarrow> int64 \<Rightarrow> RecoveryDrill list result program" where
  "ListDrills e org status asset page limit = db_exec e None (\<lambda>now t. (t,
     if \<not> pg_text status \<or> \<not> pg_text asset then Inl (pg_error ''invalid byte sequence for encoding'')
     else list_page (pg_ties e now) dr_id dr_created_at scan_drill page limit (drill_rows org status asset t)))"


section \<open>Creation and lookup\<close>

definition insert_asset :: "string \<Rightarrow> Asset \<Rightarrow> string \<Rightarrow> instant \<Rightarrow> tables \<Rightarrow> tables \<times> (string \<times> instant) result" where
  "insert_asset org item new_id now t =
     (if \<not> varchar 160 (as_Name item) \<or> \<not> varchar 40 (as_Type item) \<or> \<not> varchar 80 (as_Environment item) \<or>
         \<not> varchar 16 (as_Criticality item) \<or> \<not> varchar 160 (as_OwnerName item) \<or> \<not> varchar 120 (as_Team item) \<or>
         \<not> pg_text (as_Description item)
      then (t, Inl (pg_error ''value too long for type character varying''))
      else if as_Type item \<notin> {''POSTGRESQL_DATABASE'', ''FILESYSTEM'', ''APPLICATION_DATASET''} \<or>
              as_Criticality item \<notin> {''LOW'', ''MEDIUM'', ''HIGH'', ''CRITICAL''}
      then (t, Inl (pg_error ''violates check constraint''))
      else if org \<notin> set (map o_id (organizations t)) then (t, Inl (pg_error ''violates foreign key constraint''))
      else if list_ex (\<lambda>a. a_organization_id a = org \<and> a_name a = as_Name item) (protected_assets t) \<or>
              new_id \<in> set (map a_id (protected_assets t))
      then (t, Inl (pg_error ''duplicate key value violates unique constraint''))
      else (t\<lparr>protected_assets := protected_assets t @
              [\<lparr>a_id = new_id, a_organization_id = org, a_name = as_Name item, a_type = as_Type item,
                a_environment = as_Environment item, a_criticality = as_Criticality item,
                a_owner_name = Some (as_OwnerName item), a_team = Some (as_Team item),
                a_description = as_Description item, a_enabled = True, a_created_at = now, a_updated_at = now\<rparr>]\<rparr>,
            Inr (new_id, now)))"

definition CreateAsset :: "env \<Rightarrow> string \<Rightarrow> Asset \<Rightarrow> Asset result program" where
  "CreateAsset e org item = do {
     new_id \<leftarrow> uuid_NewString e;
     r \<leftarrow> db_exec e None (insert_asset org item new_id);
     State_Monad.return (case r of
         Inl er \<Rightarrow> Inl er
       | Inr (i, created) \<Rightarrow> Inr (item\<lparr>as_ID := i, as_CreatedAt := created, as_Enabled := True\<rparr>))
   }"

definition GetAsset :: "env \<Rightarrow> string \<Rightarrow> string \<Rightarrow> Asset result program" where
  "GetAsset e org id' = db_exec e None (\<lambda>_ t. (t,
     case pg_uuid e id' of
       None \<Rightarrow> Inl (pg_error ''invalid input syntax for type uuid'')
     | Some i \<Rightarrow> (case query_row (filter (\<lambda>a. a_organization_id a = org \<and> a_id a = i) (protected_assets t)) of
           Inl er \<Rightarrow> Inl er
         | Inr a \<Rightarrow> Inr (scan_asset a))))"

definition insert_source :: "string \<Rightarrow> Source \<Rightarrow> string \<Rightarrow> instant \<Rightarrow> tables \<Rightarrow> tables \<times> (string \<times> instant) result" where
  "insert_source org item new_id now t =
     (if \<not> varchar 160 (so_Name item) \<or> \<not> varchar 40 (so_Type item) \<or> \<not> varchar 80 (so_Environment item) \<or>
         \<not> pg_text (so_Description item)
      then (t, Inl (pg_error ''value too long for type character varying''))
      else if so_Type item \<notin> {''LOCAL_FILESYSTEM'', ''S3_COMPATIBLE'', ''POSTGRES_DUMP''}
      then (t, Inl (pg_error ''violates check constraint''))
      else if org \<notin> set (map o_id (organizations t)) then (t, Inl (pg_error ''violates foreign key constraint''))
      else if list_ex (\<lambda>b. bs_organization_id b = org \<and> bs_name b = so_Name item) (backup_sources t) \<or>
              new_id \<in> set (map bs_id (backup_sources t))
      then (t, Inl (pg_error ''duplicate key value violates unique constraint''))
      else (t\<lparr>backup_sources := backup_sources t @
              [\<lparr>bs_id = new_id, bs_organization_id = org, bs_name = so_Name item, bs_type = so_Type item,
                bs_environment = so_Environment item, bs_description = so_Description item, bs_enabled = True,
                bs_last_discovery_at = None, bs_last_discovery_status = None, bs_created_at = now, bs_updated_at = now\<rparr>]\<rparr>,
            Inr (new_id, now)))"

definition CreateSource :: "env \<Rightarrow> string \<Rightarrow> Source \<Rightarrow> Source result program" where
  "CreateSource e org item = do {
     new_id \<leftarrow> uuid_NewString e;
     r \<leftarrow> db_exec e None (insert_source org item new_id);
     State_Monad.return (case r of
         Inl er \<Rightarrow> Inl er
       | Inr (i, created) \<Rightarrow> Inr (item\<lparr>so_ID := i, so_CreatedAt := created, so_Enabled := True\<rparr>))
   }"

definition discover_where :: "string \<Rightarrow> string \<Rightarrow> source_row \<Rightarrow> bool" where
  "discover_where org i b = (bs_organization_id b = org \<and> bs_id b = i)"

definition update_discovery :: "string \<Rightarrow> string \<Rightarrow> instant \<Rightarrow> tables \<Rightarrow> tables \<times> nat result" where
  "update_discovery org i now t =
     (t\<lparr>backup_sources := update_where (discover_where org i)
          (\<lambda>b. b\<lparr>bs_last_discovery_at := Some now, bs_last_discovery_status := Some ''SUCCEEDED'', bs_updated_at := now\<rparr>)
          (backup_sources t)\<rparr>,
      Inr (rows_affected (discover_where org i) (backup_sources t)))"

text \<open>An update addressed by an identifier from a request: no row is \<open>pgx.ErrNoRows\<close>.\<close>

definition exec_by_id ::
    "env \<Rightarrow> string \<Rightarrow> (string \<Rightarrow> instant \<Rightarrow> tables \<Rightarrow> tables \<times> nat result) \<Rightarrow> go_error option program" where
  "exec_by_id e id' f = do {
     tag \<leftarrow> db_exec e None (\<lambda>now t. case pg_uuid e id' of
         None \<Rightarrow> (t, Inl (pg_error ''invalid input syntax for type uuid''))
       | Some i \<Rightarrow> f i now t);
     State_Monad.return (case tag of Inl er \<Rightarrow> Some er | Inr n \<Rightarrow> if n = 0 then Some ErrNoRows else None)
   }"

definition DiscoverSource :: "env \<Rightarrow> string \<Rightarrow> string \<Rightarrow> go_error option program" where
  "DiscoverSource e org id' = exec_by_id e id' (update_discovery org)"

definition insert_policy :: "env \<Rightarrow> string \<Rightarrow> Policy \<Rightarrow> string \<Rightarrow> instant \<Rightarrow> tables \<Rightarrow> tables \<times> string result" where
  "insert_policy e org item new_id now t =
     (case pg_uuid e (po_ProtectedAssetID item) of
        None \<Rightarrow> (t, Inl (pg_error ''invalid input syntax for type uuid''))
      | Some asset \<Rightarrow>
          if \<not> pg_text (po_Name item) \<or> \<not> pg_text (po_Schedule item)
          then (t, Inl (pg_error ''invalid byte sequence for encoding''))
          else if \<not> in_org a_organization_id org a_id asset (protected_assets t) then (t, Inl ErrNoRows)
          else if \<not> varchar 160 (po_Name item) \<or> \<not> varchar 100 (po_Schedule item)
          then (t, Inl (pg_error ''value too long for type character varying''))
          else if new_id \<in> set (map p_id (recovery_policies t))
          then (t, Inl (pg_error ''duplicate key value violates unique constraint''))
          else (t\<lparr>recovery_policies := recovery_policies t @
                  [\<lparr>p_id = new_id, p_organization_id = org, p_name = po_Name item, p_protected_asset_id = asset,
                    p_rpo_target_seconds = po_RPOTargetSeconds item, p_rto_target_seconds = po_RTOTargetSeconds item,
                    p_schedule = po_Schedule item, p_required_validations = JArr [], p_enabled = True, p_created_at = now\<rparr>]\<rparr>,
                Inr new_id))"

definition CreatePolicy :: "env \<Rightarrow> string \<Rightarrow> Policy \<Rightarrow> Policy result program" where
  "CreatePolicy e org item =
     (if po_RPOTargetSeconds item \<le> 0 \<or> po_RTOTargetSeconds item \<le> 0 \<or>
         po_RPOTargetSeconds item > 31536000 \<or> po_RTOTargetSeconds item > 604800
      then State_Monad.return (Inl (Errorf ''invalid RPO/RTO target''))
      else do {
        new_id \<leftarrow> uuid_NewString e;
        r \<leftarrow> db_exec e None (insert_policy e org item new_id);
        State_Monad.return (case r of
            Inl er \<Rightarrow> Inl er
          | Inr i \<Rightarrow> Inr (item\<lparr>po_ID := i, po_Enabled := True\<rparr>))
      })"


section \<open>Drills\<close>

text \<open>The columns \<open>CreateDrill\<close> scans; the others keep their zero values.\<close>

definition scan_new_drill :: "drill_row \<Rightarrow> RecoveryDrill" where
  "scan_new_drill d = (scan_drill d)\<lparr>d_StartedAt := None, d_CompletedAt := None, d_MeasuredRPOSeconds := None,
     d_MeasuredRTOSeconds := None, d_RPOResult := PolicyUnset, d_RTOResult := PolicyUnset,
     d_RecoveryStatus := None, d_Confidence := None\<rparr>"

text \<open>\<open>NULLIF($n,'')::uuid\<close>.\<close>

definition nullif_uuid :: "env \<Rightarrow> string \<Rightarrow> string option option" where
  "nullif_uuid e s = (if s = [] then Some None else map_option Some (pg_uuid e s))"

definition CreateDrill ::
    "env \<Rightarrow> Principal \<Rightarrow> string \<Rightarrow> string \<Rightarrow> string \<Rightarrow> string \<Rightarrow> (RecoveryDrill \<times> bool) result program" where
  "CreateDrill e p assetID snapshotID policyID idempotency = do {
     key \<leftarrow> (if idempotency = [] then uuid_NewString e else State_Monad.return idempotency);
     new_id \<leftarrow> uuid_NewString e;
     inserted \<leftarrow> db_exec e None (\<lambda>now t.
       case (pg_uuid e assetID, nullif_uuid e snapshotID, nullif_uuid e policyID) of
         (Some asset, Some snapshot, Some policy) \<Rightarrow>
           insert_drill (pr_OrganizationID p) asset snapshot policy (pr_UserID p) key new_id now t
       | _ \<Rightarrow> (t, Inl (pg_error ''invalid input syntax for type uuid'')));
     case inserted of
       Inr d \<Rightarrow> State_Monad.return (Inr (scan_new_drill d, True))
     | Inl er \<Rightarrow>
         if errors_Is er ErrNoRows then do {
           existing \<leftarrow> db_exec e None (\<lambda>_ t. (t,
             if \<not> pg_text key then Inl (pg_error ''invalid byte sequence for encoding'')
             else query_row (filter (\<lambda>d. dr_organization_id d = pr_OrganizationID p \<and> dr_idempotency_key d = key)
               (recovery_drills t))));
           State_Monad.return (case existing of
               Inl er' \<Rightarrow> Inl er'
             | Inr d \<Rightarrow> Inr (scan_new_drill d, False))
         }
         else State_Monad.return (Inl er)
   }"

fun find_drill :: "string \<Rightarrow> RecoveryDrill list \<Rightarrow> RecoveryDrill result" where
  "find_drill id' [] = Inl ErrNoRows"
| "find_drill id' (item # items) = (if d_ID item = id' then Inr item else find_drill id' items)"

definition GetDrill :: "env \<Rightarrow> string \<Rightarrow> string \<Rightarrow> RecoveryDrill result program" where
  "GetDrill e org id' = do {
     r \<leftarrow> ListDrills e org [] [] 1 100;
     State_Monad.return (case r of Inl er \<Rightarrow> Inl er | Inr items \<Rightarrow> find_drill id' items)
   }"

definition CancelDrill :: "env \<Rightarrow> string \<Rightarrow> string \<Rightarrow> go_error option program" where
  "CancelDrill e org id' = exec_by_id e id' (cancel_drill org)"

end
