(* ===== verification/Resource_Properties.thy ===== *)
theory Resource_Properties
  imports Resources Account_Properties "HOL-Library.Multiset"
begin

text \<open>
  What the resource operations promise: lists and lookups return rows of the caller's organization
  only, pages partition the list, a drill request with an idempotency key creates one drill
  however often it is repeated, and a cancellation touches the drill it names and no other.
\<close>

section \<open>Lists\<close>

lemma pageValues_range: "pageValues page limit = (page', limit') \<Longrightarrow> 1 \<le> page' \<and> 1 \<le> limit' \<and> limit' \<le> 100"
  by (auto simp: pageValues_def Let_def split: if_splits)

lemma set_order_by [simp]: "set (order_by ties rid key rows) = set rows"
  by (simp add: order_by_def)

lemma list_page_Inr:
  assumes "list_page ties rid created scan page limit rows = Inr items"
  shows "length items \<le> 100" and "set items \<subseteq> scan ` set rows"
proof -
  obtain page' limit' where pv: "pageValues page limit = (page', limit')" by fastforce
  then obtain n where items: "items = map scan (take (nat limit') (drop n (order_by ties rid (\<lambda>r. - created r) rows)))"
    using assms by (auto simp: list_page_def page_query_def split: if_splits)
  show "length items \<le> 100" using pageValues_range [OF pv] by (auto simp: items)
  show "set items \<subseteq> scan ` set rows"
    using set_take_subset set_drop_subset set_order_by unfolding items by fastforce
qed

lemma list_page_within:
  "list_page ties rid created scan page limit rows = Inr items \<Longrightarrow> set rows \<subseteq> R \<Longrightarrow> length items \<le> 100 \<and> set items \<subseteq> scan ` R"
  using list_page_Inr [of ties rid created scan page limit rows items] by blast

lemma find_drill_in: "find_drill i items = Inr d \<Longrightarrow> d \<in> set items \<and> d_ID d = i"
  by (induction items) (auto split: if_splits)

lemma ListDrills_rows:
  assumes "run_state (ListDrills e org status asset page limit) w = (Inr items, w')"
  shows "length items \<le> 100 \<and> set items \<subseteq> scan_drill ` set (drill_rows org status asset (db_seen e w))"
  using query_db(3) [OF assms [unfolded ListDrills_def]] list_page_Inr [of _ dr_id dr_created_at scan_drill page limit]
  by (auto split: if_splits)

lemma sort_page:
  "concat (map (\<lambda>k. take l (drop (k * l) xs)) [0..<n]) = take (n * l) xs"
  by (induction n) (simp_all add: take_add [symmetric] add.commute)

text \<open>The page size a request gets.\<close>

definition page_size :: "int64 \<Rightarrow> int64" where
  "page_size limit = (if limit < 1 then 20 else if 100 < limit then 100 else limit)"

lemma page_size_range: "1 \<le> page_size limit \<and> page_size limit \<le> 100"
  by (simp add: page_size_def)

lemma pageValues_exact: "pageValues page limit = (if page < 1 then 1 else page, page_size limit)"
  by (simp add: pageValues_def page_size_def Let_def)

lemma list_page_exact:
  assumes "int k * page_size limit < 2 ^ 63" and "page = int k + 1 \<or> page \<le> 0 \<and> k = 0"
  shows "list_page ties rid created scan page limit rows =
    Inr (map scan (take (nat (page_size limit)) (drop (k * nat (page_size limit)) (order_by ties rid (\<lambda>r. - created r) rows))))"
proof -
  note range = page_size_range [of limit]
  have pos: "0 \<le> int k * page_size limit" using range by simp
  then have "wrap64 (int k * page_size limit) = int k * page_size limit"
    using assms(1) by (intro wrap64_id) (simp add: int64_range_def)
  moreover have "nat (int k * page_size limit) = k * nat (page_size limit)"
    using range by (simp add: nat_mult_distrib)
  moreover have "(if page < 1 then 1 else page) - 1 = int k" using assms(2) by auto
  moreover have "\<not> int k * page_size limit < 0" using pos by linarith
  ultimately show ?thesis
    by (simp add: list_page_def pageValues_exact page_query_def)
qed

text \<open>Rows with different keys have one order only.\<close>

lemma order_by_unique:
  fixes created :: "'r \<Rightarrow> int"
  assumes "distinct (map created rows)"
  shows "order_by ties rid (\<lambda>r. - created r) rows = rev (sort_key created rows)"
  unfolding order_by_def
proof (rule sort_key_inj_key_eq)
  show "mset (sort_key (\<lambda>r. ties (rid r)) rows) = mset (rev (sort_key created rows))" by simp
  show "inj_on (\<lambda>r. - created r) (set (sort_key (\<lambda>r. ties (rid r)) rows))"
    using assms by (auto simp: distinct_map inj_on_def)
  have "sorted_wrt (\<lambda>a b. created b \<le> created a) (rev (sort_key created rows))"
    using sorted_sort_key [of created rows] by (simp add: sorted_wrt_rev sorted_wrt_map)
  then show "sorted (map (\<lambda>r. - created r) (rev (sort_key created rows)))"
    by (simp add: sorted_wrt_map)
qed


section \<open>Keys of drills\<close>

definition drill_keys :: "tables \<Rightarrow> (string \<times> string \<times> string) list" where
  "drill_keys t = map (\<lambda>d. (dr_id d, dr_organization_id d, dr_idempotency_key d)) (recovery_drills t)"

definition keys_unique :: "tables \<Rightarrow> bool" where
  "keys_unique t = (distinct (map fst (drill_keys t)) \<and> distinct (map snd (drill_keys t)))"

lemma keys_unique_iff:
  "keys_unique t \<longleftrightarrow> distinct (map dr_id (recovery_drills t)) \<and> idempotency_unique t"
  by (simp add: keys_unique_def drill_keys_def idempotency_unique_def o_def)

lemma drill_keys_statements [simp]:
  "drill_keys (insert_step did step n su now t) = drill_keys t"
  "drill_keys (fst (upsert_sandbox org did cr re co ne t)) = drill_keys t"
  "drill_keys (fst (sandbox_destroyed did now t)) = drill_keys t"
  "drill_keys (update_status did to st now t) = drill_keys t"
  "drill_keys (fst (cancel_drill org did now t)) = drill_keys t"
  "drill_keys (fst (set_terminal did status su now t)) = drill_keys t"
  "drill_keys (fst (finish_drill did now rpo rto rr tr a c t)) = drill_keys t"
  "drill_keys (other_rows t' t) = drill_keys t"
  "drill_keys (t\<lparr>backup_snapshots := ss\<rparr>) = drill_keys t"
  "drill_keys (t\<lparr>recovery_policies := ps\<rparr>) = drill_keys t"
  by (simp_all add: drill_keys_def update_status_def cancel_drill_def set_terminal_def finish_drill_def update_where_def o_def)

lemma drill_keys_final [simp]:
  "drill_keys (final_writes org did art new_id now oc t) = drill_keys t"
  "drill_keys (fst (final_tx_of did art new_id ready now t)) = drill_keys t"
proof -
  show final: "drill_keys (final_writes org did art new_id now oc t) = drill_keys t" for org art oc
    by (simp add: drill_keys_def final_writes_rows finish_drill_def update_where_def)
  then show "drill_keys (fst (final_tx_of did art new_id ready now t)) = drill_keys t"
    by (simp add: final_tx_of_def split: sum.split)
qed

lemma insert_drill_keys:
  assumes "keys_unique t"
  shows "keys_unique (fst (insert_drill org a s p u k i now t))"
  using assms by (auto simp: insert_drill_def Let_def keys_unique_def drill_keys_def list_ex_iff o_def)

lemma others_keep_keys: "others_keep e keys_unique"
proof -
  have "keys_unique (apply_other now op t)" if "keys_unique t" for now op t
  proof (cases op)
    case (OtherCreate org a s p u k i)
    then show ?thesis using that insert_drill_keys by (simp add: apply_other_def)
  next
    case (OtherTransition did to st)
    then show ?thesis
      using that by (auto simp: apply_other_def transition_tx_def keys_unique_def split: option.splits)
  qed (use that in \<open>auto simp: apply_other_def keys_unique_def\<close>)
  then show ?thesis by (simp add: others_keep_def)
qed

lemma others_keep_evolve: "others_keep e (tables_evolve t0)"
  unfolding others_keep_def using apply_other_evolves tables_evolve_trans by blast

text \<open>The drill of an organization with an idempotency key.\<close>

definition keyed :: "string \<Rightarrow> string \<Rightarrow> string \<Rightarrow> tables \<Rightarrow> bool" where
  "keyed did org key t = (\<exists>d \<in> set (recovery_drills t). dr_id d = did \<and> dr_organization_id d = org \<and> dr_idempotency_key d = key)"

lemma keyed_keys: "keyed did org key t \<longleftrightarrow> (did, org, key) \<in> set (drill_keys t)"
  by (auto simp: keyed_def drill_keys_def)

lemma keyed_unique: "keys_unique t \<Longrightarrow> keyed did org key t \<Longrightarrow> keyed did' org key t \<Longrightarrow> did' = did"
  unfolding keyed_keys keys_unique_def by (auto simp: distinct_map inj_on_def) (metis prod.inject snd_conv)

lemma filter_key: "distinct (map f xs) \<Longrightarrow> x \<in> set xs \<Longrightarrow> filter (\<lambda>y. f y = f x) xs = [x]"
proof (induction xs)
  case (Cons y ys)
  then show ?case
  proof (cases "x = y")
    case True
    then have "\<forall>z \<in> set ys. f z \<noteq> f x" using Cons.prems by auto (metis image_eqI)
    with True show ?thesis by (simp add: filter_empty_conv)
  next
    case False
    then have "x \<in> set ys" and "f y \<noteq> f x" using Cons.prems by auto
    then show ?thesis using Cons by simp
  qed
qed simp

lemma keyed_once:
  assumes "keys_unique t" and "keyed did org key t"
  shows "length (filter (\<lambda>d. dr_organization_id d = org \<and> dr_idempotency_key d = key) (recovery_drills t)) = 1"
proof -
  let ?k = "\<lambda>d. (dr_organization_id d, dr_idempotency_key d)"
  obtain d where d: "d \<in> set (recovery_drills t)" "dr_organization_id d = org" "dr_idempotency_key d = key"
    using assms(2) by (auto simp: keyed_def)
  have "filter (\<lambda>y. ?k y = ?k d) (recovery_drills t) = [d]"
    using assms(1) d(1) by (intro filter_key) (simp_all add: keys_unique_iff idempotency_unique_def)
  then show ?thesis using d(2,3) by simp
qed

lemma insert_keyed: "keyed did org key t \<Longrightarrow> keyed did org key (fst (insert_drill org' a s p u k i now t))"
  by (auto simp: insert_drill_def Let_def keyed_def)

lemma others_keep_keyed: "others_keep e (keyed did org key)"
proof -
  have "keyed did org key (apply_other now op t)" if "keyed did org key t" for now op t
  proof (cases op)
    case (OtherCreate org' a s p u k i)
    then show ?thesis using that insert_keyed by (simp add: apply_other_def)
  next
    case (OtherTransition did' to st)
    then show ?thesis
      using that by (auto simp: apply_other_def transition_tx_def keyed_keys split: option.splits)
  qed (use that in \<open>auto simp: apply_other_def keyed_keys\<close>)
  then show ?thesis by (simp add: others_keep_def)
qed

lemma insert_drill_Inr:
  "insert_drill org a s p u k i now t = (t', Inr d) \<Longrightarrow>
   dr_id d = i \<and> dr_organization_id d = org \<and> dr_idempotency_key d = k \<and> keyed i org k t' \<and> dr_status d = DrillQueued \<and>
   \<not> (\<exists>did. keyed did org k t)"
  by (auto simp: insert_drill_def Let_def keyed_def list_ex_iff split: if_splits)

text \<open>The statement of \<open>CreateDrill\<close>, and what the operation returns.\<close>

definition create_statement ::
    "env \<Rightarrow> Principal \<Rightarrow> string \<Rightarrow> string \<Rightarrow> string \<Rightarrow> string \<Rightarrow> string \<Rightarrow> instant \<Rightarrow> tables \<Rightarrow> tables \<times> drill_row result" where
  "create_statement e p assetID snapshotID policyID key new_id now t =
     (case (pg_uuid e assetID, nullif_uuid e snapshotID, nullif_uuid e policyID) of
         (Some asset, Some snapshot, Some policy) \<Rightarrow>
           insert_drill (pr_OrganizationID p) asset snapshot policy (pr_UserID p) key new_id now t
       | _ \<Rightarrow> (t, Inl (pg_error ''invalid input syntax for type uuid'')))"

lemma create_statement_Inr:
  "create_statement e p a s po key i now t = (t', Inr d) \<Longrightarrow>
   dr_id d = i \<and> dr_organization_id d = pr_OrganizationID p \<and> dr_idempotency_key d = key \<and>
   keyed i (pr_OrganizationID p) key t' \<and> \<not> (\<exists>did. keyed did (pr_OrganizationID p) key t)"
  by (auto simp: create_statement_def dest: insert_drill_Inr split: option.splits)

lemma create_statement_keeps:
  "keys_unique t \<Longrightarrow> keys_unique (fst (create_statement e p a s po key i now t))"
  by (auto simp: create_statement_def insert_drill_keys split: option.splits)

lemma scan_new_drill_ids [simp]:
  "d_ID (scan_new_drill d) = dr_id d" "d_OrganizationID (scan_new_drill d) = dr_organization_id d"
  by (simp_all add: scan_new_drill_def scan_drill_def)

text \<open>Once the key is there, \<open>CreateDrill\<close> returns the drill that has it.\<close>

lemma CreateDrill_keeps_keys: "keeps (on_db keys_unique) (CreateDrill e p a s po idem)"
  unfolding CreateDrill_def create_statement_def [symmetric]
  by (intro keeps_intros others_keep_keys keeps_db_exec_env create_statement_keeps)

lemma CreateDrill_result:
  assumes "idem \<noteq> []" and "run_state (CreateDrill e p a s po idem) w = (Inr (item, created), w')"
  shows "keyed (d_ID item) (pr_OrganizationID p) idem (w_db w')"
    and "created \<Longrightarrow> \<not> (\<exists>did. keyed did (pr_OrganizationID p) idem (db_seen e (w\<lparr>w_step := Suc (w_step w)\<rparr>)))"
proof -
  let ?w = "w\<lparr>w_step := Suc (w_step w)\<rparr>" and ?new = "uuid_at e (w_step w)"
  obtain r1 w1 where first: "run_state (db_exec e None (create_statement e p a s po idem ?new)) ?w = (r1, w1)" by fastforce
  have run: "run_state (CreateDrill e p a s po idem) w = run_state
      (case r1 of
         Inr d \<Rightarrow> State_Monad.return (Inr (scan_new_drill d, True))
       | Inl er \<Rightarrow>
           if errors_Is er ErrNoRows then do {
             existing \<leftarrow> db_exec e None (\<lambda>_ t. (t,
               if \<not> pg_text idem then Inl (pg_error ''invalid byte sequence for encoding'')
               else query_row (filter (\<lambda>d. dr_organization_id d = pr_OrganizationID p \<and> dr_idempotency_key d = idem)
                 (recovery_drills t))));
             State_Monad.return (case existing of
                 Inl er' \<Rightarrow> Inl er'
               | Inr d \<Rightarrow> Inr (scan_new_drill d, False))
           }
           else State_Monad.return (Inl er)) w1"
    using assms(1) unfolding CreateDrill_def create_statement_def [symmetric]
    by (simp add: uuid_NewString_def first)
  have "keyed (d_ID item) (pr_OrganizationID p) idem (w_db w') \<and>
      (created \<longrightarrow> \<not> (\<exists>did. keyed did (pr_OrganizationID p) idem (db_seen e ?w)))"
  proof (cases r1)
    case (Inr d)
    then show ?thesis
      using create_statement_Inr [OF exec_db(1) [OF first [unfolded Inr]]] assms(2) run by auto
  next
    case (Inl er)
    obtain r2 w2 where second: "run_state (db_exec e None (\<lambda>_ t. (t,
        if \<not> pg_text idem then Inl (pg_error ''invalid byte sequence for encoding'')
        else query_row (filter (\<lambda>d. dr_organization_id d = pr_OrganizationID p \<and> dr_idempotency_key d = idem)
          (recovery_drills t))))) w1 = (r2, w2)" by fastforce
    then obtain d where d: "r2 = Inr d" "item = scan_new_drill d" "\<not> created" "w' = w2"
      using assms(2) run Inl by (cases r2) (auto split: if_splits)
    have "d \<in> set (filter (\<lambda>d. dr_organization_id d = pr_OrganizationID p \<and> dr_idempotency_key d = idem)
          (recovery_drills (w_db w')))"
      using query_db(1,3) [OF second] d by (auto split: if_splits dest: query_row_Inr)
    then show ?thesis using d by (auto simp: keyed_def)
  qed
  then show "keyed (d_ID item) (pr_OrganizationID p) idem (w_db w')"
    and "created \<Longrightarrow> \<not> (\<exists>did. keyed did (pr_OrganizationID p) idem (db_seen e (w\<lparr>w_step := Suc (w_step w)\<rparr>)))"
    by auto
qed

lemma CreateDrill_keeps_keyed: "keeps (on_db (keyed did org key)) (CreateDrill e p a s po idem)"
proof -
  have "keyed did org key (fst (create_statement e p a s po k i now t))" if "keyed did org key t" for k i now t
    using that insert_keyed by (auto simp: create_statement_def split: option.splits)
  then show ?thesis
    unfolding CreateDrill_def create_statement_def [symmetric]
    by (intro keeps_intros others_keep_keyed keeps_db_exec_env)
qed


section \<open>Properties\<close>

text \<open>
  C31. Reads are confined to the organization: whatever the lists and lookups of assets, sources,
  policies and drills return are rows of the caller's organization in the database at that moment,
  at most a hundred, whatever the page, limit, filter or identifier of the request.
\<close>

theorem reads_stay_in_organization:
  "(run_state (ListAssets e org search page limit) w = (Inr assets, w') \<longrightarrow> length assets \<le> 100 \<and>
      set assets \<subseteq> scan_asset ` {a \<in> set (protected_assets (db_seen e w)). a_organization_id a = org}) \<and>
   (run_state (GetAsset e org i) w = (Inr asset, w') \<longrightarrow>
      asset \<in> scan_asset ` {a \<in> set (protected_assets (db_seen e w)). a_organization_id a = org}) \<and>
   (run_state (ListSources e org page limit) w = (Inr sources, w') \<longrightarrow> length sources \<le> 100 \<and>
      set sources \<subseteq> scan_source ` {b \<in> set (backup_sources (db_seen e w)). bs_organization_id b = org}) \<and>
   (run_state (ListPolicies e org page limit) w = (Inr policies, w') \<longrightarrow> length policies \<le> 100 \<and>
      set policies \<subseteq> scan_policy ` {p \<in> set (recovery_policies (db_seen e w)). p_organization_id p = org}) \<and>
   (run_state (ListDrills e org status asset_filter page limit) w = (Inr drills, w') \<longrightarrow> length drills \<le> 100 \<and>
      set drills \<subseteq> scan_drill ` {d \<in> set (recovery_drills (db_seen e w)). dr_organization_id d = org}) \<and>
   (run_state (GetDrill e org i) w = (Inr drill, w') \<longrightarrow> d_ID drill = i \<and>
      drill \<in> scan_drill ` {d \<in> set (recovery_drills (db_seen e w)). dr_organization_id d = org})"
proof (intro conjI impI)
  show "length assets \<le> 100" "set assets \<subseteq> scan_asset ` {a \<in> set (protected_assets (db_seen e w)). a_organization_id a = org}"
    if "run_state (ListAssets e org search page limit) w = (Inr assets, w')"
    using query_db(3) [OF that [unfolded ListAssets_def], OF refl]
      list_page_within [of _ a_id a_created_at scan_asset page limit "asset_rows e org search (db_seen e w)" assets
        "{a \<in> set (protected_assets (db_seen e w)). a_organization_id a = org}"]
    by (auto simp: asset_rows_def split: if_splits)
  show "asset \<in> scan_asset ` {a \<in> set (protected_assets (db_seen e w)). a_organization_id a = org}"
    if "run_state (GetAsset e org i) w = (Inr asset, w')"
    using query_db(3) [OF that [unfolded GetAsset_def]]
    by (auto split: option.splits sum.splits dest!: query_row_Inr)
  show "length sources \<le> 100" "set sources \<subseteq> scan_source ` {b \<in> set (backup_sources (db_seen e w)). bs_organization_id b = org}"
    if "run_state (ListSources e org page limit) w = (Inr sources, w')"
    using list_page_within [OF query_db(3) [OF that [unfolded ListSources_def], OF refl],
        of "{b \<in> set (backup_sources (db_seen e w)). bs_organization_id b = org}"] by auto
  show "length policies \<le> 100" "set policies \<subseteq> scan_policy ` {p \<in> set (recovery_policies (db_seen e w)). p_organization_id p = org}"
    if "run_state (ListPolicies e org page limit) w = (Inr policies, w')"
    using list_page_within [OF query_db(3) [OF that [unfolded ListPolicies_def], OF refl],
        of "{p \<in> set (recovery_policies (db_seen e w)). p_organization_id p = org}"] by auto
  show "length drills \<le> 100" "set drills \<subseteq> scan_drill ` {d \<in> set (recovery_drills (db_seen e w)). dr_organization_id d = org}"
    if "run_state (ListDrills e org status asset_filter page limit) w = (Inr drills, w')"
    using ListDrills_rows [OF that] by (auto simp: drill_rows_def)
  show "d_ID drill = i" "drill \<in> scan_drill ` {d \<in> set (recovery_drills (db_seen e w)). dr_organization_id d = org}"
    if get: "run_state (GetDrill e org i) w = (Inr drill, w')"
  proof -
    obtain items where "run_state (ListDrills e org [] [] 1 100) w = (Inr items, w')" and "find_drill i items = Inr drill"
      using get by (auto simp: GetDrill_def split: prod.splits sum.splits)
    then show "d_ID drill = i" "drill \<in> scan_drill ` {d \<in> set (recovery_drills (db_seen e w)). dr_organization_id d = org}"
      using ListDrills_rows find_drill_in by (fastforce simp: drill_rows_def)+
  qed
qed

text \<open>An organization with one asset, for examples.\<close>

definition example_asset :: asset_row where
  "example_asset = \<lparr>a_id = ''a1'', a_organization_id = ''o1'', a_name = ''ERP'', a_type = ''FILESYSTEM'', a_environment = ''DEMO'',
     a_criticality = ''LOW'', a_owner_name = None, a_team = None, a_description = [], a_enabled = True,
     a_created_at = 5, a_updated_at = 5\<rparr>"

definition resource_world :: world where
  "resource_world = idle\<lparr>w_db := (account_tables [])\<lparr>protected_assets := [example_asset]\<rparr>\<rparr>"

lemma ascii_text: "list_all (\<lambda>b. b < 128) (map of_char s :: nat list) \<Longrightarrow> CHR 0x00 \<notin> set s \<Longrightarrow>
    pg_text s \<and> length (runes s) = length s"
  using valid_utf8_ascii [of "map of_char s"] rune_list_ascii [of "map of_char s"] by (simp add: pg_text_def runes_def)

theorem reads_stay_in_organization_witness:
  "\<exists>w'. run_state (ListAssets calm ''o1'' [] 1 20) resource_world = (Inr [scan_asset example_asset], w') \<and>
     scan_asset example_asset \<in> scan_asset ` {a \<in> set (protected_assets (db_seen calm resource_world)). a_organization_id a = ''o1''}"
proof -
  have "pg_text []" using ascii_text [of "[]"] by simp
  then obtain w' where run: "run_state (ListAssets calm ''o1'' [] 1 20) resource_world = (Inr [scan_asset example_asset], w')"
    by (simp add: ListAssets_def calm_exec list_page_def pageValues_def page_query_def order_by_def asset_rows_def resource_world_def
        wrap64_def Let_def) (simp add: example_asset_def)
  have "set [scan_asset example_asset] \<subseteq>
      scan_asset ` {a \<in> set (protected_assets (db_seen calm resource_world)). a_organization_id a = ''o1''}"
    by (rule conjunct2 [OF conjunct1 [OF reads_stay_in_organization, THEN mp, OF run]])
  with run show ?thesis by auto
qed

text \<open>
  C32. Pages partition the list: for any requested limit - below 1 it becomes 20, above 100 it becomes 100 -
  over an unchanging database whose matching drills were created at different moments, the first \<open>n\<close> pages
  hold, one after the other, exactly the first \<open>n\<close> times page size drills of the organization that match the
  filters, newest first, each once, whenever and in whatever order the pages are requested. Each page is full
  until the rows end. A page number below 1 is the first page. The offset stays below \<open>2^63\<close>.
\<close>

theorem pages_partition:
  assumes "quiet e" and "distinct (map dr_created_at (drill_rows org status asset (w_db w)))"
    and "sz = nat (if limit < 1 then 20 else if 100 < limit then 100 else limit)"
    and "n * sz < 2 ^ 63" and "pg_text status" and "pg_text asset"
  shows "\<exists>pages. length pages = n \<and>
    (\<forall>k < n. \<forall>v. w_db v = w_db w \<longrightarrow>
       fst (run_state (ListDrills e org status asset (int k + 1) limit) v) = Inr (pages ! k) \<and>
       length (pages ! k) = min sz (length (drill_rows org status asset (w_db w)) - k * sz)) \<and>
    (\<forall>page \<le> 0. 0 < n \<longrightarrow> fst (run_state (ListDrills e org status asset page limit) w) = Inr (pages ! 0)) \<and>
    concat pages = take (n * sz)
      (map scan_drill (rev (sort_key dr_created_at (drill_rows org status asset (w_db w)))))"
proof -
  let ?rows = "drill_rows org status asset (w_db w)"
  let ?sorted = "map scan_drill (rev (sort_key dr_created_at ?rows))"
  let ?page = "\<lambda>k. take sz (drop (k * sz) ?sorted)"
  have sz: "sz = nat (page_size limit)" "int sz = page_size limit"
    using assms(3) page_size_range [of limit] by (simp_all add: page_size_def)
  have list: "fst (run_state (ListDrills e org status asset page limit) v) = Inr (?page k)"
    if "k < n" "page = int k + 1 \<or> page \<le> 0 \<and> k = 0" "w_db v = w_db w" for k page v
  proof -
    have "k * sz \<le> n * sz" using that(1) by simp
    then have "k * sz < 2 ^ 63" using assms(4) by linarith
    then have "int (k * sz) < int (2 ^ 63)" by (simp only: of_nat_less_iff)
    then have "int k * page_size limit < 2 ^ 63" using sz(2) by simp
    note exact = list_page_exact [OF this that(2)] order_by_unique [OF assms(2)]
    show ?thesis
      using assms(5,6) that(3) sz(1) by (simp add: ListDrills_def quiet_exec [OF assms(1)] take_map drop_map exact)
  qed
  let ?pages = "map ?page [0..<n]"
  have "concat ?pages = take (n * sz) ?sorted" by (rule sort_page)
  moreover have "length (?page k) = min sz (length ?rows - k * sz)" for k by simp
  ultimately show ?thesis
    using list by (intro exI [of _ ?pages]) simp
qed

text \<open>Two drills of different moments, in pages of one.\<close>

definition listed_drill :: "string \<Rightarrow> instant \<Rightarrow> drill_row" where
  "listed_drill i created = \<lparr>dr_id = i, dr_organization_id = ''o1'', dr_protected_asset_id = ''a1'',
     dr_backup_snapshot_id = None, dr_recovery_policy_id = None, dr_requested_by = ''u1'', dr_idempotency_key = i,
     dr_trigger_type = ''MANUAL'', dr_status = DrillQueued, dr_started_at = None, dr_completed_at = None,
     dr_measured_rpo_seconds = None, dr_measured_rto_seconds = None, dr_rpo_result = None, dr_rto_result = None,
     dr_recovery_status = None, dr_confidence = None, dr_summary = [], dr_created_at = created, dr_updated_at = created\<rparr>"

theorem pages_partition_witness:
  "\<exists>pages. length pages = 2 \<and>
    (\<forall>k < 2. fst (run_state (ListDrills calm ''o1'' [] [] (int k + 1) 1)
       (resource_world\<lparr>w_db := no_rows\<lparr>recovery_drills := [listed_drill ''d1'' 1, listed_drill ''d2'' 2]\<rparr>\<rparr>)) = Inr (pages ! k)) \<and>
    concat pages = [scan_drill (listed_drill ''d2'' 2), scan_drill (listed_drill ''d1'' 1)]"
proof -
  let ?w = "resource_world\<lparr>w_db := no_rows\<lparr>recovery_drills := [listed_drill ''d1'' 1, listed_drill ''d2'' 2]\<rparr>\<rparr>"
  have rows: "drill_rows ''o1'' [] [] (w_db ?w) = [listed_drill ''d1'' 1, listed_drill ''d2'' 2]"
    by (simp add: drill_rows_def listed_drill_def)
  have "distinct (map dr_created_at (drill_rows ''o1'' [] [] (w_db ?w)))"
    unfolding rows by (simp add: listed_drill_def)
  moreover have "pg_text []" using ascii_text [of "[]"] by simp
  moreover have "rev (sort_key dr_created_at [listed_drill ''d1'' 1, listed_drill ''d2'' 2]) = [listed_drill ''d2'' 2, listed_drill ''d1'' 1]"
    by (simp add: listed_drill_def)
  ultimately show ?thesis
    using pages_partition [OF quiet_calm, of "''o1''" "[]" "[]" ?w 1 1 2] unfolding rows by auto
qed

text \<open>Drills of the same moment have no order of their own: the first page of one statement and the second page
  of another can show the same drill, and neither the other.\<close>

lemma ties_repeat_row:
  assumes "created a = created b" and "ties (rid a) < ties (rid b)" and "ties' (rid b) < ties' (rid a)"
  shows "list_page ties rid created scan 1 1 [a, b] = Inr [scan a]"
    and "list_page ties' rid created scan 2 1 [a, b] = Inr [scan a]"
  using assms by (simp_all add: list_page_def pageValues_def page_query_def order_by_def wrap64_def)

text \<open>A page number beyond the \<open>int\<close> range of the offset wraps around: with a limit of 32, page
  \<open>2^59 + 1\<close> is the first page again.\<close>

lemma huge_page_wraps: "list_page ties rid created scan (2 ^ 59 + 1) 32 rows = list_page ties rid created scan 1 32 rows"
  by (simp add: list_page_def pageValues_def wrap64_def)

text \<open>
  C16. Drill requests are idempotent under any interference: when a request with an idempotency key
  has returned a drill, every later request of the organization with the same key, for whatever
  asset, snapshot or policy, returns the same drill and reports it as not created, or an error; and
  the organization has exactly one drill with the key.
\<close>

theorem create_drill_idempotent:
  assumes "keys_unique (w_db w)" and "key \<noteq> []" and "pr_OrganizationID p' = pr_OrganizationID p"
    and "run_state (CreateDrill e p asset snapshot policy key) w = (Inr (item, created), w1)"
    and "run_state (CreateDrill e p' asset' snapshot' policy' key) w1 = (Inr (item', created'), w2)"
  shows "d_ID item' = d_ID item \<and> \<not> created' \<and>
    length (filter (\<lambda>d. dr_organization_id d = pr_OrganizationID p \<and> dr_idempotency_key d = key) (recovery_drills (w_db w2))) = 1"
proof -
  let ?org = "pr_OrganizationID p" and ?w = "w1\<lparr>w_step := Suc (w_step w1)\<rparr>"
  have keys: "keys_unique (w_db w1)" "keys_unique (w_db w2)"
    using assms(1,4,5) keeps_run [OF CreateDrill_keeps_keys, of w e p asset snapshot policy key]
      keeps_run [OF CreateDrill_keeps_keys, of w1 e p' asset' snapshot' policy' key] by (simp_all add: on_db_def)
  have first: "keyed (d_ID item) ?org key (w_db w1)"
    using CreateDrill_result(1) [OF assms(2,4)] .
  then have "keyed (d_ID item) ?org key (w_db w2)"
    using keeps_run [OF CreateDrill_keeps_keyed, of "d_ID item" ?org key w1 e p' asset' snapshot' policy' key] assms(5)
    by (simp add: on_db_def)
  moreover have "keyed (d_ID item') ?org key (w_db w2)"
    using CreateDrill_result(1) [OF assms(2,5)] assms(3) by simp
  moreover have "keyed (d_ID item) ?org key (db_seen e ?w)"
    by (rule db_seen_keeps [OF others_keep_keyed]) (simp add: first)
  then have "\<not> created'" using CreateDrill_result(2) [OF assms(2,5)] assms(3) by auto
  moreover have "length (filter (\<lambda>d. dr_organization_id d = ?org \<and> dr_idempotency_key d = key) (recovery_drills (w_db w2))) = 1"
    using keyed_once [OF keys(2)] calculation(1) by blast
  ultimately show ?thesis using keyed_unique [OF keys(2)] by blast
qed

definition queued_drill :: drill_row where
  "queued_drill = \<lparr>dr_id = ''0123456789ab'', dr_organization_id = ''o1'', dr_protected_asset_id = ''a1'',
     dr_backup_snapshot_id = None, dr_recovery_policy_id = None, dr_requested_by = ''u1'', dr_idempotency_key = ''k1'',
     dr_trigger_type = ''MANUAL'', dr_status = DrillQueued, dr_started_at = None, dr_completed_at = None,
     dr_measured_rpo_seconds = None, dr_measured_rto_seconds = None, dr_rpo_result = None, dr_rto_result = None,
     dr_recovery_status = None, dr_confidence = None, dr_summary = [], dr_created_at = 1000000000000001,
     dr_updated_at = 1000000000000001\<rparr>"

lemma example_uuid [simp]: "uuid_form ''0123456789ab''"
  by (simp add: uuid_form_def is_alnum_def is_lower_def is_upper_def is_digit_def)

lemma example_create:
  obtains w1 w2 item where
    "run_state (CreateDrill calm example_principal ''a1'' [] [] ''k1'') resource_world = (Inr (item, True), w1)"
    "run_state (CreateDrill calm example_principal ''a2'' [] [] ''k1'') w1 = (Inr (item, False), w2)"
proof -
  have "pg_text ''k1'' \<and> length (runes ''k1'') = length ''k1''" by (rule ascii_text) simp_all
  note text_k1 = this
  define d where "d = queued_drill"
  define w1 where "w1 = resource_world\<lparr>w_step := 2, w_db := (w_db resource_world)\<lparr>recovery_drills := [d]\<rparr>\<rparr>"
  have first: "run_state (CreateDrill calm example_principal ''a1'' [] [] ''k1'') resource_world = (Inr (scan_new_drill d, True), w1)"
    using text_k1
    by (simp add: CreateDrill_def uuid_NewString_def calm_exec nullif_uuid_def insert_drill_def in_org_def
        resource_world_def account_tables_def example_asset_def example_principal_def Let_def no_rows_def d_def queued_drill_def w1_def)
  have "recovery_drills (w_db w1) = [d]" "dr_organization_id d = ''o1''" "dr_idempotency_key d = ''k1''"
    by (simp_all add: w1_def d_def queued_drill_def)
  then have "\<exists>w2. run_state (CreateDrill calm example_principal ''a2'' [] [] ''k1'') w1 = (Inr (scan_new_drill d, False), w2)"
    using text_k1
    by (simp add: CreateDrill_def uuid_NewString_def calm_exec nullif_uuid_def insert_drill_def example_principal_def
        query_row_def)
  then show ?thesis using that [OF first] by blast
qed

theorem create_drill_idempotent_witness:
  "\<exists>item w1 w2. run_state (CreateDrill calm example_principal ''a1'' [] [] ''k1'') resource_world = (Inr (item, True), w1) \<and>
     run_state (CreateDrill calm example_principal ''a2'' [] [] ''k1'') w1 = (Inr (item, False), w2) \<and>
     length (filter (\<lambda>d. dr_organization_id d = ''o1'' \<and> dr_idempotency_key d = ''k1'') (recovery_drills (w_db w2))) = 1"
proof -
  obtain w1 w2 item where run:
    "run_state (CreateDrill calm example_principal ''a1'' [] [] ''k1'') resource_world = (Inr (item, True), w1)"
    "run_state (CreateDrill calm example_principal ''a2'' [] [] ''k1'') w1 = (Inr (item, False), w2)"
    by (rule example_create)
  have "keys_unique (w_db resource_world)"
    by (simp add: keys_unique_def drill_keys_def resource_world_def account_tables_def no_rows_def)
  from create_drill_idempotent [OF this _ _ run] run show ?thesis by (auto simp: example_principal_def)
qed

text \<open>
  Cancellation is exact: \<open>CancelDrill\<close> succeeds only when the identifier names a drill of the
  caller's organization that is not in a terminal status, that drill is \<open>CANCELLED\<close> afterwards, and
  every other drill is as it was; when it reports \<open>pgx.ErrNoRows\<close> after a performed statement, no
  drill has changed. Terminal drills are never touched.
\<close>

theorem cancel_exact:
  assumes "run_state (CancelDrill e org id') w = (r, w')" and "fate_at e (w_step w) = Performed"
  shows "(r = None \<longrightarrow> (\<exists>did d. pg_uuid e id' = Some did \<and> d \<in> set (recovery_drills (db_seen e w)) \<and> dr_id d = did \<and>
      dr_organization_id d = org \<and> \<not> terminal (dr_status d))) \<and>
    (r \<noteq> None \<longrightarrow> recovery_drills (w_db w') = recovery_drills (db_seen e w)) \<and>
    list_all2 (\<lambda>d d'. d' = d \<or>
        (pg_uuid e id' = Some (dr_id d) \<and> dr_organization_id d = org \<and> \<not> terminal (dr_status d) \<and> dr_status d' = DrillCancelled \<and>
         dr_id d' = dr_id d))
      (recovery_drills (db_seen e w)) (recovery_drills (w_db w'))"
proof (cases "pg_uuid e id'")
  case None
  then show ?thesis
    using assms by (auto simp: CancelDrill_def exec_by_id_def run_db_exec Let_def list_all2_refl)
next
  case (Some did)
  let ?t = "db_seen e w"
  have db: "w_db w' = fst (cancel_drill org did (clock_at e (w_step w)) ?t)"
    and r: "r = (if rows_affected (cancel_where org did) (recovery_drills ?t) = 0 then Some ErrNoRows else None)"
    using assms Some by (auto simp: CancelDrill_def exec_by_id_def run_db_exec Let_def cancel_drill_def)
  have rows: "recovery_drills (w_db w') = update_where (cancel_where org did)
          (\<lambda>d. d\<lparr>dr_status := DrillCancelled, dr_completed_at := Some (clock_at e (w_step w)),
                dr_updated_at := clock_at e (w_step w), dr_summary := ''Cancelled by an authorized user''\<rparr>) (recovery_drills ?t)"
    by (simp add: db cancel_drill_def)
  have live: "cancel_where org did d \<Longrightarrow> dr_id d = did \<and> dr_organization_id d = org \<and> \<not> terminal (dr_status d)" for d
    by (auto simp: cancel_where_def)
  have "\<exists>d. d \<in> set (recovery_drills ?t) \<and> cancel_where org did d" if "r = None"
    using that r by (auto simp: rows_affected_def filter_empty_conv split: if_splits)
  moreover have "recovery_drills (w_db w') = recovery_drills ?t" if "r \<noteq> None"
    using that r by (auto simp: rows rows_affected_def update_where_def filter_empty_conv map_idI split: if_splits)
  ultimately show ?thesis
    using live Some by (auto simp: rows update_where_def list_all2_map2 intro!: list_all2_refl)
qed

lemma CancelDrill_row:
  assumes "keys_unique (w_db w)" and "run_state (CancelDrill e org id') w = (None, w')"
  shows "\<exists>did d. pg_uuid e id' = Some did \<and> d \<in> set (recovery_drills (db_seen e w)) \<and> dr_id d = did \<and>
    dr_organization_id d = org \<and> \<not> terminal (dr_status d) \<and>
    drill_by_id (w_db w') did =
      Some (d\<lparr>dr_status := DrillCancelled, dr_completed_at := Some (clock_at e (w_step w)),
              dr_updated_at := clock_at e (w_step w), dr_summary := ''Cancelled by an authorized user''\<rparr>)"
proof -
  let ?t = "db_seen e w" let ?now = "clock_at e (w_step w)"
  have unique: "keys_unique ?t" by (rule db_seen_keeps [OF others_keep_keys assms(1)])
  obtain did n where did: "pg_uuid e id' = Some did" and n: "0 < n"
      and stmt: "cancel_drill org did ?now ?t = (w_db w', Inr n)"
    using assms(2) by (auto simp: CancelDrill_def exec_by_id_def run_db_exec Let_def cancel_drill_def
        split: option.splits fate.splits if_splits)
  then obtain d where d: "d \<in> set (recovery_drills ?t)" "cancel_where org did d"
    by (auto simp: cancel_drill_def rows_affected_def filter_empty_conv)
  then have ids: "dr_id d = did" "dr_organization_id d = org" "\<not> terminal (dr_status d)"
    by (auto simp: cancel_where_def)
  have "drill_by_id ?t did = Some d"
    using unique d(1) ids(1) row_with_unique [of dr_id "recovery_drills ?t" d] by (simp add: keys_unique_iff drill_by_id_def)
  moreover have "recovery_drills (w_db w') = update_where (cancel_where org did)
      (\<lambda>d. d\<lparr>dr_status := DrillCancelled, dr_completed_at := Some ?now, dr_updated_at := ?now,
            dr_summary := ''Cancelled by an authorized user''\<rparr>) (recovery_drills ?t)"
    using arg_cong [OF stmt, of "recovery_drills \<circ> fst"] by (simp add: cancel_drill_def)
  ultimately have "drill_by_id (w_db w') did = Some (d\<lparr>dr_status := DrillCancelled, dr_completed_at := Some ?now,
      dr_updated_at := ?now, dr_summary := ''Cancelled by an authorized user''\<rparr>)"
    using d(2) by (simp add: drill_by_id_def row_with_update_where)
  with did d(1) ids show ?thesis by blast
qed

theorem cancel_exact_witness:
  "\<exists>w'. run_state (CancelDrill calm ''o1'' ''0123456789ab'') (idle\<lparr>w_db := no_rows\<lparr>recovery_drills := [queued_drill]\<rparr>\<rparr>) = (None, w') \<and>
     list_all2 (\<lambda>d d'. d' = d \<or> (dr_organization_id d = ''o1'' \<and> dr_status d' = DrillCancelled))
       [queued_drill] (recovery_drills (w_db w'))"
proof -
  let ?w = "idle\<lparr>w_db := no_rows\<lparr>recovery_drills := [queued_drill]\<rparr>\<rparr>"
  obtain w' where run: "run_state (CancelDrill calm ''o1'' ''0123456789ab'') ?w = (None, w')"
    by (simp add: CancelDrill_def exec_by_id_def calm_exec cancel_drill_def rows_affected_def cancel_where_def queued_drill_def)
  have "recovery_drills (db_seen calm ?w) = [queued_drill]" by (simp add: db_seen_def calm_interleave)
  with cancel_exact [OF run] run show ?thesis by (auto elim!: list_all2_mono)
qed

lemma insert_policy_Inr:
  assumes "insert_policy e org item i now t = (t', Inr x)"
  shows "\<exists>p. p \<in> set (recovery_policies t') \<and> p_id p = x \<and> p_organization_id p = org \<and>
    p_rpo_target_seconds p = po_RPOTargetSeconds item \<and> p_rto_target_seconds p = po_RTOTargetSeconds item \<and>
    in_org a_organization_id org a_id (p_protected_asset_id p) (protected_assets t')"
proof -
  obtain asset where asset: "in_org a_organization_id org a_id asset (protected_assets t)"
    and t': "x = i" "t' = t\<lparr>recovery_policies := recovery_policies t @
        [\<lparr>p_id = i, p_organization_id = org, p_name = po_Name item, p_protected_asset_id = asset,
          p_rpo_target_seconds = po_RPOTargetSeconds item, p_rto_target_seconds = po_RTOTargetSeconds item,
          p_schedule = po_Schedule item, p_required_validations = JArr [], p_enabled = True, p_created_at = now\<rparr>]\<rparr>"
    using assms by (auto simp: insert_policy_def split: option.splits if_splits)
  let ?p = "last (recovery_policies t')"
  have "?p \<in> set (recovery_policies t') \<and> p_id ?p = x \<and> p_organization_id ?p = org \<and>
    p_rpo_target_seconds ?p = po_RPOTargetSeconds item \<and> p_rto_target_seconds ?p = po_RTOTargetSeconds item \<and>
    in_org a_organization_id org a_id (p_protected_asset_id ?p) (protected_assets t')"
    using asset t' by simp
  then show ?thesis by blast
qed

text \<open>
  Targets are bounded: \<open>CreatePolicy\<close> refuses an RPO target outside 1 second to 365 days and an RTO
  target outside 1 second to 7 days before it reaches the database; a policy it creates has
  targets within these bounds, belongs to the caller's organization and protects an asset of it.
\<close>

theorem policy_bounds:
  "(po_RPOTargetSeconds item \<notin> {1..31536000} \<or> po_RTOTargetSeconds item \<notin> {1..604800} \<longrightarrow>
      run_state (CreatePolicy e org item) w = (Inl (Errorf ''invalid RPO/RTO target''), w)) \<and>
   (run_state (CreatePolicy e org item) w = (Inr created, w') \<longrightarrow>
      (\<exists>p. p \<in> set (recovery_policies (w_db w')) \<and> p_id p = po_ID created \<and> p_organization_id p = org \<and>
         p_rpo_target_seconds p \<in> {1..31536000} \<and> p_rto_target_seconds p \<in> {1..604800} \<and>
         in_org a_organization_id org a_id (p_protected_asset_id p) (protected_assets (w_db w'))))"
proof (intro conjI impI)
  show "run_state (CreatePolicy e org item) w = (Inl (Errorf ''invalid RPO/RTO target''), w)"
    if "po_RPOTargetSeconds item \<notin> {1..31536000} \<or> po_RTOTargetSeconds item \<notin> {1..604800}"
    using that by (auto simp: CreatePolicy_def)
next
  assume run: "run_state (CreatePolicy e org item) w = (Inr created, w')"
  then have bounds: "po_RPOTargetSeconds item \<in> {1..31536000}" "po_RTOTargetSeconds item \<in> {1..604800}"
    by (auto simp: CreatePolicy_def split: if_splits)
  let ?w = "w\<lparr>w_step := Suc (w_step w)\<rparr>"
  obtain r w1 where exec: "run_state (db_exec e None (insert_policy e org item (uuid_at e (w_step w)))) ?w = (r, w1)" by fastforce
  then obtain i where r: "r = Inr i" and c: "po_ID created = i" "w' = w1"
    using run bounds by (cases r) (auto simp: CreatePolicy_def uuid_NewString_def)
  show "\<exists>p. p \<in> set (recovery_policies (w_db w')) \<and> p_id p = po_ID created \<and> p_organization_id p = org \<and>
         p_rpo_target_seconds p \<in> {1..31536000} \<and> p_rto_target_seconds p \<in> {1..604800} \<and>
         in_org a_organization_id org a_id (p_protected_asset_id p) (protected_assets (w_db w'))"
    using insert_policy_Inr [OF exec_db(1) [OF exec [unfolded r]]] c bounds by auto
qed

theorem policy_bounds_witness:
  "run_state (CreatePolicy calm ''o1'' \<lparr>po_ID = [], po_Name = ''p'', po_ProtectedAssetID = ''a1'', po_RPOTargetSeconds = 0,
     po_RTOTargetSeconds = 60, po_Schedule = ''DAILY'', po_Enabled = False\<rparr>) resource_world =
     (Inl (Errorf ''invalid RPO/RTO target''), resource_world)"
  by (rule conjunct1 [OF policy_bounds, THEN mp]) simp

end
