(* ===== verification/Http_Requests.thy ===== *)
theory Http_Requests
  imports Resources Report
begin

text \<open>
  The vocabulary of the HTTP interface (\<open>httpapi/server.go\<close>, \<open>httpapi/handlers.go\<close>): requests and
  replies, the JSON documents of the API, the strict decoding of request bodies, the checks on
  names and the query parameters of the lists.

  A request carries what \<open>net/http\<close> has parsed: the method, the segments of the clean path (a path
  that is not clean is redirected before routing), the query, the headers under their canonical
  names, the cookies and the body as a reader, and the peer's address as \<open>remoteIP\<close> reads it;
  \<open>rq_Flusher\<close> says whether the connection can be flushed, \<open>rq_Stream\<close> is the schedule of an event
  stream, and \<open>rq_requestID\<close> is the identifier the middleware puts into the context. A reply is what a handler has written; the body of
  a JSON reply is the JSON value. A handler that panics has no reply.
\<close>

text \<open>
  What an event stream sees next: the client is gone, the heartbeat ticks, the channel has something
  to receive, another goroutine publishes an event, or the hub is closed at shutdown.
\<close>

datatype wake = ClientGone | Heartbeat | Received | Elsewhere Event | Shutdown

record request =
  rq_Method :: string
  rq_Path :: "string list"
  rq_Query :: "(string \<times> string) list"
  rq_Header :: "(string \<times> string) list"
  rq_Cookies :: "(string \<times> string) list"
  rq_Body :: reader
  rq_RemoteIP :: "string option"
  rq_requestID :: string
  rq_Flusher :: bool
  rq_Stream :: "wake list"

record cookie =
  ck_Name :: string
  ck_Value :: string
  ck_HttpOnly :: bool
  ck_Secure :: bool
  ck_SameSiteStrict :: bool
  ck_MaxAge :: int

datatype body = NoBody | Json json | Raw bytes

record reply =
  re_Status :: nat
  re_Header :: "(string \<times> string) list"
  re_Cookies :: "cookie list"
  re_Body :: body

record Server =
  sv_cookieSecure :: bool
  sv_corsOrigin :: string

text \<open>\<open>Header.Get\<close> and \<open>url.Values.Get\<close>: the first value, or the empty string.\<close>

definition get_first :: "(string \<times> string) list \<Rightarrow> string \<Rightarrow> string" where
  "get_first kvs k = coalesce (map_of kvs k)"

abbreviation header_get :: "request \<Rightarrow> string \<Rightarrow> string" where
  "header_get r k \<equiv> get_first (rq_Header r) k"

abbreviation query_get :: "request \<Rightarrow> string \<Rightarrow> string" where
  "query_get r k \<equiv> get_first (rq_Query r) k"


section \<open>Replies\<close>

definition writeJSON :: "nat \<Rightarrow> json \<Rightarrow> reply" where
  "writeJSON status v =
     \<lparr>re_Status = status, re_Header = [(''Content-Type'', ''application/json'')], re_Cookies = [], re_Body = Json v\<rparr>"

definition writeError :: "request \<Rightarrow> nat \<Rightarrow> string \<Rightarrow> string \<Rightarrow> reply" where
  "writeError r status code message =
     writeJSON status (JObj [(''error'', JObj [(''code'', JStr code), (''message'', JStr message),
       (''requestId'', JStr (rq_requestID r))])])"

definition write_status :: "nat \<Rightarrow> reply" where
  "write_status status = \<lparr>re_Status = status, re_Header = [], re_Cookies = [], re_Body = NoBody\<rparr>"

definition dbError :: "request \<Rightarrow> go_error \<Rightarrow> reply" where
  "dbError r er =
     (if errors_Is er ErrNoRows
      then writeError r 404 ''NOT_FOUND'' ''The requested resource was not found.''
      else writeError r 500 ''INTERNAL_ERROR'' ''The request could not be completed.'')"


section \<open>JSON documents\<close>

text \<open>The fields of the structures under their JSON names. \<open>omitempty\<close> drops null pointers and
  empty strings; a nil slice is \<open>null\<close>.\<close>

definition time_json :: "env \<Rightarrow> instant \<Rightarrow> json" where
  "time_json e x = JStr (json_time e x)"

definition opt_json :: "('a \<Rightarrow> json) \<Rightarrow> 'a option \<Rightarrow> json" where
  "opt_json f x = (case x of None \<Rightarrow> JNull | Some v \<Rightarrow> f v)"

definition omitempty :: "string \<Rightarrow> ('a \<Rightarrow> json) \<Rightarrow> 'a option \<Rightarrow> (string \<times> json) list" where
  "omitempty k f x = (case x of None \<Rightarrow> [] | Some v \<Rightarrow> [(k, f v)])"

definition principal_json :: "Principal \<Rightarrow> json" where
  "principal_json p =
     JObj [(''UserID'', JStr (pr_UserID p)), (''OrganizationID'', JStr (pr_OrganizationID p)),
       (''Email'', JStr (pr_Email p)), (''DisplayName'', JStr (pr_DisplayName p)),
       (''Roles'', if pr_Roles p = [] then JNull else JArr (map JStr (pr_Roles p)))]"

definition asset_json :: "env \<Rightarrow> Asset \<Rightarrow> json" where
  "asset_json e a =
     JObj [(''id'', JStr (as_ID a)), (''name'', JStr (as_Name a)), (''type'', JStr (as_Type a)),
       (''environment'', JStr (as_Environment a)), (''criticality'', JStr (as_Criticality a)),
       (''ownerName'', JStr (as_OwnerName a)), (''team'', JStr (as_Team a)),
       (''description'', JStr (as_Description a)), (''enabled'', JBool (as_Enabled a)),
       (''createdAt'', time_json e (as_CreatedAt a))]"

definition source_json :: "env \<Rightarrow> Source \<Rightarrow> json" where
  "source_json e s =
     JObj [(''id'', JStr (so_ID s)), (''name'', JStr (so_Name s)), (''type'', JStr (so_Type s)),
       (''environment'', JStr (so_Environment s)), (''description'', JStr (so_Description s)),
       (''enabled'', JBool (so_Enabled s)), (''lastDiscoveryStatus'', opt_json JStr (so_LastDiscoveryStatus s)),
       (''createdAt'', time_json e (so_CreatedAt s))]"

definition policy_json :: "Policy \<Rightarrow> json" where
  "policy_json p =
     JObj [(''id'', JStr (po_ID p)), (''name'', JStr (po_Name p)), (''protectedAssetId'', JStr (po_ProtectedAssetID p)),
       (''rpoTargetSeconds'', JNum (po_RPOTargetSeconds p)), (''rtoTargetSeconds'', JNum (po_RTOTargetSeconds p)),
       (''schedule'', JStr (po_Schedule p)), (''enabled'', JBool (po_Enabled p))]"

definition drill_json :: "env \<Rightarrow> RecoveryDrill \<Rightarrow> json" where
  "drill_json e d =
     JObj ([(''id'', JStr (d_ID d)), (''organizationId'', JStr (d_OrganizationID d)),
       (''protectedAssetId'', JStr (d_ProtectedAssetID d)), (''backupSnapshotId'', JStr (d_BackupSnapshotID d)),
       (''recoveryPolicyId'', JStr (d_RecoveryPolicyID d)), (''requestedBy'', JStr (d_RequestedBy d)),
       (''triggerType'', JStr (d_TriggerType d)), (''status'', JStr (status_string (d_Status d)))] @
      omitempty ''startedAt'' (time_json e) (d_StartedAt d) @
      omitempty ''completedAt'' (time_json e) (d_CompletedAt d) @
      omitempty ''measuredRpoSeconds'' JNum (d_MeasuredRPOSeconds d) @
      omitempty ''measuredRtoSeconds'' JNum (d_MeasuredRTOSeconds d) @
      omitempty ''rpoResult'' (\<lambda>x. JStr (policy_string x)) (if d_RPOResult d = PolicyUnset then None else Some (d_RPOResult d)) @
      omitempty ''rtoResult'' (\<lambda>x. JStr (policy_string x)) (if d_RTOResult d = PolicyUnset then None else Some (d_RTOResult d)) @
      omitempty ''recoveryStatus'' (\<lambda>x. JStr (assessment_string x)) (d_RecoveryStatus d) @
      omitempty ''confidence'' (\<lambda>x. JStr (confidence_string x)) (d_Confidence d) @
      [(''summary'', JStr (d_Summary d)), (''createdAt'', time_json e (d_CreatedAt d)),
       (''updatedAt'', time_json e (d_UpdatedAt d))])"

definition page_json :: "('a \<Rightarrow> json) \<Rightarrow> 'a list \<Rightarrow> int64 \<Rightarrow> int64 \<Rightarrow> json" where
  "page_json f items page limit =
     JObj [(''data'', JArr (map f items)), (''page'', JNum page), (''limit'', JNum limit)]"


section \<open>Request bodies\<close>

text \<open>
  \<open>http.MaxBytesReader\<close> with a limit of 1 MiB, then \<open>json.Decoder\<close> with \<open>DisallowUnknownFields\<close>.
  A key of the document belongs to the field of that name, or else to the first field whose name
  folds to the same; a key without a field is an error. \<open>null\<close> leaves a field as it is, except a
  pointer, which it clears. A document that is \<open>null\<close> decodes to the zero value.
\<close>

definition max_body :: nat where
  "max_body = 2 ^ 20"

definition MaxBytesReader :: "reader \<Rightarrow> reader" where
  "MaxBytesReader rd =
     (if length (r_data rd) > max_body
      then \<lparr>r_data = take max_body (r_data rd), r_err = Some (Errorf ''http: request body too large'')\<rparr>
      else rd)"

definition string_field :: "(string \<Rightarrow> 'a \<Rightarrow> 'a) \<Rightarrow> json \<Rightarrow> 'a \<Rightarrow> 'a option" where
  "string_field f v x = (case v of JStr s \<Rightarrow> Some (f s x) | JNull \<Rightarrow> Some x | _ \<Rightarrow> None)"

definition pointer_field :: "(string option \<Rightarrow> 'a \<Rightarrow> 'a) \<Rightarrow> json \<Rightarrow> 'a \<Rightarrow> 'a option" where
  "pointer_field f v x = (case v of JStr s \<Rightarrow> Some (f (Some s) x) | JNull \<Rightarrow> Some (f None x) | _ \<Rightarrow> None)"

definition bool_field :: "(bool \<Rightarrow> 'a \<Rightarrow> 'a) \<Rightarrow> json \<Rightarrow> 'a \<Rightarrow> 'a option" where
  "bool_field f v x = (case v of JBool b \<Rightarrow> Some (f b x) | JNull \<Rightarrow> Some x | _ \<Rightarrow> None)"

definition int64_field :: "(int64 \<Rightarrow> 'a \<Rightarrow> 'a) \<Rightarrow> json \<Rightarrow> 'a \<Rightarrow> 'a option" where
  "int64_field f v x =
     (case v of JNum n \<Rightarrow> if int64_range n then Some (f n x) else None | JNull \<Rightarrow> Some x | _ \<Rightarrow> None)"

definition time_field :: "env \<Rightarrow> (instant \<Rightarrow> 'a \<Rightarrow> 'a) \<Rightarrow> json \<Rightarrow> 'a \<Rightarrow> 'a option" where
  "time_field e f v x =
     (case v of JStr s \<Rightarrow> map_option (\<lambda>i. f i x) (parse_time e s) | JNull \<Rightarrow> Some x | _ \<Rightarrow> None)"

type_synonym 'a fields = "(string \<times> (json \<Rightarrow> 'a \<Rightarrow> 'a option)) list"

definition field_for :: "env \<Rightarrow> 'a fields \<Rightarrow> string \<Rightarrow> (json \<Rightarrow> 'a \<Rightarrow> 'a option) option" where
  "field_for e fs k =
     (case map_of fs k of
        Some f \<Rightarrow> Some f
      | None \<Rightarrow> map_option snd (find (\<lambda>(name, _). EqualFold (rune_fold e) name k) fs))"

fun decode_object :: "env \<Rightarrow> 'a fields \<Rightarrow> (string \<times> json) list \<Rightarrow> 'a \<Rightarrow> 'a option" where
  "decode_object e fs [] x = Some x"
| "decode_object e fs ((k, v) # kvs) x =
     (case field_for e fs k of
        None \<Rightarrow> None
      | Some f \<Rightarrow> (case f v x of None \<Rightarrow> None | Some y \<Rightarrow> decode_object e fs kvs y))"

definition decode :: "env \<Rightarrow> 'a fields \<Rightarrow> 'a \<Rightarrow> request \<Rightarrow> 'a option" where
  "decode e fs zero r =
     (case json_first (MaxBytesReader (rq_Body r)) of
        Some (JObj kvs) \<Rightarrow> decode_object e fs kvs zero
      | Some JNull \<Rightarrow> Some zero
      | _ \<Rightarrow> None)"

definition asset_fields :: "env \<Rightarrow> Asset fields" where
  "asset_fields e =
     [(''id'', string_field (\<lambda>s. as_ID_update (\<lambda>_. s))), (''name'', string_field (\<lambda>s. as_Name_update (\<lambda>_. s))),
      (''type'', string_field (\<lambda>s. as_Type_update (\<lambda>_. s))), (''environment'', string_field (\<lambda>s. as_Environment_update (\<lambda>_. s))),
      (''criticality'', string_field (\<lambda>s. as_Criticality_update (\<lambda>_. s))), (''ownerName'', string_field (\<lambda>s. as_OwnerName_update (\<lambda>_. s))),
      (''team'', string_field (\<lambda>s. as_Team_update (\<lambda>_. s))), (''description'', string_field (\<lambda>s. as_Description_update (\<lambda>_. s))),
      (''enabled'', bool_field (\<lambda>b. as_Enabled_update (\<lambda>_. b))), (''createdAt'', time_field e (\<lambda>i. as_CreatedAt_update (\<lambda>_. i)))]"

definition source_fields :: "env \<Rightarrow> Source fields" where
  "source_fields e =
     [(''id'', string_field (\<lambda>s. so_ID_update (\<lambda>_. s))), (''name'', string_field (\<lambda>s. so_Name_update (\<lambda>_. s))),
      (''type'', string_field (\<lambda>s. so_Type_update (\<lambda>_. s))), (''environment'', string_field (\<lambda>s. so_Environment_update (\<lambda>_. s))),
      (''description'', string_field (\<lambda>s. so_Description_update (\<lambda>_. s))), (''enabled'', bool_field (\<lambda>b. so_Enabled_update (\<lambda>_. b))),
      (''lastDiscoveryStatus'', pointer_field (\<lambda>s. so_LastDiscoveryStatus_update (\<lambda>_. s))),
      (''createdAt'', time_field e (\<lambda>i. so_CreatedAt_update (\<lambda>_. i)))]"

definition policy_fields :: "Policy fields" where
  "policy_fields =
     [(''id'', string_field (\<lambda>s. po_ID_update (\<lambda>_. s))), (''name'', string_field (\<lambda>s. po_Name_update (\<lambda>_. s))),
      (''protectedAssetId'', string_field (\<lambda>s. po_ProtectedAssetID_update (\<lambda>_. s))),
      (''rpoTargetSeconds'', int64_field (\<lambda>n. po_RPOTargetSeconds_update (\<lambda>_. n))),
      (''rtoTargetSeconds'', int64_field (\<lambda>n. po_RTOTargetSeconds_update (\<lambda>_. n))),
      (''schedule'', string_field (\<lambda>s. po_Schedule_update (\<lambda>_. s))), (''enabled'', bool_field (\<lambda>b. po_Enabled_update (\<lambda>_. b)))]"

definition zero_asset :: Asset where
  "zero_asset = \<lparr>as_ID = [], as_Name = [], as_Type = [], as_Environment = [], as_Criticality = [],
     as_OwnerName = [], as_Team = [], as_Description = [], as_Enabled = False, as_CreatedAt = 0\<rparr>"

definition zero_source :: Source where
  "zero_source = \<lparr>so_ID = [], so_Name = [], so_Type = [], so_Environment = [], so_Description = [],
     so_Enabled = False, so_LastDiscoveryStatus = None, so_CreatedAt = 0\<rparr>"

definition zero_policy :: Policy where
  "zero_policy = \<lparr>po_ID = [], po_Name = [], po_ProtectedAssetID = [], po_RPOTargetSeconds = 0,
     po_RTOTargetSeconds = 0, po_Schedule = [], po_Enabled = False\<rparr>"

text \<open>The anonymous structures of \<open>login\<close>, \<open>password\<close> and \<open>drills\<close> have string fields only.\<close>

record login_input =
  li_Email :: string
  li_Password :: string

record password_input =
  pi_CurrentPassword :: string
  pi_NewPassword :: string

record drill_input =
  di_ProtectedAssetID :: string
  di_BackupSnapshotID :: string
  di_RecoveryPolicyID :: string

definition login_fields :: "login_input fields" where
  "login_fields =
     [(''email'', string_field (\<lambda>s. li_Email_update (\<lambda>_. s))), (''password'', string_field (\<lambda>s. li_Password_update (\<lambda>_. s)))]"

definition password_fields :: "password_input fields" where
  "password_fields =
     [(''currentPassword'', string_field (\<lambda>s. pi_CurrentPassword_update (\<lambda>_. s))),
      (''newPassword'', string_field (\<lambda>s. pi_NewPassword_update (\<lambda>_. s)))]"

definition drill_fields :: "drill_input fields" where
  "drill_fields =
     [(''protectedAssetId'', string_field (\<lambda>s. di_ProtectedAssetID_update (\<lambda>_. s))),
      (''backupSnapshotId'', string_field (\<lambda>s. di_BackupSnapshotID_update (\<lambda>_. s))),
      (''recoveryPolicyId'', string_field (\<lambda>s. di_RecoveryPolicyID_update (\<lambda>_. s)))]"


section \<open>Checks on the input\<close>

text \<open>\<open>validName\<close>: a letter or number, then 1 to 159 letters, numbers or characters of a fixed set.
  The classes \<open>pL\<close> and \<open>pN\<close> are explicit on ASCII.\<close>

definition name_start :: "env \<Rightarrow> nat \<Rightarrow> bool" where
  "name_start e r = (if r < 128 then is_alnum (char_of r) else letter_number e r)"

definition name_rune :: "env \<Rightarrow> nat \<Rightarrow> bool" where
  "name_rune e r = (name_start e r \<or> (r < 128 \<and> char_of r \<in> set '' ._:/()'' \<union> {CHR 0x27, CHR ''-''}))"

definition validName :: "env \<Rightarrow> string \<Rightarrow> bool" where
  "validName e s =
     (case runes s of
        [] \<Rightarrow> False
      | r # rs \<Rightarrow> name_start e r \<and> list_all (name_rune e) rs \<and> 1 \<le> length rs \<and> length rs \<le> 159)"

definition pagination :: "request \<Rightarrow> int64 \<times> int64" where
  "pagination r =
     (let page = Atoi (query_get r ''page''); limit = Atoi (query_get r ''limit'')
      in (if page < 1 then 1 else page, if limit < 1 then 20 else limit))"

text \<open>\<open>time.Duration(*value) * time.Second\<close> wraps.\<close>

definition seconds_text :: "int64 option \<Rightarrow> string" where
  "seconds_text v = (case v of None \<Rightarrow> ''INCONCLUSIVE'' | Some n \<Rightarrow> Duration_String (wrap64 (n * time_Second)))"

definition validateCSRF :: "env \<Rightarrow> string \<Rightarrow> bytes \<Rightarrow> bool" where
  "validateCSRF e v hash = (sha256 e v = hash)"

end
