(* ===== verification/Http_Handlers.thy ===== *)
theory Http_Handlers
  imports Http_Requests
begin

text \<open>
  The handlers of the HTTP interface (\<open>httpapi/handlers.go\<close>), one definition per handler. A handler
  behind the authentication middleware takes the principal, the \<open>{id}\<close> of the path and the request;
  its result is the reply, or \<open>None\<close> when it panics. Errors of the audit log are ignored, as in the
  code.
\<close>

type_synonym handler = "env \<Rightarrow> Server \<Rightarrow> Principal \<Rightarrow> string \<Rightarrow> request \<Rightarrow> reply option program"

abbreviation respond :: "reply \<Rightarrow> reply option program" where
  "respond x \<equiv> State_Monad.return (Some x)"

definition audit_then :: "env \<Rightarrow> Principal \<Rightarrow> string \<Rightarrow> string \<Rightarrow> string \<Rightarrow> string \<Rightarrow> request \<Rightarrow> reply \<Rightarrow> reply option program" where
  "audit_then e p event resourceType resourceID metadata r x = do {
     _ \<leftarrow> Audit e p event resourceType resourceID metadata (rq_RemoteIP r);
     respond x
   }"


section \<open>Accounts\<close>

definition session_cookie_name :: string where
  "session_cookie_name = ''restoreguard_session''"

definition csrf_cookie_name :: string where
  "csrf_cookie_name = ''restoreguard_csrf''"

definition set_cookie :: "Server \<Rightarrow> string \<Rightarrow> string \<Rightarrow> bool \<Rightarrow> int \<Rightarrow> cookie" where
  "set_cookie sv name v httpOnly maxAge =
     \<lparr>ck_Name = name, ck_Value = v, ck_HttpOnly = httpOnly, ck_Secure = sv_cookieSecure sv,
      ck_SameSiteStrict = True, ck_MaxAge = maxAge\<rparr>"

definition login_handler :: "env \<Rightarrow> Server \<Rightarrow> request \<Rightarrow> reply option program" where
  "login_handler e sv r =
     (case decode e login_fields \<lparr>li_Email = [], li_Password = []\<rparr> r of
        None \<Rightarrow> respond (writeError r 400 ''VALIDATION_ERROR'' ''A valid email and password are required.'')
      | Some input \<Rightarrow> do {
          res \<leftarrow> Login e (TrimSpace (li_Email input)) (li_Password input) (12 * 60 * time_Minute);
          case res of
            None \<Rightarrow> State_Monad.return None
          | Some (Inl _) \<Rightarrow> respond (writeError r 401 ''INVALID_CREDENTIALS'' ''Email or password is invalid.'')
          | Some (Inr (p, token, csrf)) \<Rightarrow>
              audit_then e p ''auth.login'' ''session'' [] ''{}'' r
                ((writeJSON 200 (JObj [(''user'', principal_json p), (''csrfToken'', JStr csrf), (''expiresIn'', JNum 43200)]))
                  \<lparr>re_Cookies := [set_cookie sv session_cookie_name token True 43200,
                                set_cookie sv csrf_cookie_name csrf False 43200]\<rparr>)
        })"

definition logout_handler :: handler where
  "logout_handler e sv p i r = do {
     _ \<leftarrow> (case map_of (rq_Cookies r) session_cookie_name of
            Some token \<Rightarrow> Revoke e token
          | None \<Rightarrow> State_Monad.return (Inr ()));
     audit_then e p ''auth.logout'' ''session'' [] ''{}'' r
       ((write_status 204)\<lparr>re_Cookies := [set_cookie sv session_cookie_name [] True (- 1),
                                      set_cookie sv csrf_cookie_name [] False (- 1)]\<rparr>)
   }"

definition session_handler :: handler where
  "session_handler e sv p i r = respond (writeJSON 200 (JObj [(''user'', principal_json p)]))"

definition password_handler :: handler where
  "password_handler e sv p i r =
     (case decode e password_fields \<lparr>pi_CurrentPassword = [], pi_NewPassword = []\<rparr> r of
        None \<Rightarrow> respond (writeError r 400 ''VALIDATION_ERROR'' ''Password request is invalid.'')
      | Some input \<Rightarrow> do {
          res \<leftarrow> ChangePassword e p (pi_CurrentPassword input) (pi_NewPassword input);
          case res of
            None \<Rightarrow> State_Monad.return None
          | Some (Inl er) \<Rightarrow> respond (writeError r 400 ''PASSWORD_CHANGE_FAILED'' (error_string er))
          | Some (Inr _) \<Rightarrow> respond (write_status 204)
        })"


section \<open>Assets, sources and policies\<close>

text \<open>Go's integer division truncates.\<close>

definition go_div :: "int64 \<Rightarrow> int64 \<Rightarrow> int64" where
  "go_div x y = (if x < 0 then - ((- x) div y) else x div y)"

definition coverage_percent :: "int64 \<Rightarrow> int64 \<Rightarrow> int64" where
  "coverage_percent verified protected =
     (if protected > 0 then go_div (wrap64 (verified * 100)) protected else 0)"

text \<open>Verified assets that are disabled count above the line only.\<close>

lemma coverage_above_100: "coverage_percent 2 1 = 200"
  by (simp add: coverage_percent_def go_div_def wrap64_def)

definition overview_handler :: handler where
  "overview_handler e sv p i r = do {
     res \<leftarrow> Overview e (pr_OrganizationID p);
     case res of
       Inl er \<Rightarrow> respond (dbError r er)
     | Inr v \<Rightarrow>
         (let get = (\<lambda>k. case map_of v k of None \<Rightarrow> 0 | Some n \<Rightarrow> n);
              data = v @ [(''recoveryCoveragePercent'', coverage_percent (get ''verifiedAssets'') (get ''protectedAssets''))]
          in respond (writeJSON 200 (JObj [(''data'', JObj (map (\<lambda>(k, n). (k, JNum n)) data)),
               (''coverageExplanation'', JStr ''Assets with a VERIFIED drill divided by enabled protected assets; this is not a safety guarantee.'')])))
   }"

definition list_reply :: "request \<Rightarrow> ('a \<Rightarrow> json) \<Rightarrow> int64 \<Rightarrow> int64 \<Rightarrow> 'a list result \<Rightarrow> reply" where
  "list_reply r f page limit res =
     (case res of
        Inl er \<Rightarrow> dbError r er
      | Inr items \<Rightarrow> writeJSON 200 (page_json f items page limit))"

definition assets_handler :: handler where
  "assets_handler e sv p i r =
     (if rq_Method r = ''GET'' then do {
        let (page, limit) = pagination r;
        res \<leftarrow> ListAssets e (pr_OrganizationID p) (query_get r ''search'') page limit;
        respond (list_reply r (asset_json e) page limit res)
      }
      else case decode e (asset_fields e) zero_asset r of
          None \<Rightarrow> respond (writeError r 400 ''VALIDATION_ERROR'' ''Protected asset input is invalid.'')
        | Some item \<Rightarrow>
            if \<not> validName e (as_Name item)
            then respond (writeError r 400 ''VALIDATION_ERROR'' ''Protected asset input is invalid.'')
            else if as_Type item \<notin> {''POSTGRESQL_DATABASE'', ''FILESYSTEM'', ''APPLICATION_DATASET''} \<or>
                    as_Criticality item \<notin> {''LOW'', ''MEDIUM'', ''HIGH'', ''CRITICAL''}
            then respond (writeError r 400 ''VALIDATION_ERROR'' ''Asset type or criticality is invalid.'')
            else do {
              res \<leftarrow> CreateAsset e (pr_OrganizationID p) item;
              case res of
                Inl er \<Rightarrow> respond (dbError r er)
              | Inr created \<Rightarrow>
                  audit_then e p ''protected_asset.created'' ''protected_asset'' (as_ID created) ''{}'' r
                    (writeJSON 201 (asset_json e created))
            })"

definition asset_handler :: handler where
  "asset_handler e sv p i r = do {
     res \<leftarrow> GetAsset e (pr_OrganizationID p) i;
     respond (case res of Inl er \<Rightarrow> dbError r er | Inr item \<Rightarrow> writeJSON 200 (asset_json e item))
   }"

definition sources_handler :: handler where
  "sources_handler e sv p i r =
     (if rq_Method r = ''GET'' then do {
        let (page, limit) = pagination r;
        res \<leftarrow> ListSources e (pr_OrganizationID p) page limit;
        respond (list_reply r (source_json e) page limit res)
      }
      else case decode e (source_fields e) zero_source r of
          None \<Rightarrow> respond (writeError r 400 ''VALIDATION_ERROR'' ''Backup source input is invalid.'')
        | Some item \<Rightarrow>
            if \<not> validName e (so_Name item)
            then respond (writeError r 400 ''VALIDATION_ERROR'' ''Backup source input is invalid.'')
            else if so_Type item \<notin> {''LOCAL_FILESYSTEM'', ''S3_COMPATIBLE'', ''POSTGRES_DUMP''}
            then respond (writeError r 400 ''VALIDATION_ERROR'' ''Backup source type is invalid.'')
            else do {
              res \<leftarrow> CreateSource e (pr_OrganizationID p) item;
              case res of
                Inl er \<Rightarrow> respond (dbError r er)
              | Inr created \<Rightarrow>
                  audit_then e p ''backup_source.created'' ''backup_source'' (so_ID created) ''{}'' r
                    (writeJSON 201 (source_json e created))
            })"

definition discovery_metadata :: string where
  "discovery_metadata = ''{'' @ [CHR 0x22] @ ''status'' @ [CHR 0x22] @ '':'' @ [CHR 0x22] @ ''SUCCEEDED'' @ [CHR 0x22] @ ''}''"

definition discover_handler :: handler where
  "discover_handler e sv p i r = do {
     res \<leftarrow> DiscoverSource e (pr_OrganizationID p) i;
     case res of
       Some er \<Rightarrow> respond (dbError r er)
     | None \<Rightarrow>
         audit_then e p ''backup_source.discovery_completed'' ''backup_source'' i discovery_metadata r
           (writeJSON 202 (JObj [(''status'', JStr ''SUCCEEDED'')]))
   }"

definition policies_handler :: handler where
  "policies_handler e sv p i r =
     (if rq_Method r = ''GET'' then do {
        let (page, limit) = pagination r;
        res \<leftarrow> ListPolicies e (pr_OrganizationID p) page limit;
        respond (list_reply r policy_json page limit res)
      }
      else case decode e policy_fields zero_policy r of
          None \<Rightarrow> respond (writeError r 400 ''VALIDATION_ERROR'' ''Recovery policy input is invalid.'')
        | Some item \<Rightarrow>
            if \<not> validName e (po_Name item) \<or> po_Schedule item \<notin> {''DAILY'', ''WEEKLY'', ''MONTHLY''}
            then respond (writeError r 400 ''VALIDATION_ERROR'' ''Recovery policy input is invalid.'')
            else do {
              res \<leftarrow> CreatePolicy e (pr_OrganizationID p) item;
              case res of
                Inl er \<Rightarrow> respond (writeError r 400 ''VALIDATION_ERROR'' (error_string er))
              | Inr created \<Rightarrow>
                  audit_then e p ''policy.created'' ''recovery_policy'' (po_ID created) ''{}'' r
                    (writeJSON 201 (policy_json created))
            })"


section \<open>Drills\<close>

definition drills_handler :: handler where
  "drills_handler e sv p i r =
     (if rq_Method r = ''GET'' then do {
        let (page, limit) = pagination r;
        res \<leftarrow> ListDrills e (pr_OrganizationID p) (query_get r ''status'') (query_get r ''asset'') page limit;
        respond (list_reply r (drill_json e) page limit res)
      }
      else case decode e drill_fields \<lparr>di_ProtectedAssetID = [], di_BackupSnapshotID = [], di_RecoveryPolicyID = []\<rparr> r of
          None \<Rightarrow> respond (writeError r 400 ''VALIDATION_ERROR'' ''A protected asset is required.'')
        | Some input \<Rightarrow>
            if di_ProtectedAssetID input = []
            then respond (writeError r 400 ''VALIDATION_ERROR'' ''A protected asset is required.'')
            else do {
              res \<leftarrow> CreateDrill e p (di_ProtectedAssetID input) (di_BackupSnapshotID input)
                (di_RecoveryPolicyID input) (header_get r ''Idempotency-Key'');
              case res of
                Inl er \<Rightarrow> respond (dbError r er)
              | Inr (item, created) \<Rightarrow>
                  let accepted = writeJSON 202 (JObj [(''data'', drill_json e item), (''created'', JBool created)]) in
                  if created then do {
                    _ \<leftarrow> Audit e p ''drill.created'' ''recovery_drill'' (d_ID item) ''{}'' (rq_RemoteIP r);
                    submitted \<leftarrow> Submit (d_ID item);
                    respond (case submitted of
                        Some _ \<Rightarrow> writeError r 503 ''DRILL_QUEUE_FULL'' ''The drill queue is currently full.''
                      | None \<Rightarrow> accepted)
                  }
                  else respond accepted
            })"

definition drill_handler :: handler where
  "drill_handler e sv p i r = do {
     res \<leftarrow> GetDrill e (pr_OrganizationID p) i;
     respond (case res of Inl er \<Rightarrow> dbError r er | Inr item \<Rightarrow> writeJSON 200 (drill_json e item))
   }"

definition cancel_handler :: handler where
  "cancel_handler e sv p i r = do {
     Cancel i;
     res \<leftarrow> CancelDrill e (pr_OrganizationID p) i;
     case res of
       Some er \<Rightarrow> respond (dbError r er)
     | None \<Rightarrow>
         audit_then e p ''drill.cancelled'' ''recovery_drill'' i ''{}'' r
           (writeJSON 200 (JObj [(''status'', JStr ''CANCELLED'')]))
   }"

text \<open>The event stream: what is written after the subscription, until the client is gone or the
  channel is closed. A \<open>Received\<close> with nothing to receive is not taken by the \<open>select\<close>.\<close>

definition sse_connected :: bytes where
  "sse_connected = ''event: connected'' @ NL @ ''data: {}'' @ NL @ NL"

definition sse_keepalive :: bytes where
  "sse_keepalive = '': keepalive'' @ NL @ NL"

definition sse_progress :: "bytes \<Rightarrow> bytes" where
  "sse_progress payload = ''event: progress'' @ NL @ ''data: '' @ payload @ NL @ NL"

definition hub_upd :: "(EventHub \<Rightarrow> EventHub option) \<Rightarrow> unit program" where
  "hub_upd f = upd (\<lambda>w. case f (w_hub w) of None \<Rightarrow> w\<lparr>w_crashed := True\<rparr> | Some h \<Rightarrow> w\<lparr>w_hub := h\<rparr>)"

fun event_loop :: "env \<Rightarrow> nat \<Rightarrow> wake list \<Rightarrow> bytes program" where
  "event_loop e c [] = State_Monad.return []"
| "event_loop e c (wk # wakes) =
     (case wk of
        ClientGone \<Rightarrow> State_Monad.return []
      | Heartbeat \<Rightarrow> do { rest \<leftarrow> event_loop e c wakes; State_Monad.return (sse_keepalive @ rest) }
      | Elsewhere ev \<Rightarrow> do { publish e ev; event_loop e c wakes }
      | Shutdown \<Rightarrow> do { hub_upd hub_Close; event_loop e c wakes }
      | Received \<Rightarrow> do {
          w \<leftarrow> State_Monad.get;
          case receive c (w_hub w) of
            None \<Rightarrow> event_loop e c wakes
          | Some (None, h) \<Rightarrow> State_Monad.return []
          | Some (Some payload, h) \<Rightarrow> do {
              upd (\<lambda>w. w\<lparr>w_hub := h\<rparr>);
              rest \<leftarrow> event_loop e c wakes;
              State_Monad.return (sse_progress payload @ rest)
            }
        })"

definition events_handler :: handler where
  "events_handler e sv p i r = do {
     res \<leftarrow> GetDrill e (pr_OrganizationID p) i;
     case res of
       Inl er \<Rightarrow> respond (dbError r er)
     | Inr _ \<Rightarrow>
         if \<not> rq_Flusher r then respond (writeError r 500 ''SSE_UNAVAILABLE'' ''Streaming is unavailable.'')
         else do {
           c \<leftarrow> State (\<lambda>w. let (h, c) = Subscribe i (w_hub w) in (c, w\<lparr>w_hub := h\<rparr>));
           sent \<leftarrow> event_loop e c (rq_Stream r);
           hub_upd (unsubscribe i c);
           respond \<lparr>re_Status = 200,
             re_Header = [(''Content-Type'', ''text/event-stream''), (''Cache-Control'', ''no-cache''), (''X-Accel-Buffering'', ''no'')],
             re_Cookies = [], re_Body = Raw (sse_connected @ sent)\<rparr>
         }
   }"

definition drill_report :: "RecoveryDrill \<Rightarrow> instant \<Rightarrow> RecoveryReport" where
  "drill_report d now =
     \<lparr>rp_Asset = d_ProtectedAssetID d, rp_Source = [], rp_Snapshot = d_BackupSnapshotID d,
      rp_Sandbox = ''Docker isolated restore sandbox (destroyed after drill)'',
      rp_Assessment = (case d_RecoveryStatus d of None \<Rightarrow> [] | Some x \<Rightarrow> assessment_string x),
      rp_Confidence = (case d_Confidence d of None \<Rightarrow> [] | Some x \<Rightarrow> confidence_string x),
      rp_Limitations = ''Controlled conditions; PostgreSQL/Docker workflow only in v0.1.'', rp_SnapshotAge = [],
      rp_RPO = seconds_text (d_MeasuredRPOSeconds d), rp_RTO = seconds_text (d_MeasuredRTOSeconds d),
      rp_RPOResult = policy_string (d_RPOResult d), rp_RTOResult = policy_string (d_RTOResult d),
      rp_GeneratedAt = now, rp_Validations = [''Typed required checks''],
      rp_Evidence = [''SHA-256 integrity metadata'']\<rparr>"

definition report_handler :: handler where
  "report_handler e sv p i r = do {
     res \<leftarrow> GetDrill e (pr_OrganizationID p) i;
     case res of
       Inl er \<Rightarrow> respond (dbError r er)
     | Inr item \<Rightarrow> do {
         now \<leftarrow> clock_Now e;
         respond \<lparr>re_Status = 200,
           re_Header = [(''Content-Type'', ''application/pdf''),
             (''Content-Disposition'', ''attachment; filename=recovery-verification-report.pdf''),
             (''Cache-Control'', ''private, no-store'')],
           re_Cookies = [], re_Body = Raw (GeneratePDF (drill_report item now))\<rparr>
       }
   }"


section \<open>Snapshots, evidence and audit\<close>

text \<open>
  \<open>rows.Err()\<close> is not consulted by these handlers: when the connection breaks while the rows are
  read, the rows read so far are the answer.
\<close>

definition read_rows :: "env \<Rightarrow> 'r list \<Rightarrow> 'r list program" where
  "read_rows e rows = do {
     n \<leftarrow> tick;
     State_Monad.return (case fate_at e n of Performed \<Rightarrow> rows | _ \<Rightarrow> take (cut_at e n) rows)
   }"

definition rows_reply :: "env \<Rightarrow> request \<Rightarrow> ('r \<Rightarrow> json) \<Rightarrow> 'r list result \<Rightarrow> reply option program" where
  "rows_reply e r f res =
     (case res of
        Inl er \<Rightarrow> respond (dbError r er)
      | Inr rows \<Rightarrow> do {
          got \<leftarrow> read_rows e rows;
          respond (writeJSON 200 (JObj [(''data'', JArr (map f got))]))
        })"

definition snapshot_rows :: "(string \<Rightarrow> nat) \<Rightarrow> string \<Rightarrow> string \<Rightarrow> string \<Rightarrow> tables \<Rightarrow> snapshot_row list" where
  "snapshot_rows ties org src status t =
     (let rows = filter (\<lambda>s. s_organization_id s = org \<and> (src = [] \<or> s_backup_source_id s = src) \<and>
            (status = [] \<or> s_status s = status)) (backup_snapshots t)
      in take 100 (order_by ties s_id (\<lambda>s. case s_completed_at s of Some x \<Rightarrow> - x | None \<Rightarrow> 0)
           (filter (\<lambda>s. s_completed_at s \<noteq> None) rows) @
         order_by ties s_id (\<lambda>_. 0) (filter (\<lambda>s. s_completed_at s = None) rows)))"

definition snapshot_json :: "env \<Rightarrow> snapshot_row \<Rightarrow> json" where
  "snapshot_json e s =
     JObj [(''id'', JStr (s_id s)), (''backupSourceId'', JStr (s_backup_source_id s)), (''externalId'', JStr (s_external_id s)),
       (''name'', JStr (s_name s)), (''type'', JStr (s_type s)), (''completedAt'', opt_json (time_json e) (s_completed_at s)),
       (''sizeBytes'', JNum (s_size_bytes s)), (''checksum'', opt_json JStr (s_checksum s)), (''status'', JStr (s_status s)),
       (''discoveredAt'', time_json e (s_discovered_at s)), (''lastVerifiedAt'', opt_json (time_json e) (s_last_verified_at s))]"

definition snapshots_handler :: handler where
  "snapshots_handler e sv p i r = do {
     let src = query_get r ''source''; let status = query_get r ''status'';
     res \<leftarrow> db_exec e None (\<lambda>now t. (t,
       if \<not> pg_text src \<or> \<not> pg_text status then Inl (pg_error ''invalid byte sequence for encoding'')
       else Inr (snapshot_rows (pg_ties e now) (pr_OrganizationID p) src status t)));
     rows_reply e r (snapshot_json e) res
   }"

definition evidence_list :: "(string \<Rightarrow> nat) \<Rightarrow> string \<Rightarrow> tables \<Rightarrow> evidence_row list" where
  "evidence_list ties org t =
     take 100 (order_by ties ev_id (\<lambda>ev. - ev_created_at ev) (filter (\<lambda>ev. ev_organization_id ev = org) (evidence_rows t)))"

definition evidence_json :: "env \<Rightarrow> evidence_row \<Rightarrow> json" where
  "evidence_json e ev =
     JObj [(''id'', pgx_uuid e (ev_id ev)), (''drillId'', pgx_uuid e (ev_drill_id ev)), (''type'', JStr (ev_type ev)),
       (''summary'', JStr (ev_summary ev)), (''sha256'', JStr (ev_sha256 ev)), (''createdAt'', time_json e (ev_created_at ev))]"

definition audit_list :: "(string \<Rightarrow> nat) \<Rightarrow> string \<Rightarrow> tables \<Rightarrow> audit_row list" where
  "audit_list ties org t =
     take 100 (order_by ties ae_id (\<lambda>ae. - ae_timestamp ae) (filter (\<lambda>ae. ae_organization_id ae = org) (audit_events t)))"

definition audit_json :: "env \<Rightarrow> audit_row \<Rightarrow> json" where
  "audit_json e ae =
     JObj [(''id'', pgx_uuid e (ae_id ae)), (''eventType'', JStr (ae_event_type ae)), (''resourceType'', JStr (ae_resource_type ae)),
       (''resourceId'', opt_json (pgx_uuid e) (ae_resource_id ae)), (''metadata'', pgx_jsonb e (ae_metadata ae)),
       (''timestamp'', time_json e (ae_timestamp ae))]"

definition simpleRows :: "env \<Rightarrow> Principal \<Rightarrow> request \<Rightarrow> ((string \<Rightarrow> nat) \<Rightarrow> string \<Rightarrow> tables \<Rightarrow> 'r list) \<Rightarrow> ('r \<Rightarrow> json) \<Rightarrow> reply option program" where
  "simpleRows e p r query f = do {
     res \<leftarrow> db_exec e None (\<lambda>now t. (t, Inr (query (pg_ties e now) (pr_OrganizationID p) t)));
     rows_reply e r f res
   }"

definition evidence_handler :: handler where
  "evidence_handler e sv p i r = simpleRows e p r evidence_list (evidence_json e)"

definition audit_handler :: handler where
  "audit_handler e sv p i r = simpleRows e p r audit_list (audit_json e)"

definition roles_handler :: handler where
  "roles_handler e sv p i r = respond (writeJSON 200 (JObj [(''data'',
     JArr (map JStr [''OWNER'', ''ADMIN'', ''RECOVERY_ENGINEER'', ''OPERATOR'', ''AUDITOR'', ''VIEWER'']))]))"

definition users_handler :: handler where
  "users_handler e sv p i r = respond (writeJSON 200 (JObj [(''data'', JArr [principal_json p])]))"

definition settings_handler :: handler where
  "settings_handler e sv p i r = respond (writeJSON 200 (JObj
     [(''mfaFoundation'', JStr ''TOTP-ready; enrollment is not implemented in v0.1''), (''status'', JStr ''EXPERIMENTAL'')]))"

definition ready_handler :: "env \<Rightarrow> request \<Rightarrow> reply option program" where
  "ready_handler e r = do {
     er \<leftarrow> Health e;
     respond (if er \<noteq> None then writeError r 503 ''NOT_READY'' ''Database is not ready.''
              else writeJSON 200 (JObj [(''status'', JStr ''ready'')]))
   }"

definition health_handler :: "env \<Rightarrow> request \<Rightarrow> reply option program" where
  "health_handler e r = respond (writeJSON 200 (JObj [(''status'', JStr ''ok'')]))"

end
