(* ===== verification/Http_Server.thy ===== *)
theory Http_Server
  imports Http_Handlers
begin

text \<open>
  The server of the HTTP interface (\<open>httpapi/server.go\<close>, \<open>httpapi/middleware.go\<close>): the routing table,
  the authentication middleware \<open>require\<close> and the outer middleware \<open>secure\<close>. A pattern with the
  method \<open>GET\<close> also matches \<open>HEAD\<close>, as \<open>http.ServeMux\<close> documents; a path that matches under other
  methods only is answered with 405, any other with 404.
\<close>

section \<open>Routes\<close>

datatype endpoint =
    EpHealth | EpReady | EpLogin | EpLogout | EpSession | EpPassword | EpOverview | EpAssets | EpAsset
  | EpSources | EpDiscover | EpPolicies | EpDrills | EpDrill | EpCancel | EpEvents | EpReport
  | EpSnapshots | EpEvidence | EpAudit | EpRoles | EpUsers | EpSettings

text \<open>A segment of a pattern, and the access to a route: open to everyone, or behind \<open>require\<close> with
  a permission.\<close>

datatype segment = Lit string | PathID

datatype access = Public | Require string

record route =
  rt_Method :: string
  rt_Pattern :: "segment list"
  rt_Access :: access
  rt_Endpoint :: endpoint

abbreviation api :: "string \<Rightarrow> segment list \<Rightarrow> segment list" where
  "api resource rest \<equiv> Lit ''api'' # Lit ''v1'' # Lit resource # rest"

abbreviation mk_route :: "string \<Rightarrow> segment list \<Rightarrow> access \<Rightarrow> endpoint \<Rightarrow> route" where
  "mk_route m pat acc ep \<equiv> \<lparr>rt_Method = m, rt_Pattern = pat, rt_Access = acc, rt_Endpoint = ep\<rparr>"

definition routes :: "route list" where
  "routes =
     [mk_route ''GET'' [Lit ''health''] Public EpHealth,
      mk_route ''GET'' [Lit ''ready''] Public EpReady,
      mk_route ''POST'' (api ''auth'' [Lit ''login'']) Public EpLogin,
      mk_route ''POST'' (api ''auth'' [Lit ''logout'']) (Require '''') EpLogout,
      mk_route ''GET'' (api ''auth'' [Lit ''session'']) (Require '''') EpSession,
      mk_route ''POST'' (api ''auth'' [Lit ''password'']) (Require '''') EpPassword,
      mk_route ''GET'' (api ''overview'' []) (Require ''drill.read'') EpOverview,
      mk_route ''GET'' (api ''protected-assets'' []) (Require ''drill.read'') EpAssets,
      mk_route ''POST'' (api ''protected-assets'' []) (Require ''settings.manage'') EpAssets,
      mk_route ''GET'' (api ''protected-assets'' [PathID]) (Require ''drill.read'') EpAsset,
      mk_route ''GET'' (api ''backup-sources'' []) (Require ''backup_source.read'') EpSources,
      mk_route ''POST'' (api ''backup-sources'' []) (Require ''backup_source.manage'') EpSources,
      mk_route ''POST'' (api ''backup-sources'' [PathID, Lit ''discover'']) (Require ''backup_source.manage'') EpDiscover,
      mk_route ''GET'' (api ''recovery-policies'' []) (Require ''recovery_policy.read'') EpPolicies,
      mk_route ''POST'' (api ''recovery-policies'' []) (Require ''recovery_policy.manage'') EpPolicies,
      mk_route ''GET'' (api ''drills'' []) (Require ''drill.read'') EpDrills,
      mk_route ''POST'' (api ''drills'' []) (Require ''drill.run'') EpDrills,
      mk_route ''GET'' (api ''drills'' [PathID]) (Require ''drill.read'') EpDrill,
      mk_route ''POST'' (api ''drills'' [PathID, Lit ''cancel'']) (Require ''drill.run'') EpCancel,
      mk_route ''GET'' (api ''drills'' [PathID, Lit ''events'']) (Require ''drill.read'') EpEvents,
      mk_route ''GET'' (api ''drills'' [PathID, Lit ''report'']) (Require ''report.export'') EpReport,
      mk_route ''GET'' (api ''snapshots'' []) (Require ''backup_source.read'') EpSnapshots,
      mk_route ''GET'' (api ''evidence'' []) (Require ''evidence.read'') EpEvidence,
      mk_route ''GET'' (api ''audit'' []) (Require ''audit.read'') EpAudit,
      mk_route ''GET'' (api ''roles'' []) (Require ''user.manage'') EpRoles,
      mk_route ''GET'' (api ''users'' []) (Require ''user.manage'') EpUsers,
      mk_route ''GET'' (api ''settings'' []) (Require ''settings.manage'') EpSettings]"

text \<open>Matching a path: the value of \<open>{id}\<close>, empty for a pattern without it. A wildcard does not match
  an empty segment.\<close>

fun match_path :: "segment list \<Rightarrow> string list \<Rightarrow> string option" where
  "match_path [] [] = Some []"
| "match_path (Lit s # pat) (x # xs) = (if s = x then match_path pat xs else None)"
| "match_path (PathID # pat) (x # xs) =
     (if x \<noteq> [] \<and> match_path pat xs \<noteq> None then Some x else None)"
| "match_path _ _ = None"

definition method_matches :: "string \<Rightarrow> string \<Rightarrow> bool" where
  "method_matches m rm = (m = rm \<or> (m = ''GET'' \<and> rm = ''HEAD''))"

definition route_matches :: "request \<Rightarrow> route \<Rightarrow> bool" where
  "route_matches r rt = (method_matches (rt_Method rt) (rq_Method r) \<and> match_path (rt_Pattern rt) (rq_Path r) \<noteq> None)"

definition find_route :: "request \<Rightarrow> route option" where
  "find_route r = find (route_matches r) routes"

definition allow_header :: "string list \<Rightarrow> string" where
  "allow_header ms =
     strings_Join (filter (\<lambda>m. m \<in> set ms \<or> (m = ''HEAD'' \<and> ''GET'' \<in> set ms)) [''GET'', ''HEAD'', ''POST'']) '', ''"

text \<open>What \<open>http.ServeMux\<close> answers without a route.\<close>

definition text_reply :: "nat \<Rightarrow> string \<Rightarrow> reply" where
  "text_reply status msg =
     \<lparr>re_Status = status, re_Header = [(''Content-Type'', ''text/plain; charset=utf-8''), (''X-Content-Type-Options'', ''nosniff'')],
      re_Cookies = [], re_Body = Raw (msg @ NL)\<rparr>"

definition no_route :: "request \<Rightarrow> reply" where
  "no_route r =
     (let ms = map rt_Method (filter (\<lambda>rt. match_path (rt_Pattern rt) (rq_Path r) \<noteq> None) routes) in
      if ms = [] then text_reply 404 ''404 page not found''
      else (text_reply 405 ''Method Not Allowed'')\<lparr>re_Header := (''Allow'', allow_header ms) #
             re_Header (text_reply 405 ''Method Not Allowed'')\<rparr>)"


section \<open>Middleware\<close>

definition safe_method :: "string \<Rightarrow> bool" where
  "safe_method m = (m \<in> {''GET'', ''HEAD'', ''OPTIONS''})"

definition require :: "env \<Rightarrow> Server \<Rightarrow> string \<Rightarrow> (Principal \<Rightarrow> reply option program) \<Rightarrow> request \<Rightarrow> reply option program" where
  "require e sv permission next r =
     (case map_of (rq_Cookies r) session_cookie_name of
        None \<Rightarrow> respond (writeError r 401 ''UNAUTHORIZED'' ''Authentication is required.'')
      | Some token \<Rightarrow> do {
          auth \<leftarrow> Authenticate e token;
          case auth of
            Inl _ \<Rightarrow> respond (writeError r 401 ''UNAUTHORIZED'' ''Session is invalid or expired.'')
          | Inr (p, csrfHash) \<Rightarrow>
              if permission \<noteq> [] \<and> \<not> Allowed (pr_Roles p) permission
              then respond (writeError r 403 ''FORBIDDEN'' ''You do not have permission to perform this action.'')
              else if \<not> safe_method (rq_Method r) \<and>
                  (header_get r ''X-Csrf-Token'' = [] \<or> sha256 e (header_get r ''X-Csrf-Token'') \<noteq> csrfHash)
              then respond (writeError r 403 ''CSRF_INVALID'' ''CSRF validation failed.'')
              else if \<not> safe_method (rq_Method r) \<and>
                  header_get r ''Origin'' \<noteq> [] \<and> \<not> EqualFold (rune_fold e) (header_get r ''Origin'') (sv_corsOrigin sv)
              then respond (writeError r 403 ''ORIGIN_INVALID'' ''Request origin is not allowed.'')
              else next p
        })"

definition protected :: "endpoint \<Rightarrow> handler" where
  "protected ep =
     (case ep of
        EpLogout \<Rightarrow> logout_handler | EpSession \<Rightarrow> session_handler | EpPassword \<Rightarrow> password_handler
      | EpOverview \<Rightarrow> overview_handler | EpAssets \<Rightarrow> assets_handler | EpAsset \<Rightarrow> asset_handler
      | EpSources \<Rightarrow> sources_handler | EpDiscover \<Rightarrow> discover_handler | EpPolicies \<Rightarrow> policies_handler
      | EpDrills \<Rightarrow> drills_handler | EpDrill \<Rightarrow> drill_handler | EpCancel \<Rightarrow> cancel_handler
      | EpEvents \<Rightarrow> events_handler | EpReport \<Rightarrow> report_handler | EpSnapshots \<Rightarrow> snapshots_handler
      | EpEvidence \<Rightarrow> evidence_handler | EpAudit \<Rightarrow> audit_handler | EpRoles \<Rightarrow> roles_handler
      | EpUsers \<Rightarrow> users_handler | EpSettings \<Rightarrow> settings_handler
      | EpHealth \<Rightarrow> (\<lambda>e sv p i r. health_handler e r) | EpReady \<Rightarrow> (\<lambda>e sv p i r. ready_handler e r)
      | EpLogin \<Rightarrow> (\<lambda>e sv p i r. login_handler e sv r))"

definition open_handler :: "env \<Rightarrow> Server \<Rightarrow> endpoint \<Rightarrow> request \<Rightarrow> reply option program" where
  "open_handler e sv ep r =
     (case ep of
        EpLogin \<Rightarrow> login_handler e sv r
      | EpReady \<Rightarrow> ready_handler e r
      | _ \<Rightarrow> health_handler e r)"

definition ServeMux :: "env \<Rightarrow> Server \<Rightarrow> request \<Rightarrow> reply option program" where
  "ServeMux e sv r =
     (case find_route r of
        None \<Rightarrow> respond (no_route r)
      | Some rt \<Rightarrow>
          (case rt_Access rt of
             Public \<Rightarrow> open_handler e sv (rt_Endpoint rt) r
           | Require permission \<Rightarrow>
               require e sv permission
                 (\<lambda>p. protected (rt_Endpoint rt) e sv p (coalesce (match_path (rt_Pattern rt) (rq_Path r))) r) r))"

text \<open>The headers set before the handler runs; a header the handler sets again replaces the value.\<close>

definition secure_headers :: "string \<Rightarrow> (string \<times> string) list" where
  "secure_headers i =
     [(''X-Request-Id'', i), (''X-Content-Type-Options'', ''nosniff''), (''Referrer-Policy'', ''no-referrer''),
      (''X-Frame-Options'', ''DENY''),
      (''Content-Security-Policy'', ''default-src '' @ [CHR 0x27] @ ''self'' @ [CHR 0x27] @ ''; frame-ancestors '' @
         [CHR 0x27] @ ''none'' @ [CHR 0x27] @ ''; base-uri '' @ [CHR 0x27] @ ''none'' @ [CHR 0x27])]"

definition cors_headers :: "string \<Rightarrow> (string \<times> string) list" where
  "cors_headers origin =
     [(''Access-Control-Allow-Origin'', origin), (''Access-Control-Allow-Credentials'', ''true''), (''Vary'', ''Origin'')]"

definition preflight :: reply where
  "preflight = (write_status 204)\<lparr>re_Header :=
     [(''Access-Control-Allow-Headers'', ''Content-Type,X-CSRF-Token,X-Request-ID,Idempotency-Key''),
      (''Access-Control-Allow-Methods'', ''GET,POST,PUT,PATCH,DELETE,OPTIONS'')]\<rparr>"

definition under_headers :: "(string \<times> string) list \<Rightarrow> reply \<Rightarrow> reply" where
  "under_headers hs x =
     x\<lparr>re_Header := filter (\<lambda>(k, v). k \<notin> set (map fst (re_Header x))) hs @ re_Header x\<rparr>"

definition secure :: "env \<Rightarrow> Server \<Rightarrow> (request \<Rightarrow> reply option program) \<Rightarrow> request \<Rightarrow> reply option program" where
  "secure e sv next r = do {
     fresh \<leftarrow> (if uuid_Parse e (header_get r ''X-Request-Id'') = None then uuid_NewString e
              else State_Monad.return (header_get r ''X-Request-Id''));
     let origin = header_get r ''Origin'';
     let cors = (origin \<noteq> [] \<and> origin = sv_corsOrigin sv);
     let hs = secure_headers fresh @ (if cors then cors_headers origin else []);
     if cors \<and> rq_Method r = ''OPTIONS'' then respond (under_headers hs preflight)
     else do {
       x \<leftarrow> next (r\<lparr>rq_requestID := fresh\<rparr>);
       State_Monad.return (map_option (under_headers hs) x)
     }
   }"

definition serve :: "env \<Rightarrow> Server \<Rightarrow> request \<Rightarrow> reply option program" where
  "serve e sv r = secure e sv (ServeMux e sv) r"

end
