(* ===== verification/Http_Rules.thy ===== *)
theory Http_Rules
  imports Http_Server Resource_Properties
begin

text \<open>
  Rules for the handlers. The locale \<open>request_invariant\<close> is the contract between the statements that
  requests of certain principals run and a predicate of the database: every handler behind the
  authentication then keeps the predicate. \<open>server_invariant\<close> adds the login, and gives the whole
  server. Two interpretations discharge the contract on the statements of the store: the life cycle of
  drills, for every principal, and the rows of other organizations, for the principals of one.
\<close>

section \<open>Programs that leave the database alone\<close>

lemma keeps_Submit_db [keeps_intros]: "keeps (on_db J) (Submit did)"
  by (auto simp: keeps_def hoare_def Submit_def on_db_def)

lemma keeps_Cancel_db [keeps_intros]: "keeps (on_db J) (Cancel did)"
  unfolding Cancel_def by (rule keeps_upd) (simp add: on_db_def)

lemma keeps_hub_upd_db [keeps_intros]: "keeps (on_db J) (hub_upd f)"
  unfolding hub_upd_def by (rule keeps_upd) (simp add: on_db_def split: option.splits)

lemma keeps_subscribe_db [keeps_intros]:
  "keeps (on_db J) (State (\<lambda>w. let (h, c) = Subscribe i (w_hub w) in (c, w\<lparr>w_hub := h\<rparr>)))"
  by (auto simp: keeps_def hoare_def on_db_def split: prod.splits)

lemma keeps_read_rows_db [keeps_intros]: "keeps (on_db J) (read_rows e rows)"
  unfolding read_rows_def by (intro keeps_intros)

lemma keeps_set_hub_db [keeps_intros]: "keeps (on_db J) (upd (\<lambda>w. w\<lparr>w_hub := h\<rparr>))"
  by (rule keeps_upd) (simp add: on_db_def)

lemma keeps_event_loop_db [keeps_intros]: "keeps (on_db J) (event_loop e c wakes)"
proof (induction wakes)
  case (Cons wk wakes)
  then show ?case
    by (cases wk) (auto intro!: keeps_intros keeps_get simp: Let_def split: option.split prod.split)
qed (simp add: keeps_return)

lemma keeps_rows_reply_db [keeps_intros]: "keeps (on_db J) (rows_reply e r f res)"
  unfolding rows_reply_def by (intro keeps_intros)


section \<open>The contract of the requests\<close>

locale request_invariant =
  fixes e :: env and J :: "tables \<Rightarrow> bool" and who :: "Principal \<Rightarrow> bool"
  assumes others_kept: "others_keep e J"
    and revoked: "J t \<Longrightarrow> J (revoke_session digest now t)"
    and password_set: "who p \<Longrightarrow> J t \<Longrightarrow> J (revoke_all p ss now (set_password p us hash now t))"
    and audited: "who p \<Longrightarrow> J t \<Longrightarrow> J (fst (insert_audit e new_id p ev ty rid md ip now t))"
    and asset_added: "who p \<Longrightarrow> J t \<Longrightarrow> J (fst (insert_asset (pr_OrganizationID p) a new_id now t))"
    and source_added: "who p \<Longrightarrow> J t \<Longrightarrow> J (fst (insert_source (pr_OrganizationID p) s new_id now t))"
    and source_discovered: "who p \<Longrightarrow> J t \<Longrightarrow> J (fst (update_discovery (pr_OrganizationID p) i now t))"
    and policy_added: "who p \<Longrightarrow> J t \<Longrightarrow> J (fst (insert_policy e (pr_OrganizationID p) po new_id now t))"
    and drill_added: "who p \<Longrightarrow> J t \<Longrightarrow>
      J (fst (insert_drill (pr_OrganizationID p) asset snapshot policy (pr_UserID p) key new_id now t))"
    and drill_cancelled: "who p \<Longrightarrow> J t \<Longrightarrow> J (fst (cancel_drill (pr_OrganizationID p) i now t))"
begin

lemma audit_keeps [keeps_intros]: "who p \<Longrightarrow> keeps (on_db J) (audit_then e p ev ty rid md r x)"
  unfolding audit_then_def Audit_def Let_def by (intro keeps_intros keeps_db_exec_env others_kept audited)

lemma by_id_keeps:
  "(\<And>i now t. J t \<Longrightarrow> J (fst (f i now t))) \<Longrightarrow> keeps (on_db J) (exec_by_id e id' f)"
  unfolding exec_by_id_def by (intro keeps_intros keeps_db_exec_env others_kept) (auto split: option.splits)

lemma GetDrill_keeps [keeps_intros]: "keeps (on_db J) (GetDrill e org i)"
  unfolding GetDrill_def ListDrills_def by (intro keeps_intros others_kept)

lemma account_handlers_keep:
  assumes "who p"
  shows "keeps (on_db J) (logout_handler e sv p i r)" "keeps (on_db J) (session_handler e sv p i r)"
    "keeps (on_db J) (password_handler e sv p i r)"
  unfolding logout_handler_def Revoke_def session_handler_def password_handler_def ChangePassword_def password_tx_def
  by (intro keeps_intros keeps_db_exec_env others_kept keeps_tx_commit password_set assms, simp add: revoked)
    (intro keeps_intros keeps_db_exec_env others_kept keeps_tx_commit password_set assms)+

lemma assets_keep: "who p \<Longrightarrow> keeps (on_db J) (assets_handler e sv p i r)"
  unfolding assets_handler_def Let_def ListAssets_def CreateAsset_def
  by (intro keeps_intros keeps_db_exec_env [OF others_kept asset_added] others_kept)

lemma asset_keeps: "who p \<Longrightarrow> keeps (on_db J) (asset_handler e sv p i r)"
  unfolding asset_handler_def GetAsset_def
  by (intro keeps_intros  others_kept)

lemma sources_keep: "who p \<Longrightarrow> keeps (on_db J) (sources_handler e sv p i r)"
  unfolding sources_handler_def Let_def ListSources_def CreateSource_def
  by (intro keeps_intros keeps_db_exec_env [OF others_kept source_added] others_kept)

lemma discover_keeps: "who p \<Longrightarrow> keeps (on_db J) (discover_handler e sv p i r)"
  unfolding discover_handler_def DiscoverSource_def
  by (intro keeps_intros by_id_keeps source_discovered others_kept)

lemma policies_handler_keeps:
  assumes "who p"
  shows "keeps (on_db J) (policies_handler e sv p i r)"
  unfolding policies_handler_def Let_def ListPolicies_def CreatePolicy_def
  by (intro keeps_intros keeps_db_exec_env [OF others_kept policy_added] others_kept assms)

lemma CreateDrill_keeps:
  assumes "who p"
  shows "keeps (on_db J) (CreateDrill e p a s po idem)"
proof -
  have "J (fst (create_statement e p a s po k i now t))" if "J t" for k i now t
    using that drill_added [OF assms that] by (auto simp: create_statement_def split: option.splits)
  then show ?thesis
    unfolding CreateDrill_def create_statement_def [symmetric]
    by (intro keeps_intros others_kept keeps_db_exec_env)
qed

lemma drills_keep: "who p \<Longrightarrow> keeps (on_db J) (drills_handler e sv p i r)"
  unfolding drills_handler_def Let_def ListDrills_def Audit_def
  by (intro keeps_intros CreateDrill_keeps keeps_db_exec_env [OF others_kept audited] others_kept)

lemma cancel_keeps: "who p \<Longrightarrow> keeps (on_db J) (cancel_handler e sv p i r)"
  unfolding cancel_handler_def CancelDrill_def
  by (intro keeps_intros by_id_keeps drill_cancelled others_kept)

lemma events_keep: "keeps (on_db J) (events_handler e sv p i r)"
  unfolding events_handler_def by (intro keeps_intros)

lemma reading_handlers_keep:
  "keeps (on_db J) (drill_handler e sv p i r)" "keeps (on_db J) (report_handler e sv p i r)"
  "keeps (on_db J) (overview_handler e sv p i r)" "keeps (on_db J) (snapshots_handler e sv p i r)"
  "keeps (on_db J) (evidence_handler e sv p i r)" "keeps (on_db J) (audit_handler e sv p i r)"
  "keeps (on_db J) (roles_handler e sv p i r)" "keeps (on_db J) (users_handler e sv p i r)"
  "keeps (on_db J) (settings_handler e sv p i r)" "keeps (on_db J) (health_handler e r)" "keeps (on_db J) (ready_handler e r)"
  unfolding drill_handler_def report_handler_def overview_handler_def Overview_def snapshots_handler_def evidence_handler_def audit_handler_def simpleRows_def
    roles_handler_def users_handler_def settings_handler_def health_handler_def ready_handler_def Health_def Let_def
  by (intro keeps_intros others_kept)+

lemma protected_keeps:
  "who p \<Longrightarrow> ep \<noteq> EpLogin \<Longrightarrow> keeps (on_db J) (protected ep e sv p i r)"
  by (cases ep) (simp_all add: protected_def account_handlers_keep assets_keep asset_keeps sources_keep
      discover_keeps policies_handler_keeps drills_keep cancel_keeps events_keep reading_handlers_keep)

end

text \<open>\<open>EpLogin\<close> is not behind the authentication.\<close>

lemma protected_route: "rt \<in> set routes \<Longrightarrow> rt_Access rt = Require perm \<Longrightarrow> rt_Endpoint rt \<noteq> EpLogin"
  by (auto simp: routes_def)

lemma find_route_in: "find_route r = Some rt \<Longrightarrow> rt \<in> set routes \<and> route_matches r rt"
  by (auto simp: find_route_def find_Some_iff)

locale server_invariant = request_invariant e J "\<lambda>_. True" for e J +
  assumes session_added: "J t \<Longrightarrow> J (fst (insert_session org user th ch ex t))"
begin

lemma login_keeps: "keeps (on_db J) (login_handler e sv r)"
  unfolding login_handler_def Login_def open_session_def store_roles_def
  by (intro keeps_intros keeps_db_exec_env others_kept session_added) simp_all

lemma require_keeps:
  assumes "\<And>p. keeps (on_db J) (next p)"
  shows "keeps (on_db J) (require e sv perm next r)"
  unfolding require_def Authenticate_def store_roles_def by (intro keeps_intros others_kept assms)

lemma ServeMux_keeps: "keeps (on_db J) (ServeMux e sv r)"
  unfolding ServeMux_def
proof (intro keeps_intros)
  fix rt
  assume "find_route r = Some rt"
  then have rt: "rt \<in> set routes" using find_route_in by blast
  show "keeps (on_db J) (case rt_Access rt of
             Public \<Rightarrow> open_handler e sv (rt_Endpoint rt) r
           | Require permission \<Rightarrow>
               require e sv permission
                 (\<lambda>p. protected (rt_Endpoint rt) e sv p (coalesce (match_path (rt_Pattern rt) (rq_Path r))) r) r)"
  proof (cases "rt_Access rt")
    case Public
    then show ?thesis by (cases "rt_Endpoint rt") (simp_all add: open_handler_def login_keeps reading_handlers_keep)
  next
    case (Require perm)
    then show ?thesis using protected_route [OF rt Require] by (simp add: require_keeps protected_keeps)
  qed
qed

lemma serve_keeps: "keeps (on_db J) (serve e sv r)"
  unfolding serve_def secure_def Let_def by (intro keeps_intros ServeMux_keeps)

end


section \<open>The life cycle\<close>

lemma resource_statements [simp]:
  "same_drills t (fst (insert_asset org a i now t))"
  "same_drills t (fst (insert_source org s i now t))"
  "same_drills t (fst (update_discovery org i now t))"
  "same_drills t (fst (insert_policy e org po i now t))"
  by (auto simp: same_drills_def insert_asset_def insert_source_def update_discovery_def insert_policy_def split: option.splits)

interpretation requests_evolve: server_invariant e "tables_evolve t0" for e t0
  by unfold_locales
    (auto elim!: tables_evolve_trans
      intro: others_keep_evolve same_drills_evolve insert_drill_evolves cancel_drill_evolves)


section \<open>Rows of other organizations\<close>

text \<open>The users, assets, sources, policies, drills and audit events of every organization but one.\<close>

record foreign =
  fr_users :: "user_row list"
  fr_assets :: "asset_row list"
  fr_sources :: "source_row list"
  fr_policies :: "policy_row list"
  fr_drills :: "drill_row list"
  fr_audit :: "audit_row list"

definition foreign_rows :: "string \<Rightarrow> tables \<Rightarrow> foreign" where
  "foreign_rows org t =
     \<lparr>fr_users = filter (\<lambda>u. u_organization_id u \<noteq> org) (users t),
      fr_assets = filter (\<lambda>a. a_organization_id a \<noteq> org) (protected_assets t),
      fr_sources = filter (\<lambda>s. bs_organization_id s \<noteq> org) (backup_sources t),
      fr_policies = filter (\<lambda>p. p_organization_id p \<noteq> org) (recovery_policies t),
      fr_drills = filter (\<lambda>d. dr_organization_id d \<noteq> org) (recovery_drills t),
      fr_audit = filter (\<lambda>ae. ae_organization_id ae \<noteq> org) (audit_events t)\<rparr>"

definition session_owned :: "string \<Rightarrow> bytes \<Rightarrow> tables \<Rightarrow> bool" where
  "session_owned org digest t =
     (\<forall>se \<in> set (sessions t). se_token_hash se = digest \<longrightarrow> se_organization_id se = org)"

definition foreign_kept :: "string \<Rightarrow> bytes \<Rightarrow> foreign \<Rightarrow> tables \<Rightarrow> bool" where
  "foreign_kept org digest fr t = (foreign_rows org t = fr \<and> session_owned org digest t)"

lemma filter_update_where:
  "(\<And>x. p x \<Longrightarrow> \<not> q x \<and> \<not> q (f x)) \<Longrightarrow> filter q (update_where p f rows) = filter q rows"
  by (induction rows) (auto simp: update_where_def)

lemma session_owned_update:
  assumes "session_owned org digest t"
    and "sessions t' = update_where q (\<lambda>se. se\<lparr>se_revoked_at := Some now\<rparr>) (sessions t)"
  shows "session_owned org digest t'"
  using assms by (auto simp: session_owned_def update_where_def)

lemma foreign_account_statements [simp]:
  "foreign_rows org (revoke_session digest now t) = foreign_rows org t"
  "pr_OrganizationID p = org \<Longrightarrow> foreign_rows org (revoke_all p ss now (set_password p us hash now t)) = foreign_rows org t"
  "pr_OrganizationID p = org \<Longrightarrow> foreign_rows org (fst (insert_audit e i p ev ty rid md ip now t)) = foreign_rows org t"
  by (simp_all add: foreign_rows_def revoke_session_def revoke_all_def set_password_def insert_audit_def)
    (rule filter_update_where, simp add: own_user_def)

lemma foreign_inserts [simp]:
  "foreign_rows org (fst (insert_asset org a i now t)) = foreign_rows org t"
  "foreign_rows org (fst (insert_source org s i now t)) = foreign_rows org t"
  "foreign_rows org (fst (insert_policy e org po i now t)) = foreign_rows org t"
  "foreign_rows org (fst (insert_drill org asset snapshot policy user key i now t)) = foreign_rows org t"
  by (simp add: insert_asset_def, simp add: foreign_rows_def)
    (simp add: insert_source_def, simp add: foreign_rows_def,
     simp add: insert_policy_def split: option.split, simp add: foreign_rows_def,
     simp add: insert_drill_def Let_def, simp add: foreign_rows_def)

lemma foreign_updates [simp]:
  "foreign_rows org (fst (update_discovery org i now t)) = foreign_rows org t"
  "foreign_rows org (fst (cancel_drill org i now t)) = foreign_rows org t"
  by (simp_all add: foreign_rows_def update_discovery_def cancel_drill_def)
    (rule filter_update_where, simp add: discover_where_def cancel_where_def)+

lemma session_owned_statements [simp]:
  "session_owned org digest t \<Longrightarrow> session_owned org digest (revoke_session d now t)"
  "session_owned org digest t \<Longrightarrow> session_owned org digest (revoke_all p ss now (set_password p us hash now t))"
  "session_owned org digest (fst (insert_audit e i p ev ty rid md ip now t)) = session_owned org digest t"
  "session_owned org digest (fst (insert_asset o1 a i now t)) = session_owned org digest t"
  "session_owned org digest (fst (insert_source o1 s i now t)) = session_owned org digest t"
  "session_owned org digest (fst (update_discovery o1 i now t)) = session_owned org digest t"
  "session_owned org digest (fst (insert_policy e o1 po i now t)) = session_owned org digest t"
  "session_owned org digest (fst (insert_drill o1 asset snapshot policy user key i now t)) = session_owned org digest t"
  "session_owned org digest (fst (cancel_drill o1 i now t)) = session_owned org digest t"
  by (erule session_owned_update, simp add: revoke_session_def)
    (erule session_owned_update, simp add: revoke_all_def set_password_def,
     simp_all add: session_owned_def insert_audit_def insert_asset_def insert_source_def update_discovery_def
       insert_policy_def insert_drill_def cancel_drill_def Let_def split: option.splits)

interpretation tenants: request_invariant e
    "\<lambda>t. others_keep e (foreign_kept org digest fr) \<longrightarrow> foreign_kept org digest fr t"
    "\<lambda>p. pr_OrganizationID p = org" for e org digest fr
proof unfold_locales
  show "others_keep e (\<lambda>t. others_keep e (foreign_kept org digest fr) \<longrightarrow> foreign_kept org digest fr t)"
    by (auto simp: others_keep_def)
qed (auto simp: foreign_kept_def)

end
