(* ===== verification/Http_Properties.thy ===== *)
theory Http_Properties
  imports Http_Rules
begin

text \<open>
  Properties of the HTTP interface as a whole: who reaches a handler and what a refused request leaves
  behind, the life cycle of drills and the separation of organizations under every request, the
  headers of every reply, and the event stream as a bounded queue.
\<close>

section \<open>What handlers reply\<close>

text \<open>A reply whose status is not one of the middleware's refusals and whose headers leave those of
  the middleware alone.\<close>

definition handler_header :: "string \<times> string \<Rightarrow> bool" where
  "handler_header h =
     (fst h \<in> {''Content-Type'', ''Cache-Control'', ''X-Accel-Buffering'', ''Content-Disposition'', ''Allow'',
       ''Access-Control-Allow-Headers'', ''Access-Control-Allow-Methods''} \<or>
      h = (''X-Content-Type-Options'', ''nosniff''))"

definition handler_reply :: "nat set \<Rightarrow> reply option \<Rightarrow> bool" where
  "handler_reply S x = (\<forall>y. x = Some y \<longrightarrow> re_Status y \<notin> S \<and> list_all handler_header (re_Header y))"

lemma handler_reply_simps [simp]:
  "handler_reply S None"
  "handler_reply S (Some (writeJSON st v)) \<longleftrightarrow> st \<notin> S"
  "handler_reply S (Some (writeError r st c m)) \<longleftrightarrow> st \<notin> S"
  "handler_reply S (Some (write_status st)) \<longleftrightarrow> st \<notin> S"
  "handler_reply S (Some (x\<lparr>re_Cookies := cs\<rparr>)) \<longleftrightarrow> handler_reply S (Some x)"
  "404 \<notin> S \<Longrightarrow> 500 \<notin> S \<Longrightarrow> handler_reply S (Some (dbError r er))"
  by (auto simp: handler_reply_def writeJSON_def writeError_def write_status_def dbError_def handler_header_def)

lemma yields_audit_then [yields_intros]: "Q (Some x) \<Longrightarrow> yields Q (audit_then e p ev ty rid md r x)"
  unfolding audit_then_def by (intro yields_intros)

abbreviation ok_reply :: "reply option \<Rightarrow> bool" where
  "ok_reply \<equiv> handler_reply {401, 403}"

lemma list_reply_ok [simp]: "ok_reply (Some (list_reply r f page limit res))"
  by (simp add: list_reply_def split: sum.split)

lemma yields_rows_reply [yields_intros]: "yields ok_reply (rows_reply e r f res)"
  unfolding rows_reply_def by (intro yields_intros) simp_all

lemma protected_ok: "ep \<noteq> EpLogin \<Longrightarrow> yields ok_reply (protected ep e sv p i r)"
  unfolding protected_def logout_handler_def session_handler_def password_handler_def overview_handler_def assets_handler_def asset_handler_def
    sources_handler_def discover_handler_def policies_handler_def drills_handler_def drill_handler_def cancel_handler_def
    snapshots_handler_def evidence_handler_def audit_handler_def roles_handler_def users_handler_def settings_handler_def
    events_handler_def report_handler_def health_handler_def ready_handler_def simpleRows_def Let_def
  by (cases ep; hypsubst; simp only: endpoint.case refl simp_thms; (intro yields_intros)?;
    (simp; fail | simp split: sum.split option.split; fail |
     simp add: handler_reply_def [of _ "Some _"] handler_header_def dbError_def writeError_def writeJSON_def)?)


section \<open>The middleware\<close>

lemma under_headers_simps [simp]:
  "re_Status (under_headers hs x) = re_Status x" "re_Body (under_headers hs x) = re_Body x"
  by (simp_all add: under_headers_def)

lemma find_route_id [simp]: "find_route (r\<lparr>rq_requestID := i\<rparr>) = find_route r"
  by (simp add: find_route_def route_matches_def cong: find_cong)

lemma route_method: "find_route r = Some rt \<Longrightarrow> rq_Method r \<in> {''GET'', ''HEAD'', ''POST''}"
  by (drule find_route_in) (auto simp: routes_def route_matches_def method_matches_def)

text \<open>A request that is not a preflight goes to the routes, with a request identifier, after at most
  one call.\<close>

lemma serve_run:
  assumes "run_state (serve e sv r) w = (res, w')" and "rq_Method r \<noteq> ''OPTIONS''"
  obtains i n x hs where "n = w_step w \<or> n = Suc (w_step w)"
    and "run_state (ServeMux e sv (r\<lparr>rq_requestID := i\<rparr>)) (w\<lparr>w_step := n\<rparr>) = (x, w')"
    and "res = map_option (under_headers hs) x"
proof (cases "uuid_Parse e (header_get r ''X-Request-Id'')")
  case None
  then show ?thesis
    using assms that [of "Suc (w_step w)" "uuid_at e (w_step w)"]
    by (auto simp: serve_def secure_def uuid_NewString_def Let_def split: prod.splits)
next
  case (Some i)
  then show ?thesis
    using assms that [of "w_step w" "header_get r ''X-Request-Id''"]
    by (auto simp: serve_def secure_def Let_def split: prod.splits)
qed

text \<open>What has to hold for the handler to run.\<close>

definition admitted :: "env \<Rightarrow> Server \<Rightarrow> string \<Rightarrow> request \<Rightarrow> Principal \<Rightarrow> bytes \<Rightarrow> bool" where
  "admitted e sv perm r p csrfHash =
     ((perm = [] \<or> Allowed (pr_Roles p) perm) \<and>
      (safe_method (rq_Method r) \<or>
       header_get r ''X-Csrf-Token'' \<noteq> [] \<and> sha256 e (header_get r ''X-Csrf-Token'') = csrfHash \<and>
       (header_get r ''Origin'' = [] \<or> EqualFold (rune_fold e) (header_get r ''Origin'') (sv_corsOrigin sv))))"

lemma require_run:
  assumes "run_state (require e sv perm next r) w = (Some x, w')"
  shows "(\<exists>token p csrf w2. map_of (rq_Cookies r) session_cookie_name = Some token \<and>
      run_state (Authenticate e token) w = (Inr (p, csrf), w2) \<and> admitted e sv perm r p csrf \<and>
      run_state (next p) w2 = (Some x, w')) \<or>
    re_Status x \<in> {401, 403} \<and> (w' = w \<or> (\<exists>token. w' = snd (run_state (Authenticate e token) w)))"
proof (cases "map_of (rq_Cookies r) session_cookie_name")
  case (Some token)
  obtain res w2 where auth: "run_state (Authenticate e token) w = (res, w2)" by fastforce
  show ?thesis
  proof (cases res)
    case (Inl er)
    then show ?thesis
      using assms Some auth by (auto simp: require_def writeError_def writeJSON_def) (metis snd_conv)
  next
    case (Inr a)
    obtain p csrf where a: "a = (p, csrf)" by fastforce
    show ?thesis
    proof (cases "admitted e sv perm r p csrf")
      case True
      then have "run_state (next p) w2 = (Some x, w')"
        using assms Some auth Inr a by (auto simp: require_def admitted_def)
      with True Some auth Inr a show ?thesis by blast
    next
      case False
      then have "re_Status x \<in> {401, 403} \<and> w' = w2"
        using assms Some auth Inr a
        by (auto simp: require_def admitted_def writeError_def writeJSON_def split: if_splits)
      then show ?thesis using auth by (metis snd_conv)
    qed
  qed
qed (use assms in \<open>auto simp: require_def writeError_def writeJSON_def\<close>)

lemma protected_run:
  assumes "find_route r = Some rt" and "rt_Access rt = Require perm"
    and "run_state (serve e sv r) w = (Some x, w')"
  obtains i n y hs where "n = w_step w \<or> n = Suc (w_step w)" "x = under_headers hs y"
    "run_state (require e sv perm (\<lambda>p. protected (rt_Endpoint rt) e sv p
        (coalesce (match_path (rt_Pattern rt) (rq_Path r))) (r\<lparr>rq_requestID := i\<rparr>)) (r\<lparr>rq_requestID := i\<rparr>))
      (w\<lparr>w_step := n\<rparr>) = (Some y, w')"
proof -
  have "rq_Method r \<noteq> ''OPTIONS''" using route_method [OF assms(1)] by auto
  with assms(3) obtain i n y hs where run: "n = w_step w \<or> n = Suc (w_step w)"
    "run_state (ServeMux e sv (r\<lparr>rq_requestID := i\<rparr>)) (w\<lparr>w_step := n\<rparr>) = (y, w')" "Some x = map_option (under_headers hs) y"
    by (rule serve_run)
  then obtain z where "y = Some z" "x = under_headers hs z" by (cases y) auto
  with run that assms(1,2) show ?thesis by (auto simp: ServeMux_def)
qed

lemma query_alone:
  assumes "\<forall>n. others_at e n = []"
  shows "\<exists>m r. run_state (db_exec e None (\<lambda>now t. (t, q now t))) v = (r, v\<lparr>w_step := m\<rparr>)"
proof -
  have "run_state (interleave e None) v = ((), v)" using assms by (simp add: interleave_def)
  then show ?thesis by (auto simp: run_db_exec db_seen_def Let_def split: fate.split intro: exI [of _ "Suc (w_step v)"])
qed

lemma Authenticate_alone:
  assumes "\<forall>n. others_at e n = []"
  shows "(snd (run_state (Authenticate e token) w))\<lparr>w_step := n\<rparr> = w\<lparr>w_step := n\<rparr>"
proof -
  obtain m1 r1 where 1: "run_state (db_exec e None (\<lambda>now t. (t, query_row (auth_rows (sha256 e token) now t)))) w
      = (r1, w\<lparr>w_step := m1\<rparr>)" 
    using query_alone [OF assms, of "\<lambda>now t. query_row (auth_rows (sha256 e token) now t)" w] by blast
  show ?thesis
  proof (cases r1)
    case (Inl er)
    with 1 show ?thesis by (simp add: Authenticate_def)
  next
    case (Inr a)
    obtain se u where a: "a = (se, u)" by fastforce
    obtain m2 r2 where "run_state (store_roles e (u_id u) (u_organization_id u)) (w\<lparr>w_step := m1\<rparr>)
        = (r2, w\<lparr>w_step := m2\<rparr>)"
      using query_alone [OF assms, of "\<lambda>_ t. Inr (role_names (u_id u) (u_organization_id u) t)" "w\<lparr>w_step := m1\<rparr>"] by (auto simp: store_roles_def)
    with 1 Inr a show ?thesis by (simp add: Authenticate_def)
  qed
qed


section \<open>Access\<close>

text \<open>
  C5. Access control under any interference: a request to a protected route that is answered with
  anything but 401 or 403 carried the cookie of a session that was in the database, neither revoked
  nor expired, at the moment of its authentication; the session's user was active, its roles allow the
  permission of the route, and, unless the method is \<open>GET\<close> or \<open>HEAD\<close>, the CSRF token is the session's
  and the origin is absent or the configured one. The reply is then the handler's reply for that user.
\<close>

theorem access_control:
  assumes "find_route r = Some rt" and "rt_Access rt = Require perm"
    and "run_state (serve e sv r) w = (Some x, w')" and "re_Status x \<notin> {401, 403}"
  shows "\<exists>token n se u p w2 i y.
    map_of (rq_Cookies r) ''restoreguard_session'' = Some token \<and> (n = w_step w \<or> n = Suc (w_step w)) \<and>
    se \<in> set (sessions (db_seen e (w\<lparr>w_step := n\<rparr>))) \<and> u \<in> set (users (db_seen e (w\<lparr>w_step := n\<rparr>))) \<and>
    se_token_hash se = sha256 e token \<and> se_revoked_at se = None \<and> clock_at e n < se_expires_at se \<and>
    u_active u \<and> u_id u = se_user_id se \<and> u_organization_id u = se_organization_id se \<and>
    p = principal_of u (role_names (u_id u) (u_organization_id u) (w_db w2)) \<and>
    (perm = [] \<or> Allowed (pr_Roles p) perm) \<and>
    (rq_Method r \<in> {''GET'', ''HEAD''} \<or>
     header_get r ''X-Csrf-Token'' \<noteq> [] \<and> sha256 e (header_get r ''X-Csrf-Token'') = se_csrf_hash se \<and>
     (header_get r ''Origin'' = [] \<or> EqualFold (rune_fold e) (header_get r ''Origin'') (sv_corsOrigin sv))) \<and>
    run_state (protected (rt_Endpoint rt) e sv p (coalesce (match_path (rt_Pattern rt) (rq_Path r)))
      (r\<lparr>rq_requestID := i\<rparr>)) w2 = (Some y, w') \<and> re_Status x = re_Status y \<and> re_Body x = re_Body y"
proof -
  obtain i n y hs where n: "n = w_step w \<or> n = Suc (w_step w)" and x: "x = under_headers hs y"
    and run: "run_state (require e sv perm (\<lambda>p. protected (rt_Endpoint rt) e sv p
        (coalesce (match_path (rt_Pattern rt) (rq_Path r))) (r\<lparr>rq_requestID := i\<rparr>)) (r\<lparr>rq_requestID := i\<rparr>))
      (w\<lparr>w_step := n\<rparr>) = (Some y, w')"
    by (rule protected_run [OF assms(1,2,3)])
  from require_run [OF run] assms(4) x obtain token p csrf w2 where
    token: "map_of (rq_Cookies r) session_cookie_name = Some token" and
    auth: "run_state (Authenticate e token) (w\<lparr>w_step := n\<rparr>) = (Inr (p, csrf), w2)" and
    ok: "admitted e sv perm (r\<lparr>rq_requestID := i\<rparr>) p csrf" and
    handler: "run_state (protected (rt_Endpoint rt) e sv p (coalesce (match_path (rt_Pattern rt) (rq_Path r)))
      (r\<lparr>rq_requestID := i\<rparr>)) w2 = (Some y, w')" by auto
  from Authenticate_session [OF auth] obtain se u where
    se: "se \<in> set (sessions (db_seen e (w\<lparr>w_step := n\<rparr>))) \<and> u \<in> set (users (db_seen e (w\<lparr>w_step := n\<rparr>))) \<and>
      se_token_hash se = sha256 e token \<and> se_revoked_at se = None \<and>
      clock_at e (w_step (w\<lparr>w_step := n\<rparr>)) < se_expires_at se \<and> u_active u \<and>
      u_id u = se_user_id se \<and> u_organization_id u = se_organization_id se \<and> csrf = se_csrf_hash se \<and>
      p = principal_of u (role_names (u_id u) (u_organization_id u) (w_db w2))" by (elim exE) (rule that)
  have "rq_Method r \<noteq> ''OPTIONS''" using route_method [OF assms(1)] by auto
  then show ?thesis
    using se token ok handler n x unfolding admitted_def safe_method_def session_cookie_name_def
    by - (rule exI [of _ token], rule exI [of _ n], rule exI [of _ se], rule exI [of _ u], rule exI [of _ p],
      rule exI [of _ w2], rule exI [of _ i], rule exI [of _ y], simp)
qed

text \<open>
  C34. A refusal is without effect: a request to a protected route that is answered with 401 or 403
  leaves the database, the queue, the running drills, the hub and the files as they were, when no
  other request runs besides.
\<close>

theorem refusal_changes_nothing:
  assumes "find_route r = Some rt" and "rt_Access rt = Require perm" and "\<forall>n. others_at e n = []"
    and "run_state (serve e sv r) w = (Some x, w')" and "re_Status x \<in> {401, 403}"
  shows "w'\<lparr>w_step := w_step w\<rparr> = w"
proof -
  obtain i n y hs where n: "n = w_step w \<or> n = Suc (w_step w)" and x: "x = under_headers hs y"
    and run: "run_state (require e sv perm (\<lambda>p. protected (rt_Endpoint rt) e sv p
        (coalesce (match_path (rt_Pattern rt) (rq_Path r))) (r\<lparr>rq_requestID := i\<rparr>)) (r\<lparr>rq_requestID := i\<rparr>))
      (w\<lparr>w_step := n\<rparr>) = (Some y, w')"
    by (rule protected_run [OF assms(1,2,4)])
  have "rt_Endpoint rt \<noteq> EpLogin" using protected_route find_route_in assms(1,2) by blast
  then have "re_Status y \<notin> {401, 403}" if "run_state (protected (rt_Endpoint rt) e sv p
      (coalesce (match_path (rt_Pattern rt) (rq_Path r))) (r\<lparr>rq_requestID := i\<rparr>)) w2 = (Some y, w')" for p w2
    using yieldsD [OF protected_ok that] by (simp add: handler_reply_def)
  then have "w' = w\<lparr>w_step := n\<rparr> \<or> (\<exists>token. w' = snd (run_state (Authenticate e token) (w\<lparr>w_step := n\<rparr>)))"
    using require_run [OF run] assms(5) x by auto
  then show ?thesis by (elim disjE exE) (simp_all add: Authenticate_alone [OF assms(3)])
qed

text \<open>
  Every request respects the life cycle: whatever the method, path, cookies and body, and whatever
  fails or runs besides, a drill's status moves only along the permitted transitions, a finished
  drill stays as it is, and no snapshot or policy a drill refers to disappears.
\<close>

theorem requests_respect_lifecycle:
  "tables_evolve (w_db w) (w_db (snd (run_state (serve e sv r) w)))"
  using keeps_run [OF requests_evolve.serve_keeps, of "w_db w" w e sv r] by (simp add: on_db_def)


section \<open>Organizations\<close>

lemma Authenticate_tenant:
  assumes "others_keep e (foreign_kept org (sha256 e token) fr)"
  shows "hoare (on_db (foreign_kept org (sha256 e token) fr)) (Authenticate e token)
    (\<lambda>res w. on_db (foreign_kept org (sha256 e token) fr) w \<and> (\<forall>p c. res = Inr (p, c) \<longrightarrow> pr_OrganizationID p = org))"
proof (rule hoareI)
  let ?K = "foreign_kept org (sha256 e token) fr"
  fix w res w'
  assume w: "on_db ?K w" and run: "run_state (Authenticate e token) w = (res, w')"
  have "keeps (on_db ?K) (Authenticate e token)"
    unfolding Authenticate_def store_roles_def by (intro keeps_intros assms)
  then have "on_db ?K w'" using keeps_run [of "on_db ?K" "Authenticate e token" w] w run by simp
  moreover have "pr_OrganizationID p = org" if "res = Inr (p, c)" for p c
  proof -
    have "?K (db_seen e w)" using w db_seen_keeps [OF assms] by (simp add: on_db_def)
    with Authenticate_session [OF run [unfolded that]] show ?thesis
      by (auto simp: foreign_kept_def session_owned_def principal_of_def)
  qed
  ultimately show "on_db ?K w' \<and> (\<forall>p c. res = Inr (p, c) \<longrightarrow> pr_OrganizationID p = org)" by blast
qed

lemma require_tenant:
  assumes "others_keep e (foreign_kept org (sha256 e token) fr)"
    and "map_of (rq_Cookies r) session_cookie_name = Some token"
    and "\<And>p. pr_OrganizationID p = org \<Longrightarrow> keeps (on_db (foreign_kept org (sha256 e token) fr)) (next p)"
  shows "keeps (on_db (foreign_kept org (sha256 e token) fr)) (require e sv perm next r)"
  unfolding keeps_def require_def assms(2) option.case
proof (rule hoare_bind [OF Authenticate_tenant [OF assms(1)]])
  let ?I = "on_db (foreign_kept org (sha256 e token) fr)"
  fix res
  show "hoare (\<lambda>w. ?I w \<and> (\<forall>p c. res = Inr (p, c) \<longrightarrow> pr_OrganizationID p = org))
    (case res of
       Inl _ \<Rightarrow> respond (writeError r 401 ''UNAUTHORIZED'' ''Session is invalid or expired.'')
     | Inr (p, csrfHash) \<Rightarrow>
         if perm \<noteq> [] \<and> \<not> Allowed (pr_Roles p) perm
         then respond (writeError r 403 ''FORBIDDEN'' ''You do not have permission to perform this action.'')
         else if \<not> safe_method (rq_Method r) \<and>
             (header_get r ''X-Csrf-Token'' = [] \<or> sha256 e (header_get r ''X-Csrf-Token'') \<noteq> csrfHash)
         then respond (writeError r 403 ''CSRF_INVALID'' ''CSRF validation failed.'')
         else if \<not> safe_method (rq_Method r) \<and>
             header_get r ''Origin'' \<noteq> [] \<and> \<not> EqualFold (rune_fold e) (header_get r ''Origin'') (sv_corsOrigin sv)
         then respond (writeError r 403 ''ORIGIN_INVALID'' ''Request origin is not allowed.'')
         else next p) (\<lambda>_. ?I)"
    using assms(3) by (auto simp: keeps_def hoare_def split: sum.split)
qed

text \<open>
  C6. Organizations are separate: a request to a protected route with the session of one organization
  leaves the users, assets, sources, policies, drills and audit events of all other organizations as
  they were, whatever identifiers it names and whatever fails, as long as the requests running besides
  leave them and the owner of the session alone.
\<close>

theorem tenant_isolation:
  assumes "find_route r = Some rt" and "rt_Access rt = Require perm"
    and "map_of (rq_Cookies r) ''restoreguard_session'' = Some token"
    and "session_owned org (sha256 e token) (w_db w)"
    and "others_keep e (foreign_kept org (sha256 e token) (foreign_rows org (w_db w)))"
  shows "foreign_rows org (w_db (snd (run_state (serve e sv r) w))) = foreign_rows org (w_db w)"
proof -
  let ?K = "foreign_kept org (sha256 e token) (foreign_rows org (w_db w))"
  have ep: "rt_Endpoint rt \<noteq> EpLogin" using protected_route find_route_in assms(1,2) by blast
  have "keeps (on_db ?K) (ServeMux e sv (r\<lparr>rq_requestID := i\<rparr>))" for i
    using assms(1,2,3,5) tenants.protected_keeps [OF _ ep, of _ org e "sha256 e token" "foreign_rows org (w_db w)" sv]
    by (auto simp: ServeMux_def session_cookie_name_def intro!: require_tenant)
  then have "keeps (on_db ?K) (serve e sv r)"
    unfolding serve_def secure_def Let_def by (intro keeps_intros)
  then show ?thesis
    using keeps_run [of "on_db ?K" "serve e sv r" w] assms(4) by (simp add: on_db_def foreign_kept_def)
qed

section \<open>Example requests\<close>

definition api_request :: "string \<Rightarrow> string list \<Rightarrow> (string \<times> string) list \<Rightarrow> (string \<times> string) list \<Rightarrow> request" where
  "api_request m path headers cookies =
     \<lparr>rq_Method = m, rq_Path = ''api'' # ''v1'' # path, rq_Query = [], rq_Header = headers, rq_Cookies = cookies,
      rq_Body = \<lparr>r_data = [], r_err = None\<rparr>, rq_RemoteIP = None, rq_requestID = [], rq_Flusher = True, rq_Stream = []\<rparr>"

definition session_request :: "(string \<times> string) list \<Rightarrow> request" where
  "session_request cookies = api_request ''GET'' [''auth'', ''session''] [] cookies"

definition logout_request :: request where
  "logout_request = api_request ''POST'' [''auth'', ''logout''] [(''X-Csrf-Token'', ''csrf'')] [(''restoreguard_session'', ''token'')]"

definition example_server :: Server where
  "example_server = \<lparr>sv_cookieSecure = True, sv_corsOrigin = ''https://app''\<rparr>"

lemma example_routes:
  "find_route (session_request cs) = Some (mk_route ''GET'' (api ''auth'' [Lit ''session'']) (Require []) EpSession)"
  "find_route logout_request = Some (mk_route ''POST'' (api ''auth'' [Lit ''logout'']) (Require []) EpLogout)"
  by (simp_all add: find_route_def routes_def route_matches_def session_request_def logout_request_def api_request_def method_matches_def)

lemma serve_plain:
  assumes "uuid_Parse e (header_get r ''X-Request-Id'') \<noteq> None" and "header_get r ''Origin'' = []"
    and "run_state (ServeMux e sv (r\<lparr>rq_requestID := header_get r ''X-Request-Id''\<rparr>)) w = (x, w')"
  shows "run_state (serve e sv r) w =
    (map_option (under_headers (secure_headers (header_get r ''X-Request-Id''))) x, w')"
  using assms by (auto simp: serve_def secure_def Let_def)

lemma session_request_simps [simp]:
  "rq_Cookies (session_request cs) = cs" "rq_Method (session_request cs) = ''GET''" "header_get (session_request cs) k = []"
  by (simp_all add: session_request_def api_request_def get_first_def coalesce_def)

lemma session_served:
  "\<exists>x w'. run_state (serve calm sv (session_request [(''restoreguard_session'', ''token'')])) (account_world []) = (Some x, w') \<and>
     re_Status x = 200"
proof -
  obtain w' where "run_state (Authenticate calm ''token'') (account_world []) =
      (Inr (\<lparr>pr_UserID = ''u1'', pr_OrganizationID = ''o1'', pr_Email = ''a@b'', pr_DisplayName = ''A'',
           pr_Roles = [''OWNER'']\<rparr>, ''c''), w')"
    using example_authenticates [of "[]"] by (metis prod.collapse)
  then have "run_state (ServeMux calm sv ((session_request [(''restoreguard_session'', ''token'')])\<lparr>rq_requestID := []\<rparr>))
      (account_world []) = (Some (writeJSON 200 (JObj [(''user'', principal_json \<lparr>pr_UserID = ''u1'', pr_OrganizationID = ''o1'',
        pr_Email = ''a@b'', pr_DisplayName = ''A'', pr_Roles = [''OWNER'']\<rparr>)])), w')"
    by (simp add: ServeMux_def example_routes require_def session_cookie_name_def protected_def session_handler_def safe_method_def)
  then show ?thesis
    using serve_plain [of calm "session_request [(''restoreguard_session'', ''token'')]"] by (simp add: writeJSON_def)
qed

lemma session_refused:
  "\<exists>x w'. run_state (serve calm example_server (session_request [])) (account_world []) = (Some x, w') \<and> re_Status x = 401"
proof -
  have "run_state (ServeMux calm example_server ((session_request [])\<lparr>rq_requestID := []\<rparr>)) (account_world []) =
      (Some (writeError ((session_request [])\<lparr>rq_requestID := []\<rparr>) 401 ''UNAUTHORIZED'' ''Authentication is required.''), account_world [])"
    by (simp add: ServeMux_def example_routes require_def)
  then show ?thesis
    using serve_plain [of calm "session_request []"] by (simp add: writeError_def writeJSON_def)
qed

theorem access_control_witness:
  "\<exists>se. se \<in> set (sessions (account_tables [])) \<and> se_token_hash se = ''t'' \<and> se_revoked_at se = None"
proof -
  obtain x w' where run: "run_state (serve calm example_server (session_request [(''restoreguard_session'', ''token'')]))
      (account_world []) = (Some x, w')" "re_Status x = 200" using session_served by blast
  from access_control [OF example_routes(1) _ run(1)] run(2) obtain token n se where
    "map_of (rq_Cookies (session_request [(''restoreguard_session'', ''token'')])) ''restoreguard_session'' = Some token"
    "se \<in> set (sessions (db_seen calm ((account_world [])\<lparr>w_step := n\<rparr>)))" "se_token_hash se = sha256 calm token" "se_revoked_at se = None"
    by auto
  then show ?thesis
    by (auto simp: session_request_def api_request_def db_seen_def calm_interleave)
qed

theorem refusal_changes_nothing_witness:
  "\<exists>x w'. run_state (serve calm example_server (session_request [])) (account_world []) = (Some x, w') \<and>
     re_Status x = 401 \<and> w'\<lparr>w_step := 0\<rparr> = account_world []"
proof -
  obtain x w' where run: "run_state (serve calm example_server (session_request [])) (account_world []) = (Some x, w')"
    "re_Status x = 401" using session_refused by blast
  from refusal_changes_nothing [OF example_routes(1) _ _ run(1)] run show ?thesis by auto
qed

theorem tenant_isolation_witness:
  "foreign_rows ''o1'' (w_db (snd (run_state (serve calm example_server logout_request) (account_world [])))) =
   foreign_rows ''o1'' (account_tables [])"
proof -
  have "map_of (rq_Cookies logout_request) ''restoreguard_session'' = Some ''token''"
    by (simp add: logout_request_def api_request_def)
  moreover have "session_owned ''o1'' (sha256 calm ''token'') (w_db (account_world []))"
    by (simp add: session_owned_def account_tables_def)
  ultimately show ?thesis
    using tenant_isolation [OF example_routes(2) _ _ _ calm_others_keep, of "[]" "''token''" "''o1''" "account_world []" example_server]
    by simp
qed

section \<open>Headers\<close>

lemma handler_reply_mono: "handler_reply S x \<Longrightarrow> handler_reply {} x"
  by (simp add: handler_reply_def)

lemma yields_mono: "yields Q m \<Longrightarrow> (\<And>a. Q a \<Longrightarrow> Q' a) \<Longrightarrow> yields Q' m"
  by (simp add: yields_def)

lemma ServeMux_headers: "yields (handler_reply {}) (ServeMux e sv r)"
  unfolding ServeMux_def
proof (intro yields_intros)
  show "handler_reply {} (Some (no_route r))"
    by (simp add: handler_reply_def no_route_def text_reply_def handler_header_def Let_def)
next
  fix rt
  have login: "yields (handler_reply {}) (login_handler e sv r)"
    unfolding login_handler_def by (intro yields_intros) simp_all
  have open_ok: "yields (handler_reply {}) (open_handler e sv (rt_Endpoint rt) r)"
    unfolding open_handler_def health_handler_def ready_handler_def
    by (cases "rt_Endpoint rt"; simp add: login; (intro yields_intros)?; simp)
  have prot: "yields (handler_reply {}) (protected (rt_Endpoint rt) e sv p i r)" for p i
  proof (cases "rt_Endpoint rt = EpLogin")
    case True
    then show ?thesis by (simp add: protected_def login)
  next
    case False
    then show ?thesis by (intro yields_mono [OF protected_ok]) (auto intro: handler_reply_mono)
  qed
  show "yields (handler_reply {}) (case rt_Access rt of
       Public \<Rightarrow> open_handler e sv (rt_Endpoint rt) r
     | Require permission \<Rightarrow>
         require e sv permission
           (\<lambda>p. protected (rt_Endpoint rt) e sv p (coalesce (match_path (rt_Pattern rt) (rq_Path r))) r) r)"
    unfolding require_def by (cases "rt_Access rt") (auto intro!: yields_intros open_ok prot)
qed

lemma map_of_without: "map_of (filter (\<lambda>(k, v). k \<notin> S) hs) k = (if k \<in> S then None else map_of hs k)"
  by (induction hs) auto

lemma under_headers_map_of:
  assumes "list_all handler_header (re_Header x)"
  shows "map_of (re_Header (under_headers hs x)) k =
    (case map_of (re_Header x) k of Some v \<Rightarrow> Some v | None \<Rightarrow> map_of hs k)"
    and "map_of (re_Header x) k = Some v \<Longrightarrow> handler_header (k, v)"
proof -
  show "map_of (re_Header (under_headers hs x)) k =
    (case map_of (re_Header x) k of Some v \<Rightarrow> Some v | None \<Rightarrow> map_of hs k)"
    by (simp add: under_headers_def map_of_without map_add_def map_of_eq_None_iff split: option.split)
      (metis map_of_eq_None_iff option.distinct(1) set_map)
  show "handler_header (k, v)" if "map_of (re_Header x) k = Some v"
    using assms map_of_SomeD [OF that] by (auto simp: list_all_iff)
qed

lemma serve_headers:
  assumes "run_state (serve e sv r) w = (Some x, w')"
  shows "\<exists>y. list_all handler_header (re_Header y) \<and> x = under_headers
    (secure_headers (if uuid_Parse e (header_get r ''X-Request-Id'') = None then uuid_at e (w_step w) else header_get r ''X-Request-Id'') @
     (if header_get r ''Origin'' \<noteq> [] \<and> header_get r ''Origin'' = sv_corsOrigin sv then cors_headers (header_get r ''Origin'') else [])) y"
proof -
  define origin where "origin = header_get r ''Origin''"
  define cors where "cors = (origin \<noteq> [] \<and> origin = sv_corsOrigin sv)"
  define i where "i = (if uuid_Parse e (header_get r ''X-Request-Id'') = None then uuid_at e (w_step w) else header_get r ''X-Request-Id'')"
  define hs where "hs = secure_headers i @ (if cors then cors_headers origin else [])"
  have pre: "list_all handler_header (re_Header preflight)"
    by (simp add: preflight_def handler_header_def write_status_def)
  obtain v where v: "run_state (if uuid_Parse e (header_get r ''X-Request-Id'') = None then uuid_NewString e
      else State_Monad.return (header_get r ''X-Request-Id'')) w = (i, v)"
    by (cases "uuid_Parse e (header_get r ''X-Request-Id'') = None") (simp_all add: i_def uuid_NewString_def)
  obtain y v' where mux: "run_state (ServeMux e sv (r\<lparr>rq_requestID := i\<rparr>)) v = (y, v')" by fastforce
  have "run_state (serve e sv r) w = (if cors \<and> rq_Method r = ''OPTIONS'' then (Some (under_headers hs preflight), v)
      else (map_option (under_headers hs) y, v'))"
    by (simp add: serve_def secure_def v mux Let_def hs_def cors_def origin_def) auto
  moreover have "list_all handler_header (re_Header z)" if "y = Some z" for z
    using yieldsD [OF ServeMux_headers mux] that by (simp add: handler_reply_def)
  ultimately have "\<exists>y. list_all handler_header (re_Header y) \<and> x = under_headers hs y"
    using assms pre by (cases y) (auto split: if_splits)
  then show ?thesis unfolding hs_def i_def cors_def origin_def .
qed

text \<open>
  Every reply is hardened: a reply of the server, from a handler, the middleware, a preflight or
  a missing route, carries the request identifier and the headers against sniffing, framing and
  leaking referrers and the content security policy. Another origin is allowed to read it, with
  credentials, exactly when the request names an origin that is the configured one.
\<close>

theorem secured_replies:
  assumes "run_state (serve e sv r) w = (Some x, w')"
  shows "map_of (re_Header x) ''X-Request-Id'' = Some (if uuid_Parse e (header_get r ''X-Request-Id'') = None
        then uuid_at e (w_step w) else header_get r ''X-Request-Id'') \<and>
    map_of (re_Header x) ''X-Content-Type-Options'' = Some ''nosniff'' \<and>
    map_of (re_Header x) ''X-Frame-Options'' = Some ''DENY'' \<and>
    map_of (re_Header x) ''Referrer-Policy'' = Some ''no-referrer'' \<and>
    map_of (re_Header x) ''Content-Security-Policy'' = map_of (secure_headers []) ''Content-Security-Policy'' \<and>
    (\<forall>k. k \<in> {''Access-Control-Allow-Origin'', ''Access-Control-Allow-Credentials''} \<longrightarrow>
      map_of (re_Header x) k =
        (if header_get r ''Origin'' \<noteq> [] \<and> header_get r ''Origin'' = sv_corsOrigin sv
         then map_of (cors_headers (header_get r ''Origin'')) k else None))"
proof -
  obtain y where y: "list_all handler_header (re_Header y)" and x: "x = under_headers
    (secure_headers (if uuid_Parse e (header_get r ''X-Request-Id'') = None then uuid_at e (w_step w) else header_get r ''X-Request-Id'') @
     (if header_get r ''Origin'' \<noteq> [] \<and> header_get r ''Origin'' = sv_corsOrigin sv then cors_headers (header_get r ''Origin'') else [])) y"
    using serve_headers [OF assms] by blast
  have own: "map_of (re_Header y) k = None" if "\<And>v. \<not> handler_header (k, v)" for k
    using under_headers_map_of(2) [OF y] that by (cases "map_of (re_Header y) k") auto
  have sniff: "map_of (re_Header y) ''X-Content-Type-Options'' \<in> {None, Some ''nosniff''}"
    using under_headers_map_of(2) [OF y, of "''X-Content-Type-Options''"]
    by (cases "map_of (re_Header y) ''X-Content-Type-Options''") (auto simp: handler_header_def)
  show ?thesis
    unfolding x under_headers_map_of(1) [OF y]
    using sniff by (auto simp: own handler_header_def secure_headers_def cors_headers_def)
qed

theorem secured_replies_witness:
  "\<exists>x w'. run_state (serve calm example_server (session_request [])) (account_world []) = (Some x, w') \<and>
     map_of (re_Header x) ''X-Frame-Options'' = Some ''DENY'' \<and> map_of (re_Header x) ''Access-Control-Allow-Origin'' = None"
proof -
  obtain x w' where run: "run_state (serve calm example_server (session_request [])) (account_world []) = (Some x, w')"
    using session_refused by blast
  from secured_replies [OF this] run show ?thesis by auto
qed

end
