(* ===== verification/Http_Stream.thy ===== *)
theory Http_Stream
  imports Http_Properties Worker_Cleanup
begin

text \<open>
  The event stream of a drill as a bounded queue. The specification \<open>stream_spec\<close> knows nothing of the
  hub: a queue of at most 32 payloads that takes the events of the one drill while the hub is open,
  delivers in order, and ends once it is closed and empty. The handler \<open>events\<close>, which shares its
  channel with the hub and every publisher, refines it.
\<close>

section \<open>Specification\<close>

fun stream_spec :: "(Event \<Rightarrow> bytes option) \<Rightarrow> string \<Rightarrow> bool \<Rightarrow> bytes list \<Rightarrow> wake list \<Rightarrow> bytes" where
  "stream_spec marshal drillID shut q [] = []"
| "stream_spec marshal drillID shut q (wk # wakes) =
     (case wk of
        ClientGone \<Rightarrow> []
      | Heartbeat \<Rightarrow> sse_keepalive @ stream_spec marshal drillID shut q wakes
      | Elsewhere ev \<Rightarrow> stream_spec marshal drillID shut
          (case marshal ev of
             Some p \<Rightarrow> if \<not> shut \<and> evt_DrillID ev = drillID \<and> length q < 32 then q @ [p] else q
           | None \<Rightarrow> q) wakes
      | Shutdown \<Rightarrow> stream_spec marshal drillID True q wakes
      | Received \<Rightarrow>
          (case q of
             p # ps \<Rightarrow> sse_progress p @ stream_spec marshal drillID shut ps wakes
           | [] \<Rightarrow> if shut then [] else stream_spec marshal drillID shut [] wakes))"


section \<open>The abstraction relation\<close>

definition stream_at :: "EventHub \<Rightarrow> nat \<Rightarrow> string \<Rightarrow> bool \<Rightarrow> bytes list \<Rightarrow> bool" where
  "stream_at h c drillID shut q =
     (hub_inv h \<and> c < length (channels h) \<and> channels h ! c = \<lparr>ch_buf = q, ch_closed = shut\<rparr> \<and>
      (if shut then c \<notin> set (all_subs h) else c \<in> set (subs_of h drillID)))"

lemma subs_channels [simp]:
  "all_subs (h\<lparr>channels := x\<rparr>) = all_subs h" "subs_of (h\<lparr>channels := x\<rparr>) d = subs_of h d"
  by (simp_all add: all_subs_def subs_of_def)

lemma subs_of_disjoint:
  assumes "hub_inv h" and "c \<in> set (subs_of h d)" and "d' \<noteq> d"
  shows "c \<notin> set (subs_of h d')"
proof -
  have disjoint: "set cs \<inter> set cs' = {}"
    if "distinct (concat (map snd al))" "map_of al d = Some cs" "map_of al d' = Some cs'" for cs cs' and al :: "(string \<times> nat list) list"
    using that assms(3)
  proof (induction al)
    case (Cons kv al)
    then show ?case
      using map_of_in_concat [of al d cs] map_of_in_concat [of al d' cs'] by (cases kv) (auto split: if_splits)
  qed simp
  have dist: "distinct (concat (map snd (subscribers h)))" using assms(1) by (simp add: hub_inv_def all_subs_def)
  obtain cs where cs: "map_of (subscribers h) d = Some cs" "c \<in> set cs"
    using assms(2) by (cases "map_of (subscribers h) d") (simp_all add: subs_of_def)
  show ?thesis
    using disjoint [OF dist cs(1)] cs(2) by (cases "map_of (subscribers h) d'") (auto simp: subs_of_def)
qed

lemma stream_subscribe:
  assumes "hub_inv h"
  shows "stream_at (fst (Subscribe d h)) (snd (Subscribe d h)) d False []"
  using Subscribe_inv [OF assms, of d]
  by (simp add: stream_at_def Subscribe_def Let_def subs_of_def update_conv')

lemma stream_publish:
  assumes "stream_at h c d shut q"
  shows "\<exists>h'. Publish marshal ev h = Some h' \<and> stream_at h' c d shut
    (case marshal ev of Some p \<Rightarrow> if \<not> shut \<and> evt_DrillID ev = d \<and> length q < 32 then q @ [p] else q | None \<Rightarrow> q)"
proof (cases "marshal ev")
  case (Some p)
  let ?l = "subs_of h (evt_DrillID ev)"
  have inv: "hub_inv h" and c: "c < length (channels h)" "channels h ! c = \<lparr>ch_buf = q, ch_closed = shut\<rparr>"
    using assms by (simp_all add: stream_at_def)
  have mine: "c \<in> set ?l \<longleftrightarrow> \<not> shut \<and> evt_DrillID ev = d"
    using assms subs_of_disjoint [OF inv, of c d] subs_of_subset [of h]
    by (auto simp: stream_at_def split: if_splits)
  obtain cs' where cs': "send_all p ?l (channels h) = Some cs'" "length cs' = length (channels h)"
    "\<forall>c < length (channels h). cs' ! c =
       (if c \<in> set ?l \<and> length (ch_buf (channels h ! c)) < chan_cap
        then (channels h ! c)\<lparr>ch_buf := ch_buf (channels h ! c) @ [p]\<rparr> else channels h ! c)"
    using send_all_open hub_inv_subs [OF inv] by metis
  let ?h = "h\<lparr>channels := cs'\<rparr>"
  have "Publish marshal ev h = Some ?h" using Some cs' by (simp add: Publish_def)
  moreover from this have "hub_inv ?h" using Publish_inv [OF inv, of marshal ev] by simp
  ultimately show ?thesis
    using assms cs' c mine Some by (auto simp: stream_at_def chan_cap_def)
qed (use assms in \<open>simp add: Publish_def\<close>)

lemma stream_close:
  assumes "stream_at h c d shut q"
  shows "\<exists>h'. hub_Close h = Some h' \<and> stream_at h' c d True q"
proof -
  have inv: "hub_inv h" and c: "c < length (channels h)" "channels h ! c = \<lparr>ch_buf = q, ch_closed = shut\<rparr>"
    using assms by (simp_all add: stream_at_def)
  obtain cs' where cs': "close_all (all_subs h) (channels h) = Some cs'"
    "length cs' = length (channels h)"
    "\<forall>c < length (channels h). cs' ! c =
       (if c \<in> set (all_subs h) then (channels h ! c)\<lparr>ch_closed := True\<rparr> else channels h ! c)"
    using close_all_open [of "all_subs h" "channels h"] inv by (auto simp: hub_inv_def)
  let ?h = "h\<lparr>channels := cs', subscribers := []\<rparr>"
  have close: "hub_Close h = Some ?h" using cs'(1) by (simp add: hub_Close_def all_subs_def)
  then have "hub_inv ?h" using hub_Close_inv [OF inv] by simp
  moreover have "shut \<or> c \<in> set (all_subs h)"
    using assms subs_of_subset [of h d] by (auto simp: stream_at_def split: if_splits)
  then have "cs' ! c = \<lparr>ch_buf = q, ch_closed = True\<rparr>" using cs'(3) c by auto
  ultimately show ?thesis using close cs'(2) c(1) by (simp add: stream_at_def all_subs_def)
qed

lemma stream_receive:
  assumes "stream_at h c d shut q"
  shows "receive c h = (case q of
      p # ps \<Rightarrow> Some (Some p, h\<lparr>channels := (channels h)[c := \<lparr>ch_buf = ps, ch_closed = shut\<rparr>]\<rparr>)
    | [] \<Rightarrow> if shut then Some (None, h) else None)"
    and "q = p # ps \<Longrightarrow> stream_at (h\<lparr>channels := (channels h)[c := \<lparr>ch_buf = ps, ch_closed = shut\<rparr>]\<rparr>) c d shut ps"
proof -
  show r: "receive c h = (case q of
      p # ps \<Rightarrow> Some (Some p, h\<lparr>channels := (channels h)[c := \<lparr>ch_buf = ps, ch_closed = shut\<rparr>]\<rparr>)
    | [] \<Rightarrow> if shut then Some (None, h) else None)"
    using assms by (simp add: stream_at_def receive_def split: list.split)
  show "stream_at (h\<lparr>channels := (channels h)[c := \<lparr>ch_buf = ps, ch_closed = shut\<rparr>]\<rparr>) c d shut ps" if "q = p # ps"
  proof -
    let ?h = "h\<lparr>channels := (channels h)[c := \<lparr>ch_buf = ps, ch_closed = shut\<rparr>]\<rparr>"
    have "hub_inv ?h" using assms receive_inv [of h c "Some p" ?h] r that by (simp add: stream_at_def)
    then show ?thesis using assms by (simp add: stream_at_def)
  qed
qed

text \<open>The subscription ends with the handler.\<close>

lemma stream_unsubscribe:
  assumes "stream_at h c d shut q"
  shows "\<exists>h'. unsubscribe d c h = Some h' \<and> hub_inv h' \<and> c \<notin> set (all_subs h')"
proof -
  have inv: "hub_inv h" using assms by (simp add: stream_at_def)
  obtain h' where h': "unsubscribe d c h = Some h'" "hub_inv h'" using unsubscribe_inv [OF inv] by blast
  have "\<not> open_at (channels h') c"
    using assms h'(1) subs_of_subset [of h d]
    by (auto simp: stream_at_def unsubscribe_def close_chan_def open_at_def split: if_splits option.splits)
  then show ?thesis using h' by (auto simp: hub_inv_def list_all_iff)
qed


section \<open>Refinement\<close>

lemma event_loop_spec:
  assumes "stream_at (w_hub w) c d shut q"
  shows "\<exists>w' done' q'. run_state (event_loop e c wakes) w = (stream_spec marshal_event d shut q wakes, w') \<and>
    stream_at (w_hub w') c d done' q' \<and> w_crashed w' = w_crashed w"
  using assms
proof (induction wakes arbitrary: w shut q)
  case Nil
  then show ?case by (intro exI [of _ w] exI [of _ shut] exI [of _ q]) simp
next
  case (Cons wk wakes)
  show ?case
  proof (cases wk)
    case ClientGone
    then show ?thesis using Cons.prems by (intro exI [of _ w] exI [of _ shut] exI [of _ q]) simp
  next
    case Heartbeat
    from Cons.IH [OF Cons.prems] obtain w' done' q' where
      "run_state (event_loop e c wakes) w = (stream_spec marshal_event d shut q wakes, w')"
      "stream_at (w_hub w') c d done' q'" "w_crashed w' = w_crashed w" by blast
    then show ?thesis using Heartbeat by (intro exI [of _ w'] exI [of _ done'] exI [of _ q']) simp
  next
    case (Elsewhere ev)
    obtain h' where h': "Publish marshal_event ev (w_hub w) = Some h'"
      "stream_at h' c d shut (case marshal_event ev of
         Some p \<Rightarrow> if \<not> shut \<and> evt_DrillID ev = d \<and> length q < 32 then q @ [p] else q | None \<Rightarrow> q)"
      using stream_publish [OF Cons.prems, of marshal_event ev] by blast
    then show ?thesis using Cons.IH [of "w\<lparr>w_hub := h'\<rparr>"] Elsewhere by (simp add: publish_def)
  next
    case Shutdown
    obtain h' where h': "hub_Close (w_hub w) = Some h'" "stream_at h' c d True q" using stream_close [OF Cons.prems] by blast
    then show ?thesis using Cons.IH [of "w\<lparr>w_hub := h'\<rparr>"] Shutdown by (simp add: hub_upd_def)
  next
    case Received
    show ?thesis
    proof (cases q)
      case Nil
      show ?thesis
      proof (cases shut)
        case True
        then show ?thesis
          using Cons.prems Nil Received stream_receive(1) [OF Cons.prems]
          by (intro exI [of _ w] exI [of _ shut] exI [of _ q]) (simp add: State_Monad.get_def)
      next
        case False
        then show ?thesis
          using Cons.IH [OF Cons.prems] Nil Received stream_receive(1) [OF Cons.prems] by (simp add: State_Monad.get_def)
      qed
    next
      case q: (Cons p ps)
      let ?h = "(w_hub w)\<lparr>channels := (channels (w_hub w))[c := \<lparr>ch_buf = ps, ch_closed = shut\<rparr>]\<rparr>"
      have "receive c (w_hub w) = Some (Some p, ?h)" using stream_receive(1) [OF Cons.prems] q by simp
      moreover obtain w' done' q' where
        "run_state (event_loop e c wakes) (w\<lparr>w_hub := ?h\<rparr>) = (stream_spec marshal_event d shut ps wakes, w')"
        "stream_at (w_hub w') c d done' q'" "w_crashed w' = w_crashed w"
        using Cons.IH [of "w\<lparr>w_hub := ?h\<rparr>" shut ps] stream_receive(2) [OF Cons.prems q] by auto
      ultimately show ?thesis
        using Received q by (intro exI [of _ w'] exI [of _ done'] exI [of _ q']) (simp add: State_Monad.get_def)
    qed
  qed
qed

lemma hub_GetDrill:
  "run_state (GetDrill e org i) w = (r, w') \<Longrightarrow> w_hub w' = w_hub w \<and> w_crashed w' = w_crashed w"
proof -
  assume run: "run_state (GetDrill e org i) w = (r, w')"
  have "keeps (on_process (\<lambda>pc. pc = process_of w)) (GetDrill e org i)"
    unfolding GetDrill_def ListDrills_def by (intro keeps_intros)
  from keeps_run [OF this, of w] run have "process_of w' = process_of w" by (simp add: on_process_def)
  then show ?thesis by (simp add: process_of_def)
qed

text \<open>The handler after the drill is found: what it replies, and the hub it leaves.\<close>

definition stream_reply :: "bytes \<Rightarrow> reply" where
  "stream_reply sent = \<lparr>re_Status = 200,
      re_Header = [(''Content-Type'', ''text/event-stream''), (''Cache-Control'', ''no-cache''), (''X-Accel-Buffering'', ''no'')],
      re_Cookies = [], re_Body = Raw (sse_connected @ sent)\<rparr>"

lemma stream_run:
  assumes "run_state (GetDrill e (pr_OrganizationID p) i) w = (Inr d, w1)"
    and "rq_Flusher r" and "hub_inv (w_hub w)"
  obtains w' where
    "run_state (events_handler e sv p i r) w = (Some (stream_reply (stream_spec marshal_event i False [] (rq_Stream r))), w')"
    "w_crashed w' = w_crashed w" "hub_inv (w_hub w')" "length (channels (w_hub w)) \<notin> set (all_subs (w_hub w'))"
proof -
  let ?c = "length (channels (w_hub w))" and ?w = "w1\<lparr>w_hub := fst (Subscribe i (w_hub w))\<rparr>"
  have w1: "w_hub w1 = w_hub w" "w_crashed w1 = w_crashed w" using hub_GetDrill [OF assms(1)] by auto
  have "snd (Subscribe i (w_hub w)) = ?c" by (simp add: Subscribe_def Let_def)
  then have "stream_at (w_hub ?w) ?c i False []" using stream_subscribe [OF assms(3), of i] by simp
  from event_loop_spec [OF this, of e "rq_Stream r"] obtain w2 done' q' where
    loop: "run_state (event_loop e ?c (rq_Stream r)) ?w = (stream_spec marshal_event i False [] (rq_Stream r), w2)"
    and at: "stream_at (w_hub w2) ?c i done' q'" and crashed: "w_crashed w2 = w_crashed ?w" by blast
  obtain h' where h': "unsubscribe i ?c (w_hub w2) = Some h'" "hub_inv h'" "?c \<notin> set (all_subs h')"
    using stream_unsubscribe [OF at] by blast
  have "run_state (State (\<lambda>w. let (h, c) = Subscribe i (w_hub w) in (c, w\<lparr>w_hub := h\<rparr>))) w1 = (?c, ?w)"
    by (simp add: w1(1) Subscribe_def Let_def)
  with assms(1,2) loop h'(1)
  have "run_state (events_handler e sv p i r) w =
      (Some (stream_reply (stream_spec marshal_event i False [] (rq_Stream r))), w2\<lparr>w_hub := h'\<rparr>)"
    by (simp add: events_handler_def hub_upd_def stream_reply_def)
  then show ?thesis using that h' crashed w1(2) by simp
qed

text \<open>
  C12. The event stream is a bounded queue: for a drill of the principal's organization, whatever
  other goroutines publish, whenever the client leaves and whether the hub is shut down, the stream
  carries the greeting and then what the specification \<open>stream_spec\<close> writes: the events of this
  drill only, in the order of publication, none twice, dropped only when 32 are waiting, with the
  keep-alives in between. The process does not panic, the hub stays sound, and the channel is no
  longer subscribed when the handler returns.
\<close>

theorem stream_refines_queue:
  assumes "run_state (GetDrill e (pr_OrganizationID p) i) w = (Inr d, w1)"
    and "rq_Flusher r" and "hub_inv (w_hub w)"
  shows "\<exists>x w'. run_state (events_handler e sv p i r) w = (Some x, w') \<and> re_Status x = 200 \<and>
    re_Body x = Raw (sse_connected @ stream_spec marshal_event i False [] (rq_Stream r)) \<and>
    w_crashed w' = w_crashed w \<and> hub_inv (w_hub w') \<and> length (channels (w_hub w)) \<notin> set (all_subs (w_hub w'))"
  by (rule stream_run [OF assms, of sv]) (simp add: stream_reply_def)

definition stream_world :: world where
  "stream_world = idle\<lparr>w_db := no_rows\<lparr>recovery_drills := [queued_drill]\<rparr>\<rparr>"

definition drill_event :: Event where
  "drill_event = \<lparr>evt_DrillID = ''0123456789ab'', evt_Type = ''drill.progress'', evt_Data = []\<rparr>"

theorem stream_refines_queue_witness:
  "\<exists>x w'. run_state (events_handler calm example_server example_principal ''0123456789ab''
      ((api_request ''GET'' [''drills'', ''0123456789ab'', ''events''] [] [])
         \<lparr>rq_Stream := [Elsewhere drill_event, Received, Shutdown, Received, Heartbeat]\<rparr>)) stream_world = (Some x, w') \<and>
    re_Body x = Raw (sse_connected @ sse_progress (the (marshal_event drill_event)))"
proof -
  let ?r = "(api_request ''GET'' [''drills'', ''0123456789ab'', ''events''] [] [])
         \<lparr>rq_Stream := [Elsewhere drill_event, Received, Shutdown, Received, Heartbeat]\<rparr>"
  have "pg_text []" using ascii_text [of "[]"] by simp
  then have "\<exists>w1. run_state (GetDrill calm (pr_OrganizationID example_principal) ''0123456789ab'') stream_world =
      (Inr (scan_drill queued_drill), w1)"
    by (simp add: GetDrill_def ListDrills_def calm_exec list_page_def pageValues_def page_query_def order_by_def drill_rows_def wrap64_def
        stream_world_def Let_def example_principal_def) (simp add: queued_drill_def scan_drill_def)
  moreover have "rq_Flusher ?r" by (simp add: api_request_def)
  moreover have "hub_inv (w_hub stream_world)"
    by (simp add: stream_world_def hub_inv_def NewEventHub_def all_subs_def)
  moreover obtain payload where "marshal_event drill_event = Some payload" by (simp add: marshal_event_def)
  moreover have "evt_DrillID drill_event = ''0123456789ab''" by (simp add: drill_event_def)
  ultimately show ?thesis
    using stream_refines_queue [of calm example_principal "''0123456789ab''" stream_world _ _ ?r example_server]
    by fastforce
qed

end
