(* ===== verification/Http_Findings.thy ===== *)
theory Http_Findings
  imports Http_Stream Evidence_Document
begin

text \<open>
  Behaviours of the HTTP interface that the code does not intend, each as a lemma on the model: a
  \<open>HEAD\<close> request reaches the creating branch of a handler registered for \<open>GET\<close>, cancellation stops
  the running drill of another organization, a drill the full queue refused is never submitted again,
  and a broken connection truncates a list without an error.
\<close>

text \<open>A \<open>VIEWER\<close> starts a drill with \<open>HEAD /api/v1/drills\<close>: no \<open>drill.run\<close>, no CSRF token.\<close>

definition head_body :: json where
  "head_body = JObj [(''protectedAssetId'', JStr ''a1'')]"

definition viewer_world :: world where
  "viewer_world = resource_world\<lparr>w_db := (w_db resource_world)\<lparr>roles := [\<lparr>r_id = ''r1'', r_name = ''VIEWER''\<rparr>]\<rparr>\<rparr>"

definition head_request :: request where
  "head_request = api_request ''HEAD'' [''drills''] [(''Idempotency-Key'', ''k1'')] [(''restoreguard_session'', ''token'')]
     \<lparr>rq_Body := bytes_NewReader (json_Marshal head_body)\<rparr>"

lemma head_decodes: "json_first (MaxBytesReader (rq_Body head_request)) = Some head_body"
proof -
  have small: "length (json_Marshal head_body) \<le> 200"
    using length_json_quote [of "''protectedAssetId''"] length_json_quote [of "''a1''"] by (simp add: head_body_def)
  have "json_ok 10000 head_body"
    unfolding head_body_def by (rule json_ok_Obj) (simp_all add: json_ok_Str json_text_ascii del: json_ok.simps(1))
  then show ?thesis
    by (rule json_first_Marshal [where rest = "[]"])
      (simp_all add: head_request_def api_request_def MaxBytesReader_def max_body_def bytes_NewReader_def number_end_def order.trans [OF small] not_less)
qed

lemma head_route:
  "find_route head_request = Some (mk_route ''GET'' (api ''drills'' []) (Require ''drill.read'') EpDrills)"
  by (simp add: find_route_def routes_def route_matches_def head_request_def api_request_def method_matches_def)

definition viewer :: Principal where
  "viewer = \<lparr>pr_UserID = ''u1'', pr_OrganizationID = ''o1'', pr_Email = ''a@b'', pr_DisplayName = ''A'', pr_Roles = [''VIEWER'']\<rparr>"

lemma viewer_rights: "Allowed (pr_Roles viewer) ''drill.read''" "\<not> Allowed (pr_Roles viewer) ''drill.run''"
  by (simp_all add: viewer_def Allowed_iff rolePermissions_def)

lemma viewer_authenticates:
  "run_state (Authenticate calm ''token'') viewer_world = (Inr (viewer, ''c''), viewer_world\<lparr>w_step := 2\<rparr>)"
  by (simp add: Authenticate_def calm_exec store_roles_def auth_rows_def viewer_world_def resource_world_def account_tables_def
      role_names_def query_row_def principal_of_def viewer_def)

lemma head_starts_drill:
  "\<exists>x w'. run_state (ServeMux calm example_server head_request) viewer_world = (Some x, w') \<and> re_Status x = 202 \<and>
     w_jobs w' = [''0123456789ab''] \<and> map dr_status (recovery_drills (w_db w')) = [DrillQueued]"
proof -
  have text_k1: "pg_text ''k1''" "length (runes ''k1'') = 2" using ascii_text [of "''k1''"] by simp_all
  have decoded: "decode calm drill_fields \<lparr>di_ProtectedAssetID = [], di_BackupSnapshotID = [], di_RecoveryPolicyID = []\<rparr> head_request =
      Some \<lparr>di_ProtectedAssetID = ''a1'', di_BackupSnapshotID = [], di_RecoveryPolicyID = []\<rparr>"
    by (simp add: decode_def head_decodes) (simp add: head_body_def field_for_def drill_fields_def string_field_def)
  have "header_get head_request ''Idempotency-Key'' = ''k1''" "rq_Method head_request = ''HEAD''"
    "map_of (rq_Cookies head_request) session_cookie_name = Some ''token''"
    by (simp_all add: head_request_def api_request_def get_first_def coalesce_def session_cookie_name_def)
  moreover define d where "d = queued_drill\<lparr>dr_created_at := 1000000000000003, dr_updated_at := 1000000000000003\<rparr>"
  define w3 where "w3 = viewer_world\<lparr>w_step := 4, w_db := (w_db viewer_world)\<lparr>recovery_drills := [d]\<rparr>\<rparr>"
  moreover have "run_state (CreateDrill calm viewer ''a1'' [] [] ''k1'') (viewer_world\<lparr>w_step := 2\<rparr>) =
      (Inr (scan_new_drill d, True), w3)"
    using text_k1 by (simp add: CreateDrill_def uuid_NewString_def calm_exec nullif_uuid_def insert_drill_def in_org_def
        viewer_world_def resource_world_def account_tables_def example_asset_def viewer_def Let_def no_rows_def d_def
        queued_drill_def w3_def)
  moreover obtain res w4 where "run_state (Audit calm viewer ''drill.created'' ''recovery_drill'' (d_ID (scan_new_drill d)) ''{}''
      (rq_RemoteIP head_request)) w3 = (res, w4)" "w_jobs w4 = []" "recovery_drills (w_db w4) = [d]"
    by (simp add: Audit_def uuid_NewString_def calm_exec insert_audit_def w3_def viewer_world_def resource_world_def)
  moreover have "d_ID (scan_new_drill d) = ''0123456789ab''" "dr_status d = DrillQueued"
    by (simp_all add: d_def queued_drill_def)
  ultimately show ?thesis
    using viewer_rights(1)
    by (simp add: ServeMux_def head_route require_def viewer_authenticates safe_method_def protected_def drills_handler_def
        decoded Submit_def writeJSON_def Let_def)
qed

text \<open>Cancelling under the identifier of another organization's running drill is answered with 404,
  after the drill's context has been cancelled.\<close>

lemma cancel_reaches_other_tenant:
  assumes "did \<in> set (w_running w)" and "quiet e" and "pg_uuid e did = Some did"
    and "\<forall>d \<in> set (recovery_drills (w_db w)). dr_id d = did \<longrightarrow> dr_organization_id d \<noteq> pr_OrganizationID p"
  shows "\<exists>x w'. run_state (cancel_handler e sv p did r) w = (Some x, w') \<and> re_Status x = 404 \<and> did \<in> set (w_cancelled w')"
proof -
  have "filter (cancel_where (pr_OrganizationID p) did) (recovery_drills (w_db w)) = []"
    using assms(4) by (auto simp: filter_empty_conv cancel_where_def)
  then have "rows_affected (cancel_where (pr_OrganizationID p) did) (recovery_drills (w_db w)) = 0"
    by (simp add: rows_affected_def)
  then show ?thesis
    using assms(1,3)
    by (simp add: cancel_handler_def Cancel_def CancelDrill_def exec_by_id_def quiet_exec [OF assms(2)] cancel_drill_def
        dbError_def writeError_def writeJSON_def)
qed

text \<open>A drill that was stored but not queued, because the queue was full, stays so: the repeated request
  finds it, answers 202 and submits nothing.\<close>

lemma replay_never_submits:
  assumes "rq_Method r \<noteq> ''GET''"
    and "decode e drill_fields \<lparr>di_ProtectedAssetID = [], di_BackupSnapshotID = [], di_RecoveryPolicyID = []\<rparr> r = Some input"
    and "di_ProtectedAssetID input \<noteq> []"
    and "run_state (CreateDrill e p (di_ProtectedAssetID input) (di_BackupSnapshotID input) (di_RecoveryPolicyID input)
      (header_get r ''Idempotency-Key'')) w = (Inr (item, False), w1)"
  shows "\<exists>x. run_state (drills_handler e sv p i r) w = (Some x, w1) \<and> re_Status x = 202 \<and> w_jobs w1 = w_jobs w"
proof -
  have "keeps (on_process (\<lambda>pc. pc = process_of w)) (CreateDrill e p (di_ProtectedAssetID input) (di_BackupSnapshotID input)
      (di_RecoveryPolicyID input) (header_get r ''Idempotency-Key''))"
    unfolding CreateDrill_def by (intro keeps_intros)
  from keeps_run [OF this, of w] assms(4) have "process_of w1 = process_of w" by (simp add: on_process_def)
  then have "w_jobs w1 = w_jobs w" by (simp add: process_of_def)
  then show ?thesis using assms by (simp add: drills_handler_def Let_def writeJSON_def)
qed

lemma full_queue_strands_drill:
  assumes "rq_Method r \<noteq> ''GET''" and "length (w_jobs w) \<ge> 100"
    and "decode e drill_fields \<lparr>di_ProtectedAssetID = [], di_BackupSnapshotID = [], di_RecoveryPolicyID = []\<rparr> r = Some input"
    and "di_ProtectedAssetID input \<noteq> []" and "header_get r ''Idempotency-Key'' \<noteq> []"
    and "run_state (CreateDrill e p (di_ProtectedAssetID input) (di_BackupSnapshotID input) (di_RecoveryPolicyID input)
      (header_get r ''Idempotency-Key'')) w = (Inr (item, True), w1)"
  shows "\<exists>x w'. run_state (drills_handler e sv p i r) w = (Some x, w') \<and> re_Status x = 503 \<and> w_jobs w' = w_jobs w \<and>
    keyed (d_ID item) (pr_OrganizationID p) (header_get r ''Idempotency-Key'') (w_db w1)"
proof -
  let ?create = "CreateDrill e p (di_ProtectedAssetID input) (di_BackupSnapshotID input) (di_RecoveryPolicyID input)
      (header_get r ''Idempotency-Key'')"
  let ?audit = "Audit e p ''drill.created'' ''recovery_drill'' (d_ID item) ''{}'' (rq_RemoteIP r)"
  let ?I = "on_process (\<lambda>pc. pr_jobs pc = w_jobs w)"
  have "keeps ?I ?create" unfolding CreateDrill_def by (intro keeps_intros)
  from keeps_run [OF this, of w] assms(6) have w1: "?I w1" by (simp add: on_process_def process_of_def)
  obtain res w2 where audit: "run_state ?audit w1 = (res, w2)" by fastforce
  have "keeps ?I ?audit" unfolding Audit_def Let_def by (intro keeps_intros)
  from keeps_run [OF this w1] audit have "w_jobs w2 = w_jobs w" by (simp add: on_process_def process_of_def)
  moreover have "keyed (d_ID item) (pr_OrganizationID p) (header_get r ''Idempotency-Key'') (w_db w1)"
    using CreateDrill_result(1) [OF assms(5,6)] .
  ultimately show ?thesis
    using assms audit by (simp add: drills_handler_def Let_def Submit_def writeError_def writeJSON_def)
qed

text \<open>A connection that breaks while the rows of a list are read truncates the list.\<close>

lemma broken_read_truncates:
  assumes "fate_at e (w_step w) = Lost er"
  shows "run_state (rows_reply e r f (Inr rows)) w =
    (Some (writeJSON 200 (JObj [(''data'', JArr (map f (take (cut_at e (w_step w)) rows)))])), w\<lparr>w_step := Suc (w_step w)\<rparr>)"
  using assms by (simp add: rows_reply_def read_rows_def)

end
