(* ===== verification/Backup_Provider.thy ===== *)
theory Backup_Provider
  imports Object_Storage
begin

text \<open>
  The backup source on the local file system (\<open>drill/local_provider.go\<close>, \<open>drill/provider.go\<close>): the
  resolution of snapshot identifiers, discovery, the metadata and the content of a snapshot. The
  listing of the directory is an argument, because the model has no directories; the sizes and
  contents are those of the files at the time of the call.
\<close>

record DiscoveredSnapshot =
  sn_ExternalID :: string
  sn_Name :: string
  sn_Type :: string
  sn_CompletedAt :: instant
  sn_SizeBytes :: int64
  sn_Checksum :: string

record BackupMetadata =
  bm_SizeBytes :: int64
  bm_Checksum :: string
  bm_Format :: string

record LocalProvider =
  lp_root :: string
  lp_maxBytes :: int64

definition zero_snapshot :: DiscoveredSnapshot where
  "zero_snapshot = \<lparr>sn_ExternalID = [], sn_Name = [], sn_Type = [], sn_CompletedAt = 0, sn_SizeBytes = 0, sn_Checksum = []\<rparr>"

definition NewLocalProvider :: "string \<Rightarrow> string \<Rightarrow> int64 \<Rightarrow> LocalProvider result" where
  "NewLocalProvider cwd rootDir maxBytes =
     (if maxBytes \<le> 0 then Inl (Errorf ''max bytes must be positive'')
      else Inr \<lparr>lp_root = filepath_Abs cwd rootDir, lp_maxBytes = maxBytes\<rparr>)"

definition resolve :: "LocalProvider \<Rightarrow> string \<Rightarrow> string result" where
  "resolve p externalID =
     (if externalID = [] \<or> Contains externalID ''..'' \<or> CHR ''/'' \<in> set externalID \<or> CHR 0x5C \<in> set externalID
      then Inl (Errorf ''unsafe snapshot identifier'')
      else
        let path = filepath_Join [lp_root p, externalID] in
        case Rel (lp_root p) path of
          Inl _ \<Rightarrow> Inl (Errorf ''snapshot escapes source root'')
        | Inr rel \<Rightarrow> if HasPrefix rel ''..'' then Inl (Errorf ''snapshot escapes source root'') else Inr path)"

text \<open>An entry of \<open>os.ReadDir\<close> and what \<open>Info\<close> says of its modification time.\<close>

record dir_entry =
  de_Name :: string
  de_IsDir :: bool
  de_ModTime :: instant

definition dump_name :: "string \<Rightarrow> bool" where
  "dump_name name = (HasSuffix name ''.sql'' \<or> HasSuffix name ''.dump'' \<or> HasSuffix name ''.backup'')"

text \<open>\<open>entry.Info()\<close> does not follow a symbolic link and \<open>os.Stat\<close> does; the files of the model are no links, and
  \<open>os_Stat\<close> stands for both.\<close>

fun discover_loop :: "env \<Rightarrow> LocalProvider \<Rightarrow> dir_entry list \<Rightarrow> DiscoveredSnapshot list \<Rightarrow> DiscoveredSnapshot list result program" where
  "discover_loop e p [] found = State_Monad.return (Inr found)"
| "discover_loop e p (entry # entries) found = do {
     n \<leftarrow> tick;
     case ctx_at e n of
       Some er \<Rightarrow> State_Monad.return (Inl er)
     | None \<Rightarrow>
         if de_IsDir entry then discover_loop e p entries found
         else do {
           info \<leftarrow> os_Stat e (join_path (lp_root p) (de_Name entry));
           case info of
             Inl _ \<Rightarrow> discover_loop e p entries found
           | Inr sz \<Rightarrow>
               if sz > lp_maxBytes p \<or> \<not> dump_name (de_Name entry) then discover_loop e p entries found
               else discover_loop e p entries (found @ [\<lparr>sn_ExternalID = de_Name entry, sn_Name = de_Name entry,
                      sn_Type = ''POSTGRES_DUMP'', sn_CompletedAt = de_ModTime entry, sn_SizeBytes = sz, sn_Checksum = []\<rparr>])
         }
   }"

definition Discover :: "env \<Rightarrow> LocalProvider \<Rightarrow> dir_entry list \<Rightarrow> DiscoveredSnapshot list result program" where
  "Discover e p entries = do {
     err \<leftarrow> call e;
     case err of
       Some er \<Rightarrow> State_Monad.return (Inl er)
     | None \<Rightarrow> discover_loop e p entries []
   }"

text \<open>\<open>GetSnapshot\<close> returns the snapshot together with the error of the context.\<close>

definition GetSnapshot :: "env \<Rightarrow> LocalProvider \<Rightarrow> (string \<Rightarrow> instant) \<Rightarrow> string \<Rightarrow> (DiscoveredSnapshot \<times> go_error option) program" where
  "GetSnapshot e p modTime i =
     (case resolve p i of
        Inl er \<Rightarrow> State_Monad.return (zero_snapshot, Some er)
      | Inr path \<Rightarrow> do {
          info \<leftarrow> os_Stat e path;
          case info of
            Inl er \<Rightarrow> State_Monad.return (zero_snapshot, Some er)
          | Inr sz \<Rightarrow> do {
              opened \<leftarrow> os_Open e path;
              case opened of
                Inl er \<Rightarrow> State_Monad.return (zero_snapshot, Some er)
              | Inr file \<Rightarrow>
                  (let (data, copied, err) = io_Copy (io_LimitReader file (wrap64 (lp_maxBytes p + 1))) in
                   case err of
                     Some er \<Rightarrow> State_Monad.return (zero_snapshot, Some er)
                   | None \<Rightarrow> do {
                       n \<leftarrow> tick;
                       State_Monad.return (\<lparr>sn_ExternalID = i, sn_Name = i, sn_Type = ''POSTGRES_DUMP'',
                         sn_CompletedAt = modTime path, sn_SizeBytes = sz, sn_Checksum = hex_sha256 e data\<rparr>, ctx_at e n)
                     })
            }
        })"

definition OpenBackup :: "env \<Rightarrow> LocalProvider \<Rightarrow> string \<Rightarrow> reader result program" where
  "OpenBackup e p i =
     (case resolve p i of
        Inl er \<Rightarrow> State_Monad.return (Inl er)
      | Inr path \<Rightarrow> os_Open e path)"

definition ValidateMetadata :: "LocalProvider \<Rightarrow> BackupMetadata \<Rightarrow> go_error option" where
  "ValidateMetadata p md =
     (if bm_SizeBytes md \<le> 0 \<or> bm_SizeBytes md > lp_maxBytes p then Some (Errorf ''invalid backup size'')
      else if bm_Format md \<noteq> ''plain'' \<and> bm_Format md \<noteq> ''custom''
      then Some (Errorf ''unsupported PostgreSQL dump format'') else None)"

section \<open>Lemmas\<close>

lemma Rel_child_prefix:
  assumes "\<not> Contains i ''..''"
  shows "\<not> HasPrefix i ''..''"
proof
  assume "HasPrefix i ''..''"
  then have "prefix ''..'' i" by (simp add: HasPrefix_prefix)
  then have "sublist ''..'' i" by (rule prefix_imp_sublist)
  then show False using assms by (simp add: Contains_sublist)
qed

text \<open>An accepted identifier is the name of a child of the root; a single dot is the root itself.\<close>

lemma resolve_clean:
  assumes "abs_clean (lp_root p)"
  shows "resolve p i =
    (if i = [] \<or> Contains i ''..'' \<or> CHR ''/'' \<in> set i \<or> CHR 0x5C \<in> set i
     then Inl (Errorf ''unsafe snapshot identifier'')
     else if i = ''.'' then Inr (lp_root p) else Inr (abs_path (path_comps (lp_root p) @ [i])))"
proof (cases "i = [] \<or> Contains i ''..'' \<or> CHR ''/'' \<in> set i \<or> CHR 0x5C \<in> set i")
  case False
  obtain rs where rs: "lp_root p = abs_path rs" "list_all normal_comp rs" "path_comps (lp_root p) = rs"
    using assms by (rule abs_cleanE)
  have single: "strings_Split (CHR ''/'') i = [i]" using False by (intro strings_Split_single) simp
  then have dots: "''..'' \<notin> set (strings_Split (CHR ''/'') i)" using False no_dotdot_split by blast
  let ?ks = "filter (\<lambda>c. c \<noteq> [] \<and> c \<noteq> ''.'') (strings_Split (CHR ''/'') i)"
  have join: "filepath_Join [lp_root p, i] = abs_path (rs @ ?ks)"
    unfolding rs(1) using False by (intro Join_below_root rs(2) dots) simp
  have rel: "Rel (lp_root p) (abs_path (rs @ ?ks)) = Inr (if ?ks = [] then ''.'' else strings_Join ?ks ''/'')"
    unfolding rs(1) by (rule Rel_below [OF rs(2) Split_comps_normal [OF dots]])
  have "\<not> HasPrefix i ''..''" using False Rel_child_prefix by blast
  then show ?thesis
    using False join rel rs by (auto simp: resolve_def Let_def single HasPrefix_def)
qed (auto simp: resolve_def)

lemma resolve_Inr:
  assumes "abs_clean (lp_root p)" and "resolve p i = Inr path"
  shows "path = lp_root p \<and> i = ''.'' \<or> path = abs_path (path_comps (lp_root p) @ [i]) \<and> normal_comp i"
proof -
  have "i \<noteq> ''..''" if "\<not> Contains i ''..''" using that by (auto simp: HasPrefix_def)
  then show ?thesis using assms by (auto simp: resolve_clean normal_comp_def split: if_splits)
qed

definition found_ok :: "LocalProvider \<Rightarrow> dir_entry list \<Rightarrow> (string \<rightharpoonup> bytes) \<Rightarrow> DiscoveredSnapshot \<Rightarrow> bool" where
  "found_ok p entries files s =
     (\<exists>entry \<in> set entries. \<not> de_IsDir entry \<and> sn_ExternalID s = de_Name entry \<and> dump_name (de_Name entry) \<and>
        (\<exists>data. files (join_path (lp_root p) (de_Name entry)) = Some data \<and> sn_SizeBytes s = int (length data)) \<and>
        sn_SizeBytes s \<le> lp_maxBytes p)"

lemma found_ok_more: "found_ok p entries files s \<Longrightarrow> found_ok p (entry # entries) files s"
  by (auto simp: found_ok_def)

lemma discover_loop_ok:
  assumes "run_state (discover_loop e p entries found) w = (Inr res, w')"
  shows "w_files w' = w_files w \<and> (\<forall>s \<in> set res. s \<in> set found \<or> found_ok p entries (w_files w) s)"
  using assms
proof (induction entries arbitrary: found w)
  case (Cons entry entries)
  let ?w = "w\<lparr>w_step := Suc (w_step w)\<rparr>" and ?path = "join_path (lp_root p) (de_Name entry)"
  have IH: "w_files w' = w_files v \<and> (\<forall>s \<in> set res. s \<in> set fs \<or> found_ok p (entry # entries) (w_files v) s)"
    if "run_state (discover_loop e p entries fs) v = (Inr res, w')" for fs v
    using Cons.IH [OF that] found_ok_more by blast
  have ctx: "ctx_at e (w_step w) = None" using Cons.prems by (cases "ctx_at e (w_step w)") auto
  show ?case
  proof (cases "de_IsDir entry")
    case True
    then show ?thesis using IH [of found ?w] Cons.prems ctx by simp
  next
    case False
    obtain r v where s: "run_state (os_Stat e ?path) ?w = (r, v)" by fastforce
    have files: "w_files v = w_files w" using run_Stat [OF s] by simp
    let ?s = "\<lambda>sz. \<lparr>sn_ExternalID = de_Name entry, sn_Name = de_Name entry, sn_Type = ''POSTGRES_DUMP'',
        sn_CompletedAt = de_ModTime entry, sn_SizeBytes = sz, sn_Checksum = []\<rparr>"
    show ?thesis
    proof (cases "\<exists>sz. r = Inr sz \<and> sz \<le> lp_maxBytes p \<and> dump_name (de_Name entry)")
      case True
      then obtain sz where sz: "r = Inr sz" "sz \<le> lp_maxBytes p" "dump_name (de_Name entry)" by blast
      have "found_ok p (entry # entries) (w_files w) (?s sz)"
        using False sz run_Stat [OF s] by (auto simp: found_ok_def)
      moreover have "run_state (discover_loop e p entries (found @ [?s sz])) v = (Inr res, w')"
        using Cons.prems ctx False s sz by simp
      ultimately show ?thesis using IH [of "found @ [?s sz]" v] files by auto
    next
      case skip: False
      then have "run_state (discover_loop e p entries found) v = (Inr res, w')"
        using Cons.prems ctx False s by (cases r) (auto split: if_splits)
      then show ?thesis using IH [of found v] files by simp
    qed
  qed
qed simp

lemma GetSnapshot_ok:
  assumes "run_state (GetSnapshot e p modTime i) w = ((s, None), w')" and "0 < lp_maxBytes p" and "lp_maxBytes p < 2 ^ 63 - 1"
  shows "\<exists>path data. resolve p i = Inr path \<and> w_files w path = Some data \<and> sn_ExternalID s = i \<and>
    sn_SizeBytes s = int (length data) \<and> sn_Checksum s = hex_sha256 e (take (nat (lp_maxBytes p + 1)) data)"
proof -
  obtain path where path: "resolve p i = Inr path" using assms(1) by (cases "resolve p i") (auto simp: GetSnapshot_def)
  obtain r1 w1 where st: "run_state (os_Stat e path) w = (r1, w1)" by fastforce
  obtain r2 w2 where op: "run_state (os_Open e path) w1 = (r2, w2)" by fastforce
  obtain sz where sz: "r1 = Inr sz" using assms(1) path st by (cases r1) (auto simp: GetSnapshot_def)
  obtain rd where rd: "r2 = Inr rd" using assms(1) path st sz op by (cases r2) (auto simp: GetSnapshot_def)
  obtain data where data: "w_files w path = Some data" "sz = int (length data)" using run_Stat [OF st] sz by auto
  have content: "r_err rd = None \<longrightarrow> r_data rd = data" "prefix (r_data rd) data"
    using run_Open [OF op] run_Stat [OF st] rd data by auto
  have wrap: "wrap64 (lp_maxBytes p + 1) = lp_maxBytes p + 1"
    using assms(2,3) by (intro wrap64_id) (simp add: int64_range_def)
  let ?lr = "io_LimitReader rd (lp_maxBytes p + 1)"
  have res: "r_err ?lr = None" "s = \<lparr>sn_ExternalID = i, sn_Name = i, sn_Type = ''POSTGRES_DUMP'',
      sn_CompletedAt = modTime path, sn_SizeBytes = sz, sn_Checksum = hex_sha256 e (r_data ?lr)\<rparr>"
    using assms(1) path st sz op rd wrap by (auto simp: GetSnapshot_def io_Copy_def Let_def split: option.splits)
  have "r_data ?lr = take (nat (lp_maxBytes p + 1)) data"
  proof (cases "int (length (r_data rd)) < lp_maxBytes p + 1")
    case True
    then have "r_data rd = data" using res(1) content(1) assms(2) by (auto simp: io_LimitReader_def)
    then show ?thesis using True assms(2) by (auto simp: io_LimitReader_def)
  next
    case False
    then have "nat (lp_maxBytes p + 1) \<le> length (r_data rd)" by simp
    then show ?thesis using False content(2) assms(2) by (auto simp: io_LimitReader_def prefix_def)
  qed
  then show ?thesis using path data res(2) by auto
qed

lemma join_path_abs:
  assumes "list_all normal_comp rs"
  shows "join_path (abs_path rs) n = abs_path (rs @ [n])"
proof (cases rs rule: rev_cases)
  case (snoc cs c)
  then have c: "c \<noteq> []" "CHR ''/'' \<notin> set c" using assms by (auto simp: normal_comp_def)
  then have "last c \<noteq> CHR ''/''" by (metis last_in_set)
  then have "last (abs_path rs) \<noteq> CHR ''/''"
    using c(1) snoc by (auto simp: abs_path_def Join_snoc)
  then show ?thesis using snoc using Join_snoc [of rs n "''/''"] by (simp add: join_path_def abs_path_def)
qed (simp add: join_path_def abs_path_def)

lemma resolve_discovered:
  assumes "abs_clean (lp_root p)" and "dump_name i" and "\<not> Contains i ''..''" and "CHR ''/'' \<notin> set i" and "CHR 0x5C \<notin> set i"
  shows "resolve p i = Inr (join_path (lp_root p) i)"
proof -
  have i: "i \<noteq> []" "i \<noteq> ''.''" using assms(2) by (auto simp: dump_name_def HasSuffix_def)
  obtain rs where rs: "lp_root p = abs_path rs" "list_all normal_comp rs" "path_comps (lp_root p) = rs"
    using assms(1) by (rule abs_cleanE)
  then show ?thesis using assms i by (simp add: resolve_clean [OF assms(1)] join_path_abs)
qed

section \<open>The contract of a provider\<close>

text \<open>
  What the interface \<open>BackupProvider\<close> promises for a provider with its invariant: the metadata of a snapshot
  describe the content behind its identifier, and an opened backup delivers that content.
\<close>

locale backup_provider =
  fixes inv :: "'p \<Rightarrow> bool"
    and limit :: "'p \<Rightarrow> int64"
    and content :: "'p \<Rightarrow> world \<Rightarrow> string \<Rightarrow> bytes option"
    and Get :: "env \<Rightarrow> 'p \<Rightarrow> string \<Rightarrow> (DiscoveredSnapshot \<times> go_error option) program"
    and Open :: "env \<Rightarrow> 'p \<Rightarrow> string \<Rightarrow> reader result program"
    and Validate :: "'p \<Rightarrow> BackupMetadata \<Rightarrow> go_error option"
  assumes get_ok: "inv p \<Longrightarrow> run_state (Get e p i) w = ((s, None), w') \<Longrightarrow>
      \<exists>data. content p w i = Some data \<and> sn_SizeBytes s = int (length data) \<and>
        (int (length data) \<le> limit p \<longrightarrow> sn_Checksum s = hex_sha256 e data)"
    and get_frame: "run_state (Get e p i) w = (got, w') \<Longrightarrow> content p w' = content p w"
    and open_ok: "inv p \<Longrightarrow> run_state (Open e p i) w = (Inr rd, w') \<Longrightarrow>
      \<exists>data. content p w i = Some data \<and> prefix (r_data rd) data \<and> (r_err rd = None \<longrightarrow> r_data rd = data)"
    and validate_ok: "Validate p md = None \<Longrightarrow> 0 < bm_SizeBytes md \<and> bm_SizeBytes md \<le> limit p"
begin

text \<open>A client that validates the metadata of a snapshot and then reads the backup to its end has the bytes
  the metadata describe.\<close>

lemma validated_backup:
  assumes "inv p" and "run_state (Get e p i) w = ((s, None), w1)"
    and "Validate p \<lparr>bm_SizeBytes = sn_SizeBytes s, bm_Checksum = sn_Checksum s, bm_Format = f\<rparr> = None"
    and "run_state (Open e' p i) w1 = (Inr rd, w2)" and "r_err rd = None"
  shows "hex_sha256 e (r_data rd) = sn_Checksum s \<and> int (length (r_data rd)) = sn_SizeBytes s"
  using get_ok [OF assms(1,2)] get_frame [OF assms(2)] validate_ok [OF assms(3)] open_ok [OF assms(1,4)] assms(5) by auto

end

definition provider_inv :: "LocalProvider \<Rightarrow> bool" where
  "provider_inv p = (abs_clean (lp_root p) \<and> 0 < lp_maxBytes p \<and> lp_maxBytes p < 2 ^ 63 - 1)"

definition provider_content :: "LocalProvider \<Rightarrow> world \<Rightarrow> string \<Rightarrow> bytes option" where
  "provider_content p w i = (case resolve p i of Inl _ \<Rightarrow> None | Inr path \<Rightarrow> w_files w path)"

lemma GetSnapshot_files: "run_state (GetSnapshot e p modTime i) w = (r, w') \<Longrightarrow> w_files w' = w_files w"
  by (auto simp: GetSnapshot_def Let_def split: sum.splits prod.splits option.splits dest!: run_Stat run_Open)

interpretation local_source: backup_provider provider_inv lp_maxBytes provider_content
  "\<lambda>e p. GetSnapshot e p modTime" OpenBackup ValidateMetadata for modTime
proof unfold_locales
  fix p e i w s w'
  assume inv: "provider_inv p" and run: "run_state (GetSnapshot e p modTime i) w = ((s, None), w')"
  then show "\<exists>data. provider_content p w i = Some data \<and> sn_SizeBytes s = int (length data) \<and>
      (int (length data) \<le> lp_maxBytes p \<longrightarrow> sn_Checksum s = hex_sha256 e data)"
    using GetSnapshot_ok [OF run] by (fastforce simp: provider_inv_def provider_content_def)
next
  fix p e i w got w'
  assume "run_state (GetSnapshot e p modTime i) w = (got, w')"
  from GetSnapshot_files [OF this] show "provider_content p w' = provider_content p w"
    by (intro ext) (simp add: provider_content_def split: sum.split)
next
  fix p e i w rd w'
  assume "run_state (OpenBackup e p i) w = (Inr rd, w')"
  then show "\<exists>data. provider_content p w i = Some data \<and> prefix (r_data rd) data \<and> (r_err rd = None \<longrightarrow> r_data rd = data)"
    using run_Open [of e _ w "Inr rd" w'] by (cases "resolve p i") (auto simp: OpenBackup_def provider_content_def)
next
  fix p md
  show "ValidateMetadata p md = None \<Longrightarrow> 0 < bm_SizeBytes md \<and> bm_SizeBytes md \<le> lp_maxBytes p"
    by (auto simp: ValidateMetadata_def split: if_splits)
qed



text \<open>Discovery lists names that cannot be asked for.\<close>

lemma dotted_name_refused: "dump_name ''a..sql'' \<and> resolve p ''a..sql'' = Inl (Errorf ''unsafe snapshot identifier'')"
proof
  show "dump_name ''a..sql''" by code_simp
  have "Contains ''a..sql'' ''..''" by code_simp
  then show "resolve p ''a..sql'' = Inl (Errorf ''unsafe snapshot identifier'')" by (simp add: resolve_def)
qed

end
