(* ===== verification/Validation.thy ===== *)
theory Validation
  imports Object_Storage Utf8
begin

text \<open>
  The typed validation engine of package \<open>drill\<close> (\<open>validation.go\<close>): checks on a file, on its digest and
  on the health of an HTTP target in the sandbox. The context of a check is done by its timeout or
  with the context of the caller (\<open>ctx_at\<close>); its error is \<open>Canceled\<close> or \<open>DeadlineExceeded\<close>. The URL
  and address parsers and the HTTP client are the fields of \<open>http_client\<close>; an address
  is its 4 or 16 octets.
\<close>

record ValidationCheck =
  vc_Name :: string
  vc_Type :: string
  vc_Required :: bool
  vc_Timeout :: duration
  vc_Path :: string
  vc_ExpectedSHA256 :: string
  vc_MinBytes :: int64
  vc_URL :: string

record ValidationResult =
  vr_Name :: string
  vr_Status :: ValidationStatus
  vr_Summary :: string
  vr_StartedAt :: instant
  vr_CompletedAt :: instant

record ValidationEngine =
  ve_maxFileBytes :: int64

definition NewValidationEngine :: "int64 \<Rightarrow> ValidationEngine" where
  "NewValidationEngine maxFileBytes = \<lparr>ve_maxFileBytes = maxFileBytes\<rparr>"


section \<open>HTTP targets\<close>

type_synonym ip = "nat list"

definition To4 :: "ip \<Rightarrow> nat list option" where
  "To4 a = (if length a = 4 then Some a else if length a = 16 \<and> take 12 a = replicate 10 0 @ [255, 255] then Some (drop 12 a) else None)"

definition IsLoopback :: "ip \<Rightarrow> bool" where
  "IsLoopback a = (case To4 a of Some b \<Rightarrow> b ! 0 = 127 | None \<Rightarrow> a = replicate 15 0 @ [1])"

definition IsPrivate :: "ip \<Rightarrow> bool" where
  "IsPrivate a =
     (case To4 a of
        Some b \<Rightarrow> b ! 0 = 10 \<or> (b ! 0 = 172 \<and> b ! 1 div 16 = 1) \<or> (b ! 0 = 192 \<and> b ! 1 = 168)
      | None \<Rightarrow> length a = 16 \<and> a ! 0 div 2 = 126)"

record http_client =
  hc_Hostname :: "string \<Rightarrow> string option"
  hc_ParseIP :: "string \<Rightarrow> ip option"
  hc_Get :: "nat \<Rightarrow> string \<Rightarrow> int result"

definition authorized_target :: "http_client \<Rightarrow> string \<Rightarrow> bool" where
  "authorized_target hc url =
     (case hc_Hostname hc url of
        None \<Rightarrow> False
      | Some host \<Rightarrow> (case hc_ParseIP hc host of None \<Rightarrow> False | Some a \<Rightarrow> IsLoopback a \<or> IsPrivate a))"

definition httpHealth :: "http_client \<Rightarrow> string \<Rightarrow> go_error option program" where
  "httpHealth hc url =
     (if hc_Hostname hc url = None then State_Monad.return (Some (Errorf ''invalid URL''))
      else if \<not> authorized_target hc url
      then State_Monad.return (Some (Errorf ''HTTP health target is not an authorized sandbox address''))
      else do {
        n \<leftarrow> tick;
        State_Monad.return (case hc_Get hc n url of
            Inl er \<Rightarrow> Some er
          | Inr status \<Rightarrow> if status < 200 \<or> status \<ge> 300 then Some (Errorf (''health returned '' @ format_int status)) else None)
      })"


section \<open>Running a check\<close>

definition check_ctx :: "env \<Rightarrow> ValidationCheck \<Rightarrow> nat \<Rightarrow> go_error option" where
  "check_ctx e check n = (if vc_Timeout check \<le> 0 then Some DeadlineExceeded else ctx_at e n)"

definition verifySHA :: "env \<Rightarrow> ValidationEngine \<Rightarrow> ValidationCheck \<Rightarrow> go_error option program" where
  "verifySHA e eng check = do {
     opened \<leftarrow> os_Open e (vc_Path check);
     case opened of
       Inl er \<Rightarrow> State_Monad.return (Some er)
     | Inr file \<Rightarrow> do {
         n \<leftarrow> tick;
         let ctxDone = map_option (\<lambda>er. (cut_at e n, er)) (check_ctx e check n);
         let (data, copied, err) = io_Copy (io_LimitReader (context_reader ctxDone file) (wrap64 (ve_maxFileBytes eng + 1)));
         State_Monad.return (case err of
             Some er \<Rightarrow> Some er
           | None \<Rightarrow>
               if copied > ve_maxFileBytes eng then Some (Errorf ''file exceeds validation limit'')
               else if \<not> EqualFold (rune_fold e) (hex_sha256 e data) (vc_ExpectedSHA256 check)
               then Some (Errorf ''checksum mismatch'') else None)
       }
   }"

definition file_size_error :: "int64 \<Rightarrow> int64 \<Rightarrow> go_error" where
  "file_size_error n minBytes = Errorf (''file size '' @ format_int n @ '' is below '' @ format_int minBytes)"

definition run_check :: "env \<Rightarrow> http_client \<Rightarrow> ValidationEngine \<Rightarrow> ValidationCheck \<Rightarrow> go_error option program" where
  "run_check e hc eng check =
     (if vc_Type check = ''FILE_EXISTS'' then do {
        info \<leftarrow> os_Stat e (vc_Path check);
        State_Monad.return (case info of Inl er \<Rightarrow> Some er | Inr _ \<Rightarrow> None)
      }
      else if vc_Type check = ''FILE_SIZE'' then do {
        info \<leftarrow> os_Stat e (vc_Path check);
        State_Monad.return (case info of
            Inl er \<Rightarrow> Some er
          | Inr n \<Rightarrow> if n < vc_MinBytes check then Some (file_size_error n (vc_MinBytes check)) else None)
      }
      else if vc_Type check = ''SHA256'' then verifySHA e eng check
      else if vc_Type check = ''HTTP_HEALTH'' then httpHealth hc (vc_URL check)
      else State_Monad.return (Some (Errorf ''validation type requires a typed PostgreSQL validator'')))"

definition result_status :: "go_error option \<Rightarrow> ValidationStatus \<times> string" where
  "result_status err =
     (case err of
        None \<Rightarrow> (ValidationPass, ''Validation passed'')
      | Some er \<Rightarrow>
          if errors_Is er Canceled \<or> errors_Is er DeadlineExceeded
          then (ValidationInconclusive, ''Validation did not complete'')
          else (ValidationFail, error_string er))"

definition validation_Run :: "env \<Rightarrow> http_client \<Rightarrow> ValidationEngine \<Rightarrow> ValidationCheck \<Rightarrow> ValidationResult program" where
  "validation_Run e hc eng check = do {
     started \<leftarrow> clock_Now e;
     n \<leftarrow> tick;
     case check_ctx e check n of
       Some er \<Rightarrow> do {
         completed \<leftarrow> clock_Now e;
         State_Monad.return \<lparr>vr_Name = vc_Name check, vr_Status = ValidationInconclusive,
           vr_Summary = ''Validation did not complete'', vr_StartedAt = started, vr_CompletedAt = completed\<rparr>
       }
     | None \<Rightarrow> do {
         err \<leftarrow> run_check e hc eng check;
         completed \<leftarrow> clock_Now e;
         State_Monad.return \<lparr>vr_Name = vc_Name check, vr_Status = fst (result_status err),
           vr_Summary = snd (result_status err), vr_StartedAt = started, vr_CompletedAt = completed\<rparr>
       }
   }"


section \<open>Lemmas\<close>

text \<open>What a check has established when it passes.\<close>

definition check_holds :: "env \<Rightarrow> http_client \<Rightarrow> ValidationEngine \<Rightarrow> ValidationCheck \<Rightarrow> (string \<rightharpoonup> bytes) \<Rightarrow> bool" where
  "check_holds e hc eng check files =
     (if vc_Type check = ''FILE_EXISTS'' then vc_Path check \<in> dom files
      else if vc_Type check = ''FILE_SIZE''
      then \<exists>data. files (vc_Path check) = Some data \<and> vc_MinBytes check \<le> int (length data)
      else if vc_Type check = ''SHA256''
      then \<exists>data. files (vc_Path check) = Some data \<and> int (length data) \<le> ve_maxFileBytes eng \<and>
             EqualFold (rune_fold e) (hex_sha256 e data) (vc_ExpectedSHA256 check)
      else if vc_Type check = ''HTTP_HEALTH''
      then authorized_target hc (vc_URL check) \<and> (\<exists>n status. hc_Get hc n (vc_URL check) = Inr status \<and> 200 \<le> status \<and> status < 300)
      else False)"

lemma httpHealth_None:
  assumes "run_state (httpHealth hc url) w = (None, w')"
  shows "authorized_target hc url \<and> w_files w' = w_files w \<and>
    (\<exists>n status. hc_Get hc n url = Inr status \<and> 200 \<le> status \<and> status < 300)"
  using assms by (auto simp: httpHealth_def not_less not_le split: if_splits sum.splits intro!: exI [of _ "w_step w"])

lemma limited_copy:
  assumes "0 \<le> bound" and "bound < 2 ^ 63 - 1"
    and "io_Copy (io_LimitReader rd (wrap64 (bound + 1))) = (data, copied, None)" and "copied \<le> bound"
  shows "r_err rd = None \<and> data = r_data rd \<and> int (length data) \<le> bound"
proof -
  have "wrap64 (bound + 1) = bound + 1" using assms(1,2) by (intro wrap64_id) (simp add: int64_range_def)
  then have "int (length (r_data (io_LimitReader rd (bound + 1)))) \<le> bound" using assms(3,4) by (auto simp: io_Copy_def)
  from LimitReader_short [OF this assms(1)] show ?thesis
    using assms(3,4) \<open>wrap64 (bound + 1) = bound + 1\<close> by (auto simp: io_Copy_def)
qed

lemma verifySHA_None:
  assumes "run_state (verifySHA e eng check) w = (None, w')"
    and "0 \<le> ve_maxFileBytes eng" and "ve_maxFileBytes eng < 2 ^ 63 - 1"
  shows "\<exists>data. w_files w (vc_Path check) = Some data \<and> int (length data) \<le> ve_maxFileBytes eng \<and>
    EqualFold (rune_fold e) (hex_sha256 e data) (vc_ExpectedSHA256 check)"
proof -
  obtain r w1 where o: "run_state (os_Open e (vc_Path check)) w = (r, w1)" by fastforce
  obtain rd where rd: "r = Inr rd" using assms(1) o by (cases r) (auto simp: verifySHA_def)
  define d where "d = map_option (\<lambda>er. (cut_at e (w_step w1), er)) (check_ctx e check (w_step w1))"
  obtain data copied err where c: "io_Copy (io_LimitReader (context_reader d rd) (wrap64 (ve_maxFileBytes eng + 1))) = (data, copied, err)"
    by (metis prod_cases3)
  have ok: "err = None" "copied \<le> ve_maxFileBytes eng" "EqualFold (rune_fold e) (hex_sha256 e data) (vc_ExpectedSHA256 check)"
    using assms(1) o rd c by (auto simp: verifySHA_def d_def Let_def not_less split: option.splits if_splits)
  have l: "r_err (context_reader d rd) = None" "data = r_data (context_reader d rd)" "int (length data) \<le> ve_maxFileBytes eng"
    using limited_copy [OF assms(2,3) c [unfolded ok(1)] ok(2)] by auto
  then have "r_err rd = None" "data = r_data rd" using context_reader_ok [OF l(1)] by auto
  moreover obtain content where "w_files w (vc_Path check) = Some content" "r_err rd = None \<longrightarrow> r_data rd = content"
    using run_Open [OF o] rd by auto
  ultimately show ?thesis using l(3) ok(3) by auto
qed

lemma run_check_None:
  assumes "run_state (run_check e hc eng check) w = (None, w')"
    and "0 \<le> ve_maxFileBytes eng" and "ve_maxFileBytes eng < 2 ^ 63 - 1"
  shows "check_holds e hc eng check (w_files w)"
proof (cases "vc_Type check \<in> {''FILE_EXISTS'', ''FILE_SIZE''}")
  case True
  obtain r w1 where s: "run_state (os_Stat e (vc_Path check)) w = (r, w1)" by fastforce
  have "\<exists>data. w_files w (vc_Path check) = Some data \<and> r = Inr (int (length data))"
    using assms(1) True s run_Stat [OF s] by (cases r) (auto simp: run_check_def)
  then show ?thesis using assms(1) True s by (auto simp: run_check_def check_holds_def not_less split: if_splits)
next
  case False
  then show ?thesis
    using assms(1) verifySHA_None [OF _ assms(2,3)] httpHealth_None [of hc "vc_URL check" w w']
    by (auto simp: run_check_def check_holds_def split: if_splits)
qed

lemma run_check_files:
  "run_state (run_check e hc eng check) w = (err, w') \<Longrightarrow> w_files w' = w_files w"
proof -
  assume run: "run_state (run_check e hc eng check) w = (err, w')"
  have "keeps (\<lambda>v. w_files v = w_files w) (run_check e hc eng check)"
  proof -
    have "keeps (\<lambda>v. w_files v = w_files w) (os_Open e name)" "keeps (\<lambda>v. w_files v = w_files w) (os_Stat e name)" for name
      unfolding keeps_def by (rule hoareI, drule run_Open, simp, rule hoareI, drule run_Stat, simp)
    moreover have "keeps (\<lambda>v. w_files v = w_files w) tick" by (simp add: keeps_def hoare_def)
    ultimately show ?thesis
      unfolding run_check_def verifySHA_def httpHealth_def Let_def by (intro keeps_intros)
  qed
  from keeps_run [OF this] run show ?thesis by (metis snd_conv)
qed

definition context_error :: "go_error \<Rightarrow> bool" where
  "context_error er = (errors_Is er Canceled \<or> errors_Is er DeadlineExceeded)"

lemma context_error_simps [simp]:
  "\<not> context_error (Errorf s)" "\<not> context_error (External s)" "\<not> context_error ErrNotExist"
  by (simp_all add: context_error_def)

lemma result_status_iff:
  "fst (result_status err) = ValidationPass \<longleftrightarrow> err = None"
  "fst (result_status err) = ValidationInconclusive \<longleftrightarrow> (\<exists>er. err = Some er \<and> context_error er)"
  "fst (result_status err) = ValidationFail \<longleftrightarrow> (\<exists>er. err = Some er \<and> \<not> context_error er)"
  by (simp_all add: result_status_def context_error_def split: option.split)

lemma fate_err_plain: "fate_err f = Some er \<Longrightarrow> \<not> context_error er"
  by (auto simp: fate_err_def split: fate.splits)

text \<open>The error of each kind of check.\<close>

lemma stat_check:
  assumes "vc_Type check \<in> {''FILE_EXISTS'', ''FILE_SIZE''}" and "run_state (run_check e hc eng check) w = (err, w')"
  shows "\<forall>er. err = Some er \<longrightarrow> \<not> context_error er"
    and "fate_at e (w_step w) = Performed \<Longrightarrow> err = None \<longleftrightarrow> check_holds e hc eng check (w_files w)"
  using assms
  by (auto simp: run_check_def os_Stat_def State_Monad.get_def check_holds_def file_size_error_def not_less
      dest: fate_err_plain split: option.splits if_splits) (simp_all add: fate_err_def)

lemma http_check:
  assumes "vc_Type check = ''HTTP_HEALTH''" and "run_state (run_check e hc eng check) w = (err, w')"
  shows "\<not> authorized_target hc (vc_URL check) \<Longrightarrow> \<exists>er. err = Some er \<and> \<not> context_error er"
    and "authorized_target hc (vc_URL check) \<Longrightarrow>
      (case hc_Get hc (w_step w) (vc_URL check) of
         Inl er \<Rightarrow> err = Some er
       | Inr status \<Rightarrow> if 200 \<le> status \<and> status < 300 then err = None else (\<exists>er. err = Some er \<and> \<not> context_error er))"
  using assms
  by (auto simp: run_check_def httpHealth_def authorized_target_def split: option.splits sum.splits if_splits)

lemma sha_check:
  assumes "vc_Type check = ''SHA256''" and "0 < vc_Timeout check" and "run_state (run_check e hc eng check) w = (err, w')"
    and "0 \<le> ve_maxFileBytes eng" and "ve_maxFileBytes eng < 2 ^ 63 - 1"
  shows "err = Some er \<Longrightarrow> context_error er \<Longrightarrow> ctx_at e (w_step w + 2) = Some er"
    and "fate_at e (w_step w) = Performed \<Longrightarrow> fate_at e (w_step w + 1) = Performed \<Longrightarrow>
      ctx_at e (w_step w + 2) = None \<Longrightarrow>
      if check_holds e hc eng check (w_files w) then err = None else \<exists>er. err = Some er \<and> \<not> context_error er"
    and "fate_at e (w_step w) = Performed \<Longrightarrow> fate_at e (w_step w + 1) = Performed \<Longrightarrow>
      ctx_at e (w_step w + 2) = Some er \<Longrightarrow> w_files w (vc_Path check) = Some data \<Longrightarrow>
      cut_at e (w_step w + 2) \<le> length data \<Longrightarrow> int (cut_at e (w_step w + 2)) \<le> ve_maxFileBytes eng \<Longrightarrow> err = Some er"
proof -
  have wrap: "wrap64 (ve_maxFileBytes eng + 1) = ve_maxFileBytes eng + 1"
    using assms(4,5) by (intro wrap64_id) (simp add: int64_range_def)
  note defs = run_check_def verifySHA_def os_Open_def State_Monad.get_def check_ctx_def io_Copy_def
    io_LimitReader_def context_reader_def check_holds_def wrap Let_def
  show "err = Some er \<Longrightarrow> context_error er \<Longrightarrow> ctx_at e (w_step w + 2) = Some er"
    using assms(1-4)
    by (auto simp: defs dest: fate_err_plain split: option.splits if_splits)
  show "fate_at e (w_step w) = Performed \<Longrightarrow> fate_at e (w_step w + 1) = Performed \<Longrightarrow>
      ctx_at e (w_step w + 2) = None \<Longrightarrow>
      if check_holds e hc eng check (w_files w) then err = None else \<exists>er. err = Some er \<and> \<not> context_error er"
    using assms(1-4)
    by (auto simp: defs fate_err_def not_less split: option.splits if_splits)
  show "fate_at e (w_step w) = Performed \<Longrightarrow> fate_at e (w_step w + 1) = Performed \<Longrightarrow>
      ctx_at e (w_step w + 2) = Some er \<Longrightarrow> w_files w (vc_Path check) = Some data \<Longrightarrow>
      cut_at e (w_step w + 2) \<le> length data \<Longrightarrow> int (cut_at e (w_step w + 2)) \<le> ve_maxFileBytes eng \<Longrightarrow> err = Some er"
    using assms(1-4)
    by (auto simp: defs fate_err_def split: option.splits if_splits)
qed

lemma other_check:
  assumes "vc_Type check \<notin> {''FILE_EXISTS'', ''FILE_SIZE'', ''SHA256'', ''HTTP_HEALTH''}"
    and "run_state (run_check e hc eng check) w = (err, w')"
  shows "\<exists>er. err = Some er \<and> \<not> context_error er"
  using assms by (auto simp: run_check_def)


definition no_http :: http_client where
  "no_http = \<lparr>hc_Hostname = Some, hc_ParseIP = \<lambda>_. None, hc_Get = \<lambda>_ _. Inr 200\<rparr>"

definition size_check :: ValidationCheck where
  "size_check = \<lparr>vc_Name = ''dump'', vc_Type = ''FILE_SIZE'', vc_Required = True, vc_Timeout = time_Second,
     vc_Path = ''/restore/dump.sql'', vc_ExpectedSHA256 = [], vc_MinBytes = 2, vc_URL = []\<rparr>"


end
