(* ===== verification/Webhook.thy ===== *)
theory Webhook
  imports Validation Evidence_Document
begin

unbundle bit_operations_syntax

text \<open>
  Webhook notifications (\<open>notify/notifier.go\<close>). The URL parser, the resolver, the text of an instant in
  its time zone, SHA-256 and the HTTP client are the fields of \<open>net\<close>. \<open>webhook_Notify\<close> returns the error and the requests
  the client was given.
\<close>

record notify_event =
  ne_OrganizationID :: string
  ne_Type :: string
  ne_ResourceID :: string
  ne_Summary :: string
  ne_Timestamp :: instant

record url =
  ur_Scheme :: string
  ur_HasUser :: bool
  ur_Hostname :: string
  ur_String :: string

record webhook_request =
  wr_URL :: string
  wr_Body :: bytes
  wr_Header :: "(string \<times> string) list"

record net =
  nt_Parse :: "string \<Rightarrow> url option"
  nt_ToLower :: "string \<Rightarrow> string"
  nt_Lookup :: "string \<Rightarrow> ip list result"
  nt_TimeText :: "instant \<Rightarrow> string result"
  nt_Sum256 :: "bytes \<Rightarrow> bytes"
  nt_Do :: "webhook_request \<Rightarrow> int result"

record Webhook =
  wh_endpoint :: url
  wh_secret :: bytes
  wh_allowedHosts :: "string set"

definition InApp_Notify :: "(notify_event \<Rightarrow> go_error option) \<Rightarrow> notify_event \<Rightarrow> go_error option" where
  "InApp_Notify deliver event = deliver event"

definition NewWebhook :: "net \<Rightarrow> string \<Rightarrow> bytes \<Rightarrow> string list \<Rightarrow> Webhook result" where
  "NewWebhook nt endpoint secret allowedHosts =
     (case nt_Parse nt endpoint of
        None \<Rightarrow> Inl (Errorf ''webhook must be an HTTPS URL without user information'')
      | Some parsed \<Rightarrow>
          if ur_Scheme parsed \<noteq> ''https'' \<or> ur_HasUser parsed \<or> ur_Hostname parsed = []
          then Inl (Errorf ''webhook must be an HTTPS URL without user information'')
          else
            let allowed = set (map (nt_ToLower nt) allowedHosts) in
            if nt_ToLower nt (ur_Hostname parsed) \<notin> allowed then Inl (Errorf ''webhook host is not allowlisted'')
            else Inr \<lparr>wh_endpoint = parsed, wh_secret = secret, wh_allowedHosts = allowed\<rparr>)"

definition IsLinkLocalUnicast :: "ip \<Rightarrow> bool" where
  "IsLinkLocalUnicast a =
     (case To4 a of
        Some b \<Rightarrow> b ! 0 = 169 \<and> b ! 1 = 254
      | None \<Rightarrow> length a = 16 \<and> a ! 0 = 254 \<and> a ! 1 div 64 = 2)"

definition IsUnspecified :: "ip \<Rightarrow> bool" where
  "IsUnspecified a = (case To4 a of Some b \<Rightarrow> b = [0, 0, 0, 0] | None \<Rightarrow> a = replicate 16 0)"

definition restricted :: "ip \<Rightarrow> bool" where
  "restricted a = (IsPrivate a \<or> IsLoopback a \<or> IsLinkLocalUnicast a \<or> IsUnspecified a)"

text \<open>\<open>json.Marshal\<close> of an event: the exported fields in order; an instant may not be writable.\<close>

definition notify_document :: "notify_event \<Rightarrow> string \<Rightarrow> json" where
  "notify_document event ts =
     JObj [(''OrganizationID'', JStr (ne_OrganizationID event)), (''Type'', JStr (ne_Type event)),
       (''ResourceID'', JStr (ne_ResourceID event)), (''Summary'', JStr (ne_Summary event)), (''Timestamp'', JStr ts)]"

definition notify_Marshal :: "net \<Rightarrow> notify_event \<Rightarrow> bytes result" where
  "notify_Marshal nt event =
     (case nt_TimeText nt (ne_Timestamp event) of
        Inl er \<Rightarrow> Inl er
      | Inr ts \<Rightarrow> Inr (json_Marshal (notify_document event ts)))"

text \<open>HMAC with SHA-256: a key longer than a block is hashed first, and the key is padded to a block.\<close>

definition xor_pad :: "nat \<Rightarrow> bytes \<Rightarrow> bytes" where
  "xor_pad x key = map (\<lambda>c. char_of (of_char c XOR x)) key"

definition hmac_sha256 :: "(bytes \<Rightarrow> bytes) \<Rightarrow> bytes \<Rightarrow> bytes \<Rightarrow> bytes" where
  "hmac_sha256 digest key msg =
     (let k = (if length key > 64 then digest key else key);
          block = k @ replicate (64 - length k) (CHR 0x00)
      in digest (xor_pad 0x5C block @ digest (xor_pad 0x36 block @ msg)))"

definition webhook_request_for :: "net \<Rightarrow> Webhook \<Rightarrow> bytes \<Rightarrow> webhook_request" where
  "webhook_request_for nt wh payload =
     \<lparr>wr_URL = ur_String (wh_endpoint wh), wr_Body = payload,
      wr_Header = [(''Content-Type'', ''application/json''),
        (''X-RestoreGuard-Signature'', ''sha256='' @ hex_EncodeToString (hmac_sha256 (nt_Sum256 nt) (wh_secret wh) payload))]\<rparr>"

text \<open>\<open>http.NewRequestWithContext\<close> parses the text of the endpoint again and fails when that fails.\<close>

definition webhook_Notify :: "net \<Rightarrow> Webhook \<Rightarrow> notify_event \<Rightarrow> go_error option \<times> webhook_request list" where
  "webhook_Notify nt wh event =
     (case nt_Lookup nt (ur_Hostname (wh_endpoint wh)) of
        Inl er \<Rightarrow> (Some er, [])
      | Inr addresses \<Rightarrow>
          if list_ex restricted addresses then (Some (Errorf ''webhook resolved to a restricted address''), [])
          else (case notify_Marshal nt event of
              Inl er \<Rightarrow> (Some er, [])
            | Inr payload \<Rightarrow>
                if length payload > 64 * 1024 then (Some (Errorf ''webhook payload exceeds limit''), [])
                else if nt_Parse nt (ur_String (wh_endpoint wh)) = None then (Some (Errorf ''parse url''), [])
                else
                  let request = webhook_request_for nt wh payload in
                  (case nt_Do nt request of
                     Inl er \<Rightarrow> (Some er, [request])
                   | Inr status \<Rightarrow>
                       (if status < 200 \<or> status \<ge> 300 then Some (Errorf (''webhook returned '' @ format_int status)) else None,
                        [request]))))"

text \<open>
  C37. A webhook is guarded: one can be made only for an HTTPS URL without credentials whose host is
  allowlisted, up to case. A notification gives the client at most one request, to that endpoint,
  and only when no address of the host is private, loopback, link-local or unspecified and the body
  is at most 64 KiB; the body is the event as JSON and carries its HMAC under the secret. It reports
  success exactly when such a request was answered with a status of 200 to 299.
\<close>

theorem webhook_guarded:
  assumes "NewWebhook nt endpoint secret allowedHosts = Inr wh"
    and "webhook_Notify nt wh event = (err, sent)"
  shows "\<exists>u. nt_Parse nt endpoint = Some u \<and> ur_Scheme u = ''https'' \<and> \<not> ur_HasUser u \<and>
      (\<exists>h \<in> set allowedHosts. nt_ToLower nt h = nt_ToLower nt (ur_Hostname u)) \<and>
    length sent \<le> 1 \<and>
    (\<forall>r \<in> set sent. wr_URL r = ur_String u \<and>
      (\<exists>addresses. nt_Lookup nt (ur_Hostname u) = Inr addresses \<and> (\<forall>a \<in> set addresses. \<not> restricted a)) \<and>
      (\<exists>ts. nt_TimeText nt (ne_Timestamp event) = Inr ts \<and> wr_Body r = json_Marshal (notify_document event ts)) \<and> length (wr_Body r) \<le> 65536 \<and>
      map_of (wr_Header r) ''X-RestoreGuard-Signature'' =
        Some (''sha256='' @ hex_EncodeToString (hmac_sha256 (nt_Sum256 nt) secret (wr_Body r)))) \<and>
    (err = None \<longleftrightarrow> (\<exists>r status. sent = [r] \<and> nt_Do nt r = Inr status \<and> 200 \<le> status \<and> status < 300))"
proof -
  obtain u where u: "nt_Parse nt endpoint = Some u" "ur_Scheme u = ''https''" "\<not> ur_HasUser u"
      "nt_ToLower nt (ur_Hostname u) \<in> set (map (nt_ToLower nt) allowedHosts)" "wh_endpoint wh = u" "wh_secret wh = secret"
    using assms(1) by (auto simp: NewWebhook_def Let_def split: option.splits if_splits)
  from u(4) have "\<exists>h \<in> set allowedHosts. nt_ToLower nt h = nt_ToLower nt (ur_Hostname u)" by (metis imageE set_map)
  moreover have "length sent \<le> 1 \<and>
    (\<forall>r \<in> set sent. wr_URL r = ur_String u \<and>
      (\<exists>addresses. nt_Lookup nt (ur_Hostname u) = Inr addresses \<and> (\<forall>a \<in> set addresses. \<not> restricted a)) \<and>
      (\<exists>ts. nt_TimeText nt (ne_Timestamp event) = Inr ts \<and> wr_Body r = json_Marshal (notify_document event ts)) \<and> length (wr_Body r) \<le> 65536 \<and>
      map_of (wr_Header r) ''X-RestoreGuard-Signature'' =
        Some (''sha256='' @ hex_EncodeToString (hmac_sha256 (nt_Sum256 nt) secret (wr_Body r)))) \<and>
    (err = None \<longleftrightarrow> (\<exists>r status. sent = [r] \<and> nt_Do nt r = Inr status \<and> 200 \<le> status \<and> status < 300))"
    using assms(2) u(5,6)
    by (auto simp: webhook_Notify_def notify_Marshal_def webhook_request_for_def Let_def list_ex_iff split: sum.splits if_splits)
  ultimately show ?thesis using u(1,2,3) by blast
qed

definition example_net :: net where
  "example_net = \<lparr>nt_Parse = \<lambda>s. Some \<lparr>ur_Scheme = ''https'', ur_HasUser = False, ur_Hostname = ''hooks.example'', ur_String = s\<rparr>,
     nt_ToLower = map lower_char, nt_Lookup = \<lambda>_. Inr [[203, 0, 113, 7]], nt_TimeText = \<lambda>_. Inr ''2026-01-01T00:00:00Z'',
     nt_Sum256 = take 32, nt_Do = \<lambda>_. Inr 204\<rparr>"

theorem webhook_guarded_witness:
  "\<exists>wh sent. NewWebhook example_net ''https://hooks.example/x'' ''key'' [''hooks.example''] = Inr wh \<and>
     webhook_Notify example_net wh \<lparr>ne_OrganizationID = ''o1'', ne_Type = ''drill'', ne_ResourceID = [], ne_Summary = [],
       ne_Timestamp = 0\<rparr> = (None, sent) \<and> length sent \<le> 1"
proof -
  let ?ev = "\<lparr>ne_OrganizationID = ''o1'', ne_Type = ''drill'', ne_ResourceID = [], ne_Summary = [], ne_Timestamp = 0\<rparr>"
  obtain wh where wh: "NewWebhook example_net ''https://hooks.example/x'' ''key'' [''hooks.example''] = Inr wh"
    "ur_Hostname (wh_endpoint wh) = ''hooks.example''"
    by (auto simp: NewWebhook_def example_net_def)
  let ?payload = "json_Marshal (notify_document ?ev ''2026-01-01T00:00:00Z'')"
  have small: "length ?payload \<le> 2000"
    using length_json_quote [of "''OrganizationID''"] length_json_quote [of "''Type''"] length_json_quote [of "''ResourceID''"]
      length_json_quote [of "''Summary''"] length_json_quote [of "''Timestamp''"] length_json_quote [of "''o1''"]
      length_json_quote [of "''drill''"] length_json_quote [of "[]"] length_json_quote [of "''2026-01-01T00:00:00Z''"]
    by (simp add: notify_document_def)
  have "notify_Marshal example_net ?ev = Inr ?payload" by (simp add: notify_Marshal_def example_net_def)
  moreover have "nt_Lookup example_net h = Inr [[203, 0, 113, 7]]" "nt_Do example_net rq = Inr 204" "nt_Parse example_net h \<noteq> None" for h rq
    by (simp_all add: example_net_def)
  moreover have "\<not> restricted [203, 0, 113, 7]"
    by (simp add: restricted_def IsPrivate_def IsLoopback_def IsLinkLocalUnicast_def IsUnspecified_def To4_def)
  ultimately obtain sent where sent: "webhook_Notify example_net wh ?ev = (None, sent)"
    using small by (simp add: webhook_Notify_def Let_def)
  from webhook_guarded [OF wh(1) sent] wh sent show ?thesis by blast
qed

end
