(* ===== verification/Startup.thy ===== *)
theory Startup
  imports Accounts "HOL-Library.List_Lexorder" "HOL-Library.Sublist"
begin

text \<open>
  The start of the service: the configuration from the environment variables
  (\<open>platform/config.go\<close>), the migrations (\<open>database/migrate.go\<close>), the scheduler
  (\<open>scheduler/scheduler.go\<close>), and the order in which \<open>run\<close> of \<open>cmd/server/main.go\<close> brings the parts up.
  The variables, the duration parser, \<open>strings.ToLower\<close>, the migration files and the effect of their SQL
  are arguments.
\<close>

section \<open>Configuration\<close>

text \<open>\<open>strconv.Atoi\<close> and \<open>ParseInt(s, 10, 64)\<close>, and \<open>strconv.ParseBool\<close>.\<close>

definition ParseInt :: "string \<Rightarrow> int64 option" where
  "ParseInt s =
     (let neg = HasPrefix s ''-'';
          ds = (if HasPrefix s ''-'' \<or> HasPrefix s ''+'' then tl s else s)
      in if ds = [] then None
         else case ParseUint 0 ds of
             Parsed n \<Rightarrow> if neg then (if n \<le> 2 ^ 63 then Some (- n) else None)
                         else (if n < 2 ^ 63 then Some n else None)
           | _ \<Rightarrow> None)"

definition ParseBool :: "string \<Rightarrow> bool option" where
  "ParseBool s =
     (if s \<in> {''1'', ''t'', ''T'', ''true'', ''TRUE'', ''True''} then Some True
      else if s \<in> {''0'', ''f'', ''F'', ''false'', ''FALSE'', ''False''} then Some False else None)"

type_synonym getenv = "string \<Rightarrow> string"

definition env_or :: "getenv \<Rightarrow> string \<Rightarrow> string \<Rightarrow> string" where
  "env_or getenv k d = (if getenv k \<noteq> [] then getenv k else d)"

definition boolEnv :: "getenv \<Rightarrow> string \<Rightarrow> bool \<Rightarrow> bool" where
  "boolEnv getenv k d =
     (if getenv k = [] then d else case ParseBool (getenv k) of None \<Rightarrow> d | Some b \<Rightarrow> b)"

definition intEnv :: "getenv \<Rightarrow> string \<Rightarrow> int64 \<Rightarrow> int64" where
  "intEnv getenv k d = (case ParseInt (getenv k) of None \<Rightarrow> d | Some n \<Rightarrow> n)"

definition int64Env :: "getenv \<Rightarrow> string \<Rightarrow> int64 \<Rightarrow> int64" where
  "int64Env getenv k d = (case ParseInt (getenv k) of None \<Rightarrow> d | Some n \<Rightarrow> n)"

record Config =
  cf_Environment :: string
  cf_HTTPAddr :: string
  cf_DatabaseURL :: string
  cf_MigrationPath :: string
  cf_SessionSecret :: string
  cf_MasterKey :: string
  cf_ObjectStorageType :: string
  cf_LocalStoragePath :: string
  cf_S3Endpoint :: string
  cf_S3Bucket :: string
  cf_S3AccessKey :: string
  cf_S3SecretKey :: string
  cf_AllowedPostgresImage :: string
  cf_CORSOrigin :: string
  cf_S3UseTLS :: bool
  cf_CookieSecure :: bool
  cf_MaxConcurrentDrills :: int64
  cf_MaxArtifactBytes :: int64
  cf_DefaultDrillTimeout :: duration
  cf_BootstrapEmail :: string
  cf_BootstrapPassword :: string

definition LoadConfig :: "(string \<Rightarrow> string) \<Rightarrow> getenv \<Rightarrow> Config result" where
  "LoadConfig toLower getenv =
     (case ParseDuration (env_or getenv ''RESTOREGUARD_DEFAULT_DRILL_TIMEOUT'' ''30m'') of
        Inl er \<Rightarrow> Inl er
      | Inr timeout \<Rightarrow>
          let cfg = \<lparr>cf_Environment = env_or getenv ''RESTOREGUARD_ENV'' ''development'',
                cf_HTTPAddr = env_or getenv ''RESTOREGUARD_HTTP_ADDR'' '':8080'',
                cf_DatabaseURL = getenv ''RESTOREGUARD_DATABASE_URL'',
                cf_MigrationPath = env_or getenv ''RESTOREGUARD_MIGRATION_PATH'' ''../migrations'',
                cf_SessionSecret = getenv ''RESTOREGUARD_SESSION_SECRET'', cf_MasterKey = getenv ''RESTOREGUARD_MASTER_KEY'',
                cf_ObjectStorageType = env_or getenv ''RESTOREGUARD_OBJECT_STORAGE_TYPE'' ''local'',
                cf_LocalStoragePath = env_or getenv ''RESTOREGUARD_LOCAL_STORAGE_PATH'' ''../data/artifacts'',
                cf_S3Endpoint = getenv ''RESTOREGUARD_S3_ENDPOINT'', cf_S3Bucket = env_or getenv ''RESTOREGUARD_S3_BUCKET'' ''restoreguard'',
                cf_S3AccessKey = getenv ''RESTOREGUARD_S3_ACCESS_KEY'', cf_S3SecretKey = getenv ''RESTOREGUARD_S3_SECRET_KEY'',
                cf_AllowedPostgresImage = env_or getenv ''RESTOREGUARD_ALLOWED_POSTGRES_IMAGE'' ''postgres:17.6-alpine'',
                cf_CORSOrigin = env_or getenv ''RESTOREGUARD_CORS_ORIGIN'' ''http://localhost:5173'',
                cf_S3UseTLS = boolEnv getenv ''RESTOREGUARD_S3_USE_TLS'' False,
                cf_CookieSecure = boolEnv getenv ''RESTOREGUARD_COOKIE_SECURE'' False,
                cf_MaxConcurrentDrills = intEnv getenv ''RESTOREGUARD_MAX_CONCURRENT_DRILLS'' 2,
                cf_MaxArtifactBytes = int64Env getenv ''RESTOREGUARD_MAX_ARTIFACT_BYTES'' (2 ^ 30),
                cf_DefaultDrillTimeout = timeout,
                cf_BootstrapEmail = toLower (TrimSpace (getenv ''RESTOREGUARD_BOOTSTRAP_ADMIN_EMAIL'')),
                cf_BootstrapPassword = getenv ''RESTOREGUARD_BOOTSTRAP_ADMIN_PASSWORD''\<rparr>
          in if cf_DatabaseURL cfg = [] then Inl (Errorf ''RESTOREGUARD_DATABASE_URL is required'')
             else if length (cf_SessionSecret cfg) < 32
             then Inl (Errorf ''RESTOREGUARD_SESSION_SECRET must contain at least 32 characters'')
             else if cf_MaxConcurrentDrills cfg < 1 \<or> cf_MaxConcurrentDrills cfg > 20
             then Inl (Errorf ''MAX_CONCURRENT_DRILLS must be between 1 and 20'')
             else Inr cfg)"


section \<open>Migrations\<close>

text \<open>
  The database as the migrations see it: the versions in \<open>schema_migrations\<close> and the files whose text was
  sent to the server, in order, each with the error \<open>Exec\<close> returned. \<open>md_ApplySQL\<close> is what executing the text
  of a file does to the versions, and its error; it may return an error for a text that was executed.
\<close>

record ledger =
  lg_versions :: "string list"
  lg_executed :: "(string \<times> go_error option) list"

record migration_files =
  mf_Entries :: "(string \<times> bool) list result"
  mf_ReadFile :: "string \<Rightarrow> bytes result"

record migration_db =
  md_CreateLedger :: "go_error option"
  md_CheckFails :: "string \<Rightarrow> go_error option"
  md_ApplySQL :: "bytes \<Rightarrow> string list \<Rightarrow> string list \<times> go_error option"

definition TrimSuffix :: "string \<Rightarrow> string \<Rightarrow> string" where
  "TrimSuffix s suf = (if HasSuffix s suf then take (length s - length suf) s else s)"

definition migration_names :: "(string \<times> bool) list \<Rightarrow> string list" where
  "migration_names entries =
     sort_key (map (of_char :: char \<Rightarrow> nat)) (map fst (filter (\<lambda>(name, isDir). \<not> isDir \<and> HasSuffix name ''.sql'') entries))"

fun migrate_loop :: "migration_files \<Rightarrow> migration_db \<Rightarrow> string list \<Rightarrow> ledger \<Rightarrow> ledger \<times> go_error option" where
  "migrate_loop fs db [] lg = (lg, None)"
| "migrate_loop fs db (name # names) lg =
     (case md_CheckFails db name of
        Some er \<Rightarrow> (lg, Some (Wrapped (''check migration '' @ name) er))
      | None \<Rightarrow>
          if TrimSuffix name ''.sql'' \<in> set (lg_versions lg) then migrate_loop fs db names lg
          else (case mf_ReadFile fs name of
              Inl er \<Rightarrow> (lg, Some er)
            | Inr sql \<Rightarrow>
                (let (versions, answer) = md_ApplySQL db sql (lg_versions lg);
                     lg = lg\<lparr>lg_versions := versions, lg_executed := lg_executed lg @ [(name, answer)]\<rparr>
                 in case answer of
                      Some er \<Rightarrow> (lg, Some (Wrapped (''migration '' @ name) er))
                    | None \<Rightarrow> migrate_loop fs db names lg)))"

definition Migrate :: "migration_files \<Rightarrow> migration_db \<Rightarrow> ledger \<Rightarrow> ledger \<times> go_error option" where
  "Migrate fs db lg =
     (case md_CreateLedger db of
        Some er \<Rightarrow> (lg, Some (Wrapped ''initialize migration ledger'' er))
      | None \<Rightarrow>
          (case mf_Entries fs of
             Inl er \<Rightarrow> (lg, Some (Wrapped ''read migrations'' er))
           | Inr entries \<Rightarrow> migrate_loop fs db (migration_names entries) lg))"


subsection \<open>What the migrations do\<close>

text \<open>
  What is said of the files' text: it removes no recorded version, and, where a property says so, a file
  that was executed without an error has inserted the version of its name, as the last statement of
  \<open>001_initial.sql\<close> does. A file that fails, or whose answer is lost, may have recorded anything.
\<close>

abbreviation version_of :: "string \<Rightarrow> string" where
  "version_of name \<equiv> TrimSuffix name ''.sql''"

definition keeps_versions :: "migration_db \<Rightarrow> bool" where
  "keeps_versions db = (\<forall>sql vs. set vs \<subseteq> set (fst (md_ApplySQL db sql vs)))"

definition records_version :: "migration_files \<Rightarrow> migration_db \<Rightarrow> string \<Rightarrow> bool" where
  "records_version fs db name =
     (\<forall>sql vs vs'. mf_ReadFile fs name = Inr sql \<and> md_ApplySQL db sql vs = (vs', None) \<longrightarrow> version_of name \<in> set vs')"

text \<open>
  What one run of the loop sends to the server, from a ledger that becomes another.
\<close>

definition attempt :: "migration_files \<Rightarrow> migration_db \<Rightarrow> string list \<Rightarrow> ledger \<Rightarrow> (string \<times> go_error option) list \<Rightarrow> ledger \<Rightarrow> bool" where
  "attempt fs db names lg sent lg' =
     (lg_executed lg' = lg_executed lg @ sent \<and> subseq (map fst sent) names \<and>
      (\<forall>x \<in> set (butlast sent). snd x = None) \<and>
      (\<forall>x \<in> set sent. version_of (fst x) \<notin> set (lg_versions lg)) \<and>
      set (lg_versions lg) \<subseteq> set (lg_versions lg') \<and>
      (\<forall>x \<in> set sent. snd x = None \<and> records_version fs db (fst x) \<longrightarrow> version_of (fst x) \<in> set (lg_versions lg')))"

lemma attempt_nothing: "attempt fs db names lg [] lg"
  by (simp add: attempt_def)

lemma attempt_later: "attempt fs db names lg sent lg' \<Longrightarrow> attempt fs db (name # names) lg sent lg'"
  by (auto simp: attempt_def)

lemma attempt_failed:
  assumes "version_of name \<notin> set (lg_versions lg)" and "md_ApplySQL db sql (lg_versions lg) = (vs, Some er)" and "keeps_versions db"
  shows "attempt fs db (name # names) lg [(name, Some er)]
           (lg\<lparr>lg_versions := vs, lg_executed := lg_executed lg @ [(name, Some er)]\<rparr>)"
proof -
  have "set (lg_versions lg) \<subseteq> set vs"
    using assms(2,3) unfolding keeps_versions_def by (metis fst_conv)
  then show ?thesis using assms(1) by (simp add: attempt_def subseq_Cons2_iff)
qed

lemma attempt_more:
  assumes fresh: "version_of name \<notin> set (lg_versions lg)" and sql: "mf_ReadFile fs name = Inr sql"
    and applied: "md_ApplySQL db sql (lg_versions lg) = (vs, None)" and keeps: "keeps_versions db"
    and rest: "attempt fs db names (lg\<lparr>lg_versions := vs, lg_executed := lg_executed lg @ [(name, None)]\<rparr>) sent lg'"
  shows "attempt fs db (name # names) lg ((name, None) # sent) lg'"
proof -
  have grown: "set (lg_versions lg) \<subseteq> set vs"
    using applied keeps unfolding keeps_versions_def by (metis fst_conv)
  have "version_of name \<in> set vs" if "records_version fs db name"
    using that sql applied unfolding records_version_def by blast
  then show ?thesis using rest fresh grown by (auto simp: attempt_def)
qed

lemma migrate_loop_attempt:
  assumes "migrate_loop fs db names lg = (lg', r)" and "keeps_versions db"
  shows "\<exists>sent. attempt fs db names lg sent lg' \<and>
           (r = None \<longrightarrow> (\<forall>name \<in> set names. version_of name \<in> set (lg_versions lg') \<or> (name, None) \<in> set sent))"
  using assms(1)
proof (induction names arbitrary: lg)
  case Nil
  then show ?case using attempt_nothing [of fs db "[]" lg] by auto
next
  case (Cons name names)
  have stopped: ?case if "lg' = lg" "r \<noteq> None"
    using that attempt_nothing [of fs db "name # names" lg] by metis
  show ?case
  proof (cases "md_CheckFails db name")
    case (Some er)
    then show ?thesis using Cons.prems by (intro stopped) auto
  next
    case checked: None
    show ?thesis
    proof (cases "version_of name \<in> set (lg_versions lg)")
      case True
      then have "migrate_loop fs db names lg = (lg', r)"
        using Cons.prems checked by simp
      from Cons.IH [OF this] obtain sent where sent: "attempt fs db names lg sent lg'"
          "r = None \<longrightarrow> (\<forall>name \<in> set names. version_of name \<in> set (lg_versions lg') \<or> (name, None) \<in> set sent)" by blast
      moreover have "version_of name \<in> set (lg_versions lg')" using True sent(1) by (auto simp: attempt_def)
      ultimately show ?thesis using attempt_later [OF sent(1)] by (intro exI [of _ sent]) auto
    next
      case fresh: False
      show ?thesis
      proof (cases "mf_ReadFile fs name")
        case (Inl er)
        then show ?thesis using Cons.prems checked fresh by (intro stopped) auto
      next
        case sql: (Inr sql)
        obtain vs answer where applied: "md_ApplySQL db sql (lg_versions lg) = (vs, answer)" by fastforce
        let ?lg = "lg\<lparr>lg_versions := vs, lg_executed := lg_executed lg @ [(name, answer)]\<rparr>"
        show ?thesis
        proof (cases answer)
          case (Some er)
          then have "lg' = ?lg" "r \<noteq> None"
            using Cons.prems checked fresh sql applied by auto
          then show ?thesis
            using attempt_failed [OF fresh applied [unfolded Some] assms(2)] Some by auto
        next
          case None
          then have "migrate_loop fs db names ?lg = (lg', r)"
            using Cons.prems checked fresh sql applied by simp
          from Cons.IH [OF this] obtain sent where sent: "attempt fs db names ?lg sent lg'"
              "r = None \<longrightarrow> (\<forall>name \<in> set names. version_of name \<in> set (lg_versions lg') \<or> (name, None) \<in> set sent)" by blast
          have "attempt fs db (name # names) lg ((name, None) # sent) lg'"
            using attempt_more [OF fresh sql applied [unfolded None] assms(2)] sent(1) None by simp
          then show ?thesis using sent(2) by (intro exI [of _ "(name, None) # sent"]) auto
        qed
      qed
    qed
  qed
qed

lemma trim_sql_inj:
  assumes "HasSuffix a ''.sql''" and "HasSuffix b ''.sql''" and "version_of a = version_of b"
  shows "a = b"
  using assms by (auto simp: HasSuffix_suffix suffix_def TrimSuffix_def)

lemma migration_names_suffix: "name \<in> set (migration_names entries) \<Longrightarrow> HasSuffix name ''.sql''"
  by (auto simp: migration_names_def)

lemma migration_names_distinct: "distinct (map fst entries) \<Longrightarrow> distinct (migration_names entries)"
  by (auto simp: migration_names_def distinct_sort distinct_map intro: inj_on_subset)

lemma migration_names_sorted: "sorted (map (map (of_char :: char \<Rightarrow> nat)) (migration_names entries))"
  unfolding migration_names_def by (rule sorted_sort_key)

lemma Migrate_attempt:
  assumes "Migrate fs db lg = (lg', r)" and "mf_Entries fs = Inr entries" and "keeps_versions db"
  obtains sent where "attempt fs db (migration_names entries) lg sent lg'"
    "r = None \<longrightarrow> (\<forall>name \<in> set (migration_names entries). version_of name \<in> set (lg_versions lg') \<or> (name, None) \<in> set sent)"
proof (cases "md_CreateLedger db")
  case (Some er)
  then show ?thesis using that [of "[]"] assms(1) attempt_nothing by (auto simp: Migrate_def)
next
  case None
  then have "migrate_loop fs db (migration_names entries) lg = (lg', r)"
    using assms(1,2) by (simp add: Migrate_def)
  from migrate_loop_attempt [OF this assms(3)] that show ?thesis by blast
qed

text \<open>What two attempts together executed without an error.\<close>

definition done_once :: "(string \<times> go_error option) list \<Rightarrow> bool" where
  "done_once sent = distinct (map fst (filter (\<lambda>x. snd x = None) sent))"

lemma attempts_once:
  assumes "attempt fs db names lg sent1 lg1" and "attempt fs db' names lg1 sent2 lg2" and "distinct names"
    and "\<forall>name \<in> set names. records_version fs db name"
  shows "done_once (sent1 @ sent2)"
proof -
  have subs: "subseq (map fst sent1) names" "subseq (map fst sent2) names"
    using assms(1,2) by (auto simp: attempt_def)
  have "distinct (map fst sent)" if "subseq (map fst sent) names" for sent :: "(string \<times> go_error option) list"
    using that assms(3) by (auto simp: subseq_conv_nths intro: distinct_nthsI)
  then have each: "distinct (map fst (filter (\<lambda>x. snd x = None) sent1))" "distinct (map fst (filter (\<lambda>x. snd x = None) sent2))"
    using subs by (auto intro: distinct_map_filter)
  have "version_of (fst x) \<in> set (lg_versions lg1)" if "x \<in> set sent1" "snd x = None" for x
  proof -
    have "fst x \<in> set names"
      using that(1) list_emb_set [OF subs(1), of "fst x"] by auto
    with that assms(1,4) show ?thesis by (simp add: attempt_def)
  qed
  then show ?thesis
    using each assms(2) by (auto simp: done_once_def attempt_def)
qed

text \<open>
  C38. The migrations run in the byte order of their names, each until it has recorded its version and never
  again. Of two attempts, each of which may fail anywhere and may lose the answer of a file that was executed:
  each sends to the server a subsequence of the sorted \<open>.sql\<close> names of the directory, stops at the first error,
  and sends no file whose version was recorded before it began - so the second attempt leaves alone whatever
  the first one recorded, answered or not. An attempt that returns no error has seen every name of the directory
  recorded or executed without an error. When the files moreover insert their own versions, no file is executed
  without an error in both attempts, and after a second attempt without an error every version is recorded.
  The files remove no version, and no two entries have the same name.
\<close>

theorem migrate_once:
  assumes "Migrate fs db lg = (lg1, r1)" and "Migrate fs db' lg1 = (lg2, r2)"
    and "mf_Entries fs = Inr entries" and "distinct (map fst entries)" and "keeps_versions db" and "keeps_versions db'"
  shows "\<exists>sent1 sent2. lg_executed lg1 = lg_executed lg @ sent1 \<and> lg_executed lg2 = lg_executed lg1 @ sent2 \<and>
    sorted (map (map (of_char :: char \<Rightarrow> nat)) (migration_names entries)) \<and> distinct (migration_names entries) \<and>
    subseq (map fst sent1) (migration_names entries) \<and> subseq (map fst sent2) (migration_names entries) \<and>
    (\<forall>x \<in> set (butlast sent1) \<union> set (butlast sent2). snd x = None) \<and>
    (\<forall>x \<in> set sent1. version_of (fst x) \<notin> set (lg_versions lg)) \<and>
    (\<forall>x \<in> set sent2. version_of (fst x) \<notin> set (lg_versions lg) \<union> set (lg_versions lg1)) \<and>
    (r2 = None \<longrightarrow> (\<forall>name \<in> set (migration_names entries). version_of name \<in> set (lg_versions lg2) \<or> (name, None) \<in> set sent2)) \<and>
    ((\<forall>name \<in> set (migration_names entries). records_version fs db name \<and> records_version fs db' name) \<longrightarrow>
       distinct (map fst (filter (\<lambda>x. snd x = None) (sent1 @ sent2))) \<and>
       (r2 = None \<longrightarrow> version_of ` set (migration_names entries) \<subseteq> set (lg_versions lg2)))"
proof -
  let ?names = "migration_names entries"
  obtain sent1 where first: "attempt fs db ?names lg sent1 lg1"
    using Migrate_attempt [OF assms(1,3,5)] by metis
  obtain sent2 where second: "attempt fs db' ?names lg1 sent2 lg2"
      and complete: "r2 = None \<longrightarrow> (\<forall>name \<in> set ?names. version_of name \<in> set (lg_versions lg2) \<or> (name, None) \<in> set sent2)"
    using Migrate_attempt [OF assms(2,3,6)] by metis
  note names = migration_names_sorted [of entries] migration_names_distinct [OF assms(4)]
  have recorded: "version_of ` set ?names \<subseteq> set (lg_versions lg2)"
    if "\<forall>name \<in> set ?names. records_version fs db' name" "r2 = None"
  proof -
    have "\<forall>x \<in> set sent2. snd x = None \<and> records_version fs db' (fst x) \<longrightarrow> version_of (fst x) \<in> set (lg_versions lg2)"
      using second by (simp add: attempt_def)
    with that complete show ?thesis by fastforce
  qed
  note parts = first [unfolded attempt_def] second [unfolded attempt_def]
  have fresh: "\<forall>x \<in> set sent2. version_of (fst x) \<notin> set (lg_versions lg) \<union> set (lg_versions lg1)"
    using parts by blast
  have once: "distinct (map fst (filter (\<lambda>x. snd x = None) (sent1 @ sent2)))"
    if "\<forall>name \<in> set ?names. records_version fs db name \<and> records_version fs db' name"
    using attempts_once [OF first second names(2)] that by (simp add: done_once_def)
  have stops: "\<forall>x \<in> set (butlast sent1) \<union> set (butlast sent2). snd x = None"
    using parts by blast
  have "lg_executed lg1 = lg_executed lg @ sent1" "lg_executed lg2 = lg_executed lg1 @ sent2"
      "subseq (map fst sent1) ?names" "subseq (map fst sent2) ?names"
      "\<forall>x \<in> set sent1. version_of (fst x) \<notin> set (lg_versions lg)"
    using parts by blast+
  moreover have "(\<forall>name \<in> set ?names. records_version fs db name \<and> records_version fs db' name) \<longrightarrow>
       distinct (map fst (filter (\<lambda>x. snd x = None) (sent1 @ sent2))) \<and>
       (r2 = None \<longrightarrow> version_of ` set ?names \<subseteq> set (lg_versions lg2))"
    using once recorded by blast
  ultimately show ?thesis
    using complete names fresh stops by (intro exI [of _ sent1] exI [of _ sent2] conjI)
qed

text \<open>A directory of two files and a note. At the first attempt the second file is executed and its answer lost.\<close>

definition example_files :: migration_files where
  "example_files = \<lparr>mf_Entries = Inr [(''b.sql'', False), (''notes'', False), (''a.sql'', False)], mf_ReadFile = Inr\<rparr>"

definition example_migrations :: "bool \<Rightarrow> migration_db" where
  "example_migrations lost =
     \<lparr>md_CreateLedger = None, md_CheckFails = (\<lambda>_. None),
      md_ApplySQL = (\<lambda>sql vs. (TrimSuffix sql ''.sql'' # vs,
                              if lost \<and> sql = ''b.sql'' then Some (Errorf ''conn closed'') else None))\<rparr>"

lemma example_names: "migration_names [(''b.sql'', False), (''notes'', False), (''a.sql'', False)] = [''a.sql'', ''b.sql'']"
  by code_simp

lemma example_keeps: "keeps_versions (example_migrations lost)"
  by (auto simp: keeps_versions_def example_migrations_def)

theorem migrate_once_witness:
  "\<exists>sent1 sent2. lg_executed (fst (Migrate example_files (example_migrations True) \<lparr>lg_versions = [], lg_executed = []\<rparr>)) = sent1 \<and>
     subseq (map fst sent1) [''a.sql'', ''b.sql''] \<and> map fst sent1 = [''a.sql'', ''b.sql''] \<and> snd (last sent1) \<noteq> None \<and>
     lg_executed (fst (Migrate example_files (example_migrations False)
       (fst (Migrate example_files (example_migrations True) \<lparr>lg_versions = [], lg_executed = []\<rparr>)))) = sent1 @ sent2 \<and> sent2 = []"
proof -
  have run1: "Migrate example_files (example_migrations True) \<lparr>lg_versions = [], lg_executed = []\<rparr> =
      (\<lparr>lg_versions = [''b'', ''a''], lg_executed = [(''a.sql'', None), (''b.sql'', Some (Errorf ''conn closed''))]\<rparr>,
       Some (Wrapped ''migration b.sql'' (Errorf ''conn closed'')))"
    by code_simp
  have run2: "Migrate example_files (example_migrations False)
      \<lparr>lg_versions = [''b'', ''a''], lg_executed = [(''a.sql'', None), (''b.sql'', Some (Errorf ''conn closed''))]\<rparr> =
      (\<lparr>lg_versions = [''b'', ''a''], lg_executed = [(''a.sql'', None), (''b.sql'', Some (Errorf ''conn closed''))]\<rparr>, None)"
    by code_simp
  have es: "mf_Entries example_files = Inr [(''b.sql'', False), (''notes'', False), (''a.sql'', False)]"
    by (simp add: example_files_def)
  show ?thesis
    using migrate_once [OF run1 run2 es _ example_keeps example_keeps] by (auto simp: run1 run2 example_names)
qed


section \<open>The scheduler\<close>

definition lease_where :: "instant \<Rightarrow> job_row \<Rightarrow> bool" where
  "lease_where now j =
     (sj_next_run_at j \<le> now \<and> (case sj_lease_until j of None \<Rightarrow> True | Some u \<Rightarrow> u < now))"

definition lease_jobs :: "instant \<Rightarrow> tables \<Rightarrow> tables \<times> unit result" where
  "lease_jobs now t =
     (t\<lparr>scheduler_jobs := update_where (lease_where now)
          (\<lambda>j. j\<lparr>sj_lease_owner := Some ''restoreguard-scheduler'', sj_lease_until := Some (now + 2 * time_Minute), sj_updated_at := now\<rparr>)
          (scheduler_jobs t)\<rparr>, Inr ())"

text \<open>One tick; \<open>locked\<close> is the answer of \<open>pg_try_advisory_lock\<close> to the n-th call. The unlock is
  deferred.\<close>

definition scheduler_tick :: "env \<Rightarrow> (nat \<Rightarrow> bool) \<Rightarrow> unit program" where
  "scheduler_tick e locked = do {
     n \<leftarrow> tick;
     if fate_at e n \<noteq> Performed \<or> \<not> locked n then State_Monad.return ()
     else do {
       _ \<leftarrow> db_exec e None lease_jobs;
       _ \<leftarrow> call e;
       State_Monad.return ()
     }
   }"

text \<open>\<open>Run\<close>: each round is a tick unless the context is done.\<close>

fun scheduler_run :: "env \<Rightarrow> (nat \<Rightarrow> bool) \<Rightarrow> nat \<Rightarrow> unit program" where
  "scheduler_run e locked 0 = State_Monad.return ()"
| "scheduler_run e locked (Suc rounds) = do {
     n \<leftarrow> tick;
     if root_done_at e n then State_Monad.return ()
     else do { scheduler_tick e locked; scheduler_run e locked rounds }
   }"


section \<open>Bringing the service up\<close>

text \<open>
  \<open>run\<close> up to the start of the listener: what is returned is the error of the first part that fails, or
  the object storage and the dependencies of the workers. The migrations, the check of the master key
  and the MinIO client are arguments.
\<close>

record service =
  sv_objects :: object_storage
  sv_deps :: WorkerDependencies
  sv_concurrency :: int64
  sv_http :: "bool \<times> string"

definition open_storage ::
    "env \<Rightarrow> string \<Rightarrow> (string \<Rightarrow> string \<Rightarrow> string \<Rightarrow> bool \<Rightarrow> minio_client result) \<Rightarrow> Config \<Rightarrow> object_storage result program" where
  "open_storage e cwd minio_New cfg =
     (if cf_ObjectStorageType cfg = ''s3''
      then (case NewS3 minio_New \<lparr>sc_Endpoint = cf_S3Endpoint cfg, sc_AccessKey = cf_S3AccessKey cfg, sc_SecretKey = cf_S3SecretKey cfg,
                 sc_Bucket = cf_S3Bucket cfg, sc_UseTLS = cf_S3UseTLS cfg, sc_MaxBytes = cf_MaxArtifactBytes cfg\<rparr> of
              Inl er \<Rightarrow> State_Monad.return (Inl er)
            | Inr s \<Rightarrow> do {
                ensured \<leftarrow> s3_EnsureBucket s;
                State_Monad.return (case ensured of Some er \<Rightarrow> Inl (Wrapped ''ensure S3 bucket'' er) | None \<Rightarrow> Inr (OnS3 s))
              })
      else do {
        l \<leftarrow> NewLocal e cwd (cf_LocalStoragePath cfg) (cf_MaxArtifactBytes cfg);
        State_Monad.return (case l of Inl er \<Rightarrow> Inl er | Inr x \<Rightarrow> Inr (OnLocal x))
      })"

definition service_of :: "Config \<Rightarrow> object_storage \<Rightarrow> service" where
  "service_of cfg objects =
     \<lparr>sv_objects = objects,
      sv_deps = \<lparr>wd_Executor = Some \<lparr>de_allowedImage = cf_AllowedPostgresImage cfg\<rparr>, wd_Objects = Some objects,
        wd_AllowedImage = cf_AllowedPostgresImage cfg, wd_MaxArtifactBytes = cf_MaxArtifactBytes cfg,
        wd_DrillTimeout = cf_DefaultDrillTimeout cfg\<rparr>,
      sv_concurrency = cf_MaxConcurrentDrills cfg, sv_http = (cf_CookieSecure cfg, cf_CORSOrigin cfg)\<rparr>"

definition start_service ::
    "env \<Rightarrow> string \<Rightarrow> (string \<Rightarrow> string \<Rightarrow> string \<Rightarrow> bool \<Rightarrow> minio_client result) \<Rightarrow> go_error option program \<Rightarrow>
     (string \<Rightarrow> go_error option) \<Rightarrow> Config \<Rightarrow> service result option program" where
  "start_service e cwd minio_New migrate master_key cfg = do {
     pool \<leftarrow> call e;
     case pool of
       Some er \<Rightarrow> State_Monad.return (Some (Inl (Wrapped ''connect database'' er)))
     | None \<Rightarrow> do {
         migrated \<leftarrow> migrate;
         case migrated of
           Some er \<Rightarrow> State_Monad.return (Some (Inl er))
         | None \<Rightarrow> do {
             booted \<leftarrow> BootstrapDemo e (cf_BootstrapEmail cfg) (cf_BootstrapPassword cfg);
             case booted of
               None \<Rightarrow> State_Monad.return None
             | Some (Some er) \<Rightarrow> State_Monad.return (Some (Inl (Wrapped ''bootstrap'' er)))
             | Some None \<Rightarrow>
                 (case (if cf_MasterKey cfg = [] then None else master_key (cf_MasterKey cfg)) of
                    Some er \<Rightarrow> State_Monad.return (Some (Inl er))
                  | None \<Rightarrow> do {
                      opened \<leftarrow> open_storage e cwd minio_New cfg;
                      case opened of
                        Inl er \<Rightarrow> State_Monad.return (Some (Inl er))
                      | Inr objects \<Rightarrow> do {
                          health \<leftarrow> obj_Health e objects;
                          State_Monad.return (Some (case health of
                              Some er \<Rightarrow> Inl (Wrapped ''object storage'' er)
                            | None \<Rightarrow> Inr (service_of cfg objects)))
                        }
                    })
           }
       }
   }"

subsection \<open>What a started service has\<close>

lemma LoadConfig_accepts:
  assumes "LoadConfig toLower getenv = Inr cfg"
  shows "cf_DatabaseURL cfg \<noteq> [] \<and> 32 \<le> length (cf_SessionSecret cfg) \<and>
         1 \<le> cf_MaxConcurrentDrills cfg \<and> cf_MaxConcurrentDrills cfg \<le> 20"
  using assms by (auto simp: LoadConfig_def Let_def split: sum.splits if_splits)

text \<open>A lease is exclusive for two minutes: a tick in that time, by this or another instance, leaves
  the leased jobs alone.\<close>

lemma lease_exclusive:
  assumes "now \<le> now'" and "now' \<le> now + 2 * time_Minute"
    and "j \<in> set (scheduler_jobs t)" and "lease_where now j"
  shows "\<exists>k. sj_lease_until k = Some (now + 2 * time_Minute) \<and>
             k \<in> set (scheduler_jobs (fst (lease_jobs now t))) \<and> \<not> lease_where now' k"
proof -
  let ?k = "j\<lparr>sj_lease_owner := Some ''restoreguard-scheduler'', sj_lease_until := Some (now + 2 * time_Minute), sj_updated_at := now\<rparr>"
  have "?k \<in> set (scheduler_jobs (fst (lease_jobs now t)))"
    using assms(3,4) by (force simp: lease_jobs_def update_where_def)
  moreover have "\<not> lease_where now' ?k"
    using assms(1,2) by (simp add: lease_where_def)
  ultimately show ?thesis by (intro exI [of _ ?k]) simp
qed

text \<open>
  The workers of a started service have an executor and an object storage: the hypotheses of the
  properties of a run of the worker hold for it, with the image and the limits of the configuration.
\<close>

definition service_ready :: "Config \<Rightarrow> service \<Rightarrow> bool" where
  "service_ready cfg sv =
     (wd_Executor (sv_deps sv) \<noteq> None \<and> wd_Objects (sv_deps sv) = Some (sv_objects sv) \<and>
      wd_AllowedImage (sv_deps sv) = cf_AllowedPostgresImage cfg \<and>
      wd_MaxArtifactBytes (sv_deps sv) = cf_MaxArtifactBytes cfg \<and>
      sv_concurrency sv = cf_MaxConcurrentDrills cfg)"

lemma service_of_ready: "service_ready cfg (service_of cfg objects)"
  by (simp add: service_ready_def service_of_def)

lemma start_service_ready:
  assumes "fst (run_state (start_service e cwd minio migrate master_key cfg) w) = Some (Inr sv)"
  shows "service_ready cfg sv"
proof -
  have "yields (\<lambda>x. \<forall>sv. x = Some (Inr sv) \<longrightarrow> service_ready cfg sv) (start_service e cwd minio migrate master_key cfg)"
    unfolding start_service_def by (intro yields_intros) (auto simp: service_of_ready split: option.splits)
  then show ?thesis using assms by (simp add: yields_def)
qed

text \<open>After a failed migration nothing more is done: no account is created and no storage opened.\<close>

lemma start_service_migration_error:
  assumes "run_state (call e) w = (None, w1)" and "run_state migrate w1 = (Some er, w2)"
  shows "run_state (start_service e cwd minio migrate master_key cfg) w = (Some (Inl er), w2)"
  unfolding start_service_def by (simp only: run_state_bind assms prod.case option.case) simp

end
