(* ===== verification/Service.thy ===== *)
theory Service
  imports Http_Stream Startup
begin

text \<open>
  The service as a whole: the goroutines of the worker pool (\<open>NewWorkerPool\<close>, \<open>worker\<close>, \<open>Close\<close> of
  \<open>drill/worker.go\<close>), the requests of the HTTP server, and the shutdown of \<open>cmd/server/main.go\<close>, as a step
  relation on the state of the goroutines and the world. A step of a worker is what it does between two
  points where it waits or other goroutines can see it: taking a job, the body of the run, the deferred
  removal from the running set, the end of the goroutine.
\<close>

section \<open>Requests and the process\<close>

text \<open>What requests do to the part of the world outside the database: they submit drills and they
  subscribe to the hub.\<close>

lemma keeps_random_process [keeps_intros]:
  "keeps (on_process P) (rand_Read e len)" "keeps (on_process P) (HashPassword e pw)"
  "keeps (on_process P) (randomToken e)"
proof -
  show rand: "keeps (on_process P) (rand_Read e len)" for len
    by (rule keeps_rand_Read) (simp add: on_process_def)
  show "keeps (on_process P) (HashPassword e pw)" "keeps (on_process P) (randomToken e)"
    unfolding HashPassword_def randomToken_def by (intro keeps_intros rand)+
qed

locale process_requests =
  fixes P :: "process \<Rightarrow> bool" and e :: env
  assumes submitted: "keeps (on_process P) (Submit did)"
    and streamed: "keeps (on_process P) (events_handler e sv p i r)"
begin

lemma keeps_Cancel_process [keeps_intros]: "keeps (on_process P) (Cancel did)"
  unfolding Cancel_def by (rule keeps_upd) (simp add: on_process_def process_of_def)

lemma audit_keeps [keeps_intros]: "keeps (on_process P) (audit_then e p ev ty rid md r x)"
  unfolding audit_then_def Audit_def Let_def by (intro keeps_intros)

lemma GetDrill_keeps [keeps_intros]: "keeps (on_process P) (GetDrill e org i)"
  unfolding GetDrill_def ListDrills_def by (intro keeps_intros)

lemma account_handlers_keep:
  "keeps (on_process P) (login_handler e sv r)"
  "keeps (on_process P) (logout_handler e sv p i r)" "keeps (on_process P) (session_handler e sv p i r)"
  "keeps (on_process P) (password_handler e sv p i r)"
  unfolding login_handler_def Login_def open_session_def store_roles_def logout_handler_def Revoke_def
    session_handler_def password_handler_def ChangePassword_def password_tx_def
  by (intro keeps_intros)+

lemma resource_handlers_keep:
  "keeps (on_process P) (assets_handler e sv p i r)" "keeps (on_process P) (asset_handler e sv p i r)"
  "keeps (on_process P) (sources_handler e sv p i r)" "keeps (on_process P) (discover_handler e sv p i r)"
  "keeps (on_process P) (policies_handler e sv p i r)"
  unfolding assets_handler_def ListAssets_def CreateAsset_def asset_handler_def GetAsset_def sources_handler_def
    ListSources_def CreateSource_def discover_handler_def DiscoverSource_def policies_handler_def
    ListPolicies_def CreatePolicy_def exec_by_id_def Let_def
  by (intro keeps_intros)+

lemma drill_handlers_keep:
  "keeps (on_process P) (drills_handler e sv p i r)" "keeps (on_process P) (cancel_handler e sv p i r)"
  "keeps (on_process P) (drill_handler e sv p i r)" "keeps (on_process P) (report_handler e sv p i r)"
  unfolding drills_handler_def ListDrills_def CreateDrill_def Audit_def cancel_handler_def CancelDrill_def
    exec_by_id_def drill_handler_def report_handler_def Let_def
  by (intro keeps_intros submitted)+

lemma reading_handlers_keep:
  "keeps (on_process P) (overview_handler e sv p i r)" "keeps (on_process P) (snapshots_handler e sv p i r)"
  "keeps (on_process P) (evidence_handler e sv p i r)" "keeps (on_process P) (audit_handler e sv p i r)"
  "keeps (on_process P) (roles_handler e sv p i r)" "keeps (on_process P) (users_handler e sv p i r)"
  "keeps (on_process P) (settings_handler e sv p i r)" "keeps (on_process P) (health_handler e r)"
  "keeps (on_process P) (ready_handler e r)"
  unfolding overview_handler_def Overview_def snapshots_handler_def evidence_handler_def audit_handler_def
    simpleRows_def rows_reply_def read_rows_def roles_handler_def users_handler_def settings_handler_def
    health_handler_def ready_handler_def Health_def Let_def
  by (intro keeps_intros)+

lemma protected_keeps: "ep \<noteq> EpLogin \<Longrightarrow> keeps (on_process P) (protected ep e sv p i r)"
  by (cases ep) (simp_all add: protected_def account_handlers_keep resource_handlers_keep drill_handlers_keep
      streamed reading_handlers_keep)

lemma require_keeps:
  "(\<And>p. keeps (on_process P) (next p)) \<Longrightarrow> keeps (on_process P) (require e sv perm next r)"
  unfolding require_def Authenticate_def store_roles_def by (intro keeps_intros)

lemma route_keeps:
  assumes "rt \<in> set routes"
  shows "keeps (on_process P) (case rt_Access rt of
             Public \<Rightarrow> open_handler e sv (rt_Endpoint rt) r
           | Require permission \<Rightarrow>
               require e sv permission
                 (\<lambda>p. protected (rt_Endpoint rt) e sv p (coalesce (match_path (rt_Pattern rt) (rq_Path r))) r) r)"
proof (cases "rt_Access rt")
  case Public
  then show ?thesis
    by (cases "rt_Endpoint rt") (simp_all add: open_handler_def account_handlers_keep reading_handlers_keep)
next
  case (Require perm)
  then show ?thesis using protected_route [OF assms Require] by (simp add: require_keeps protected_keeps)
qed

lemma serve_keeps: "keeps (on_process P) (serve e sv r)"
proof -
  have "keeps (on_process P) (ServeMux e sv r)" for r
    unfolding ServeMux_def by (intro keeps_intros route_keeps) (use find_route_in in blast)
  then show ?thesis unfolding serve_def secure_def Let_def by (intro keeps_intros)
qed

end


text \<open>The hub stays sound, the queue within its 100 places, and the running set as it is.\<close>

definition jobs_bounded :: "process \<Rightarrow> bool" where
  "jobs_bounded pr = (length (pr_jobs pr) \<le> 100)"

lemma Submit_cases:
  "run_state (Submit did) w = (None, w\<lparr>w_jobs := w_jobs w @ [did]\<rparr>) \<and> length (w_jobs w) < 100 \<or>
   run_state (Submit did) w = (Some (Errorf ''drill queue is full''), w) \<and> 100 \<le> length (w_jobs w)"
  by (simp add: Submit_def)

lemma submit_keeps:
  assumes "\<And>w. on_process P w \<Longrightarrow> length (w_jobs w) < 100 \<Longrightarrow> on_process P (w\<lparr>w_jobs := w_jobs w @ [did]\<rparr>)"
  shows "keeps (on_process P) (Submit did)"
  using assms by (auto simp: keeps_def hoare_def Submit_def)

lemma stream_keeps:
  assumes "\<And>ev. keeps (on_process P) (publish e ev)"
    and "\<And>w h. on_process P w \<Longrightarrow> on_process P (w\<lparr>w_hub := h\<rparr>)"
    and "\<And>w. on_process P w \<Longrightarrow> on_process P (w\<lparr>w_crashed := True\<rparr>)"
  shows "keeps (on_process P) (events_handler e sv p i r)"
proof -
  have drill: "keeps (on_process P) (GetDrill e org i)" for org
    unfolding GetDrill_def ListDrills_def by (intro keeps_intros)
  have hub: "keeps (on_process P) (hub_upd f)" for f
    unfolding hub_upd_def by (rule keeps_upd) (auto simp: assms(2,3) split: option.splits)
  have subscribe: "keeps (on_process P) (State (\<lambda>w. let (h, c) = Subscribe i (w_hub w) in (c, w\<lparr>w_hub := h\<rparr>)))"
    by (auto simp: keeps_def hoare_def assms(2) split: prod.splits)
  have set_hub: "keeps (on_process P) (upd (\<lambda>w. w\<lparr>w_hub := h\<rparr>))" for h
    by (rule keeps_upd) (rule assms(2))
  have loop: "keeps (on_process P) (event_loop e c wakes)" for c wakes
  proof (induction wakes)
    case (Cons wk wakes)
    then show ?case
      by (cases wk) (auto intro!: keeps_intros keeps_get assms(1) hub set_hub simp: Let_def split: option.split prod.split)
  qed (simp add: keeps_return)
  show ?thesis
    unfolding events_handler_def by (intro keeps_intros drill hub subscribe loop)
qed

interpretation queue_bounded: process_requests jobs_bounded e for e
proof unfold_locales
  show "keeps (on_process jobs_bounded) (Submit did)" for did
    by (rule submit_keeps) (simp add: on_process_def jobs_bounded_def process_of_def)
  show "keeps (on_process jobs_bounded) (events_handler e sv p i r)" for sv p i r
    by (rule stream_keeps)
      (auto simp: publish_def on_process_def jobs_bounded_def process_of_def intro!: keeps_upd split: option.splits)
qed

interpretation requests_running: process_requests "running_is rs" e for rs e
proof unfold_locales
  show "keeps (on_process (running_is rs)) (Submit did)" for did
    by (rule submit_keeps) (simp add: on_process_def running_is_def process_of_def)
  show "keeps (on_process (running_is rs)) (events_handler e sv p i r)" for sv p i r
    by (rule stream_keeps)
      (auto simp: publish_def on_process_def running_is_def process_of_def intro!: keeps_upd split: option.splits)
qed

interpretation requests_hub: process_requests hub_ok e for e
proof unfold_locales
  show "keeps (on_process hub_ok) (Submit did)" for did
    by (rule submit_keeps) (simp add: on_process_def hub_ok_def process_of_def)
  show "keeps (on_process hub_ok) (events_handler e sv p i r)" for sv p i r
    unfolding keeps_def
  proof (rule hoareI)
    fix w x w'
    assume w: "on_process hub_ok w" and run: "run_state (events_handler e sv p i r) w = (x, w')"
    then have inv: "hub_inv (w_hub w)" "\<not> w_crashed w" by (simp_all add: on_process_def hub_ok_def process_of_def)
    obtain res w1 where get: "run_state (GetDrill e (pr_OrganizationID p) i) w = (res, w1)" by fastforce
    show "on_process hub_ok w'"
    proof (cases "rq_Flusher r \<and> \<not> isl res")
      case True
      then obtain d where "run_state (GetDrill e (pr_OrganizationID p) i) w = (Inr d, w1)" using get by (cases res) auto
      from stream_run [OF this _ inv(1), of r sv] True run inv(2) show ?thesis
        by (auto simp: on_process_def hub_ok_def process_of_def)
    next
      case False
      then have "w_hub w' = w_hub w \<and> w_crashed w' = w_crashed w"
        using run get hub_GetDrill [OF get] by (auto simp: events_handler_def split: sum.splits if_splits)
      then show ?thesis using inv by (simp add: on_process_def hub_ok_def process_of_def)
    qed
  qed
qed

text \<open>A body of a run leaves the queue alone, too.\<close>

definition jobs_are :: "string list \<Rightarrow> process \<Rightarrow> bool" where
  "jobs_are js pr = (pr_jobs pr = js)"

interpretation jobs_kept: process_invariant "jobs_are js" e for js e
proof unfold_locales
  show "keeps (on_process (jobs_are js)) (publish e ev)" for ev
    unfolding publish_def
    by (rule keeps_upd) (simp add: on_process_def jobs_are_def process_of_def split: option.splits)
qed

lemma jobs_docker: "on_process (jobs_are js) w \<Longrightarrow> docker_only w w' \<Longrightarrow> on_process (jobs_are js) w'"
  by (simp add: on_process_def jobs_are_def process_of_def docker_only_simps)

lemma run_body_jobs: "keeps (on_process (jobs_are js)) (run_body e deps did)"
  by (rule jobs_kept.keeps_run_body; rule keeps_by_docker, rule keeps_sandbox, erule (1) jobs_docker)

lemma run_body_process:
  assumes "run_state (run_body e deps did) w = (u, w')"
  shows "w_jobs w' = w_jobs w" "w_running w' = w_running w"
    "hub_inv (w_hub w) \<Longrightarrow> \<not> w_crashed w \<Longrightarrow> hub_inv (w_hub w') \<and> \<not> w_crashed w'"
  using keeps_run [OF run_body_jobs [of "w_jobs w" e deps did], of w]
    keeps_run [OF run_body_running [of "w_running w" e deps did], of w]
    keeps_run [OF run_body_hub_ok [of e deps did], of w] assms
  by (simp_all add: on_process_def jobs_are_def running_is_def hub_ok_def process_of_def)


section \<open>The goroutines of the worker pool\<close>

text \<open>
  A worker waits in its \<open>select\<close>, has taken a job and registered it, has come to the end of the body of
  \<open>run\<close>, or has returned. \<open>wp_wg\<close> is the counter of the wait group and \<open>wp_closed\<close> says that the root
  context is cancelled. When the root is done and a job is queued, \<open>select\<close> may take either.
\<close>

datatype goroutine = Waiting | Started string | Ran string | Exited

record pool =
  wp_workers :: "goroutine list"
  wp_wg :: int
  wp_closed :: bool

definition NewWorkerPool :: "int64 \<Rightarrow> pool" where
  "NewWorkerPool concurrency =
     \<lparr>wp_workers = replicate (nat concurrency) Waiting, wp_wg = int (nat concurrency), wp_closed = False\<rparr>"

definition enter_run :: "string \<Rightarrow> world \<Rightarrow> world" where
  "enter_run did w = w\<lparr>w_running := List.insert did (w_running w), w_cancelled := removeAll did (w_cancelled w)\<rparr>"

definition leave_run :: "string \<Rightarrow> world \<Rightarrow> world" where
  "leave_run did w = w\<lparr>w_running := removeAll did (w_running w)\<rparr>"

definition set_worker :: "nat \<Rightarrow> goroutine \<Rightarrow> pool \<Rightarrow> pool" where
  "set_worker i g p = p\<lparr>wp_workers := (wp_workers p)[i := g]\<rparr>"

text \<open>The deferred \<open>wg.Done()\<close>.\<close>

definition worker_exit :: "nat \<Rightarrow> pool \<Rightarrow> pool" where
  "worker_exit i p = (set_worker i Exited p)\<lparr>wp_wg := wp_wg p - 1\<rparr>"

inductive worker_step :: "WorkerDependencies \<Rightarrow> pool \<times> world \<Rightarrow> pool \<times> world \<Rightarrow> bool" for deps where
  take_job: "i < length (wp_workers p) \<Longrightarrow> wp_workers p ! i = Waiting \<Longrightarrow> w_jobs w = did # rest \<Longrightarrow>
    worker_step deps (p, w) (set_worker i (Started did) p, enter_run did (w\<lparr>w_jobs := rest\<rparr>))"
| do_run: "i < length (wp_workers p) \<Longrightarrow> wp_workers p ! i = Started did \<Longrightarrow>
    run_state (run_body e deps did) w = (u, w') \<Longrightarrow> worker_step deps (p, w) (set_worker i (Ran did) p, w')"
| end_run: "i < length (wp_workers p) \<Longrightarrow> wp_workers p ! i = Ran did \<Longrightarrow>
    worker_step deps (p, w) (set_worker i Waiting p, leave_run did w)"
| return_: "i < length (wp_workers p) \<Longrightarrow> wp_workers p ! i = Waiting \<Longrightarrow> wp_closed p \<Longrightarrow>
    worker_step deps (p, w) (worker_exit i p, w)"

inductive_cases worker_stepE: "worker_step deps (p, w) s"

text \<open>\<open>Close\<close> cancels the root and waits: it returns when the counter is 0 or the given context is done.\<close>

definition pool_cancel :: "pool \<Rightarrow> pool" where
  "pool_cancel p = p\<lparr>wp_closed := True\<rparr>"

definition close_returns :: "pool \<Rightarrow> go_error option \<Rightarrow> go_error option \<Rightarrow> bool" where
  "close_returns p ctx r = ((wp_wg p = 0 \<and> r = None) \<or> (ctx \<noteq> None \<and> r = ctx))"

text \<open>The service: the workers, the requests, \<open>Close\<close> of the pool and of the hub, and time.\<close>

inductive service_step :: "WorkerDependencies \<Rightarrow> Server \<Rightarrow> pool \<times> world \<Rightarrow> pool \<times> world \<Rightarrow> bool" for deps sv where
  works: "worker_step deps s s' \<Longrightarrow> service_step deps sv s s'"
| serves: "run_state (serve e sv r) w = (x, w') \<Longrightarrow> service_step deps sv (p, w) (p, w')"
| closes: "service_step deps sv (p, w) (pool_cancel p, w)"
| closes_hub: "run_state (hub_upd hub_Close) w = (u, w') \<Longrightarrow> service_step deps sv (p, w) (p, w')"
| passes: "service_step deps sv (p, w) (p, w\<lparr>w_step := n\<rparr>)"

text \<open>The run of the worker in its three steps.\<close>

lemma worker_run_parts:
  "run_state (worker_run e deps did) w = ((), leave_run did (snd (run_state (run_body e deps did) (enter_run did w))))"
  by (simp add: worker_run_def enter_run_def leave_run_def split: prod.splits)


section \<open>The invariant of the pool\<close>

fun busy_with :: "goroutine \<Rightarrow> string list" where
  "busy_with (Started did) = [did]"
| "busy_with (Ran did) = [did]"
| "busy_with _ = []"

definition busy :: "pool \<Rightarrow> string list" where
  "busy p = concat (map busy_with (wp_workers p))"

definition pool_inv :: "nat \<Rightarrow> pool \<times> world \<Rightarrow> bool" where
  "pool_inv n s = (let p = fst s; w = snd s in
     length (wp_workers p) = n \<and> wp_wg p = int (length (filter (\<lambda>g. g \<noteq> Exited) (wp_workers p))) \<and>
     (Exited \<in> set (wp_workers p) \<longrightarrow> wp_closed p) \<and>
     distinct (w_running w) \<and> set (w_running w) \<subseteq> set (busy p) \<and>
     length (w_jobs w) \<le> 100 \<and> hub_inv (w_hub w) \<and> \<not> w_crashed w)"

lemma busy_length: "length (busy p) \<le> length (wp_workers p)"
proof -
  have "length (concat (map busy_with gs)) \<le> length gs" for gs
  proof (induction gs)
    case (Cons g gs)
    then show ?case by (cases g) auto
  qed simp
  then show ?thesis by (simp add: busy_def)
qed

lemma busy_set: "did \<in> set (busy p) \<longleftrightarrow> (\<exists>i < length (wp_workers p). did \<in> set (busy_with (wp_workers p ! i)))"
  by (simp add: busy_def) (metis in_set_conv_nth)

lemma busy_set_worker:
  assumes "i < length (wp_workers p)"
  shows "set (busy_with g) \<subseteq> set (busy (set_worker i g p))"
    and "set (busy p) - set (busy_with (wp_workers p ! i)) \<subseteq> set (busy (set_worker i g p))"
  using assms by (auto simp: busy_set set_worker_def nth_list_update)

lemma filter_list_update:
  assumes "i < length xs"
  shows "int (length (filter P (xs[i := y]))) =
    int (length (filter P xs)) - (if P (xs ! i) then 1 else 0) + (if P y then 1 else 0)"
proof -
  have "xs = take i xs @ xs ! i # drop (Suc i) xs" using assms by (rule id_take_nth_drop)
  then have "length (filter P xs) = length (filter P (take i xs @ xs ! i # drop (Suc i) xs))" by simp
  then show ?thesis using assms by (simp add: upd_conv_take_nth_drop)
qed

text \<open>What changing one worker does to the counter and to the jobs in hand.\<close>

lemma pool_inv_set_worker:
  assumes "pool_inv n (p, w)" and "i < length (wp_workers p)" and "wp_workers p ! i \<noteq> Exited" and "g \<noteq> Exited"
    and "distinct (w_running w')" and "set (w_running w') \<subseteq> set (busy (set_worker i g p))"
    and "length (w_jobs w') \<le> 100" and "hub_inv (w_hub w')" and "\<not> w_crashed w'"
  shows "pool_inv n (set_worker i g p, w')"
  using assms set_update_subset_insert [of "wp_workers p" i g]
  by (auto simp: pool_inv_def Let_def set_worker_def filter_list_update)

lemma pool_inv_keep:
  assumes "pool_inv n (p, w)" and "w_running w' = w_running w" and "length (w_jobs w') \<le> 100"
    and "hub_inv (w_hub w')" and "\<not> w_crashed w'"
  shows "pool_inv n (p, w')"
  using assms by (simp add: pool_inv_def Let_def)

lemma worker_step_inv:
  assumes "worker_step deps s s'" and "pool_inv n s"
  shows "pool_inv n s'"
  using assms
proof (induction rule: worker_step.induct)
  case (take_job i p w did rest)
  have "set (w_running w) \<subseteq> set (busy (set_worker i (Started did) p))"
    using take_job(2,4) busy_set_worker(2) [OF take_job(1), of "Started did"] by (auto simp: pool_inv_def Let_def)
  then show ?case
    using take_job busy_set_worker(1) [OF take_job(1), of "Started did"]
    by (intro pool_inv_set_worker [OF take_job(4,1)])
      (auto simp: enter_run_def pool_inv_def Let_def List.insert_def)
next
  case (do_run i p did e w u w')
  have "set (w_running w) \<subseteq> set (busy (set_worker i (Ran did) p))"
    using do_run(2,4) busy_set_worker [OF do_run(1), of "Ran did"] by (fastforce simp: pool_inv_def Let_def)
  then show ?case
    using do_run run_body_process [OF do_run(3)]
    by (intro pool_inv_set_worker [OF do_run(4,1)]) (auto simp: pool_inv_def Let_def)
next
  case (end_run i p did w)
  have "set (w_running w) - {did} \<subseteq> set (busy (set_worker i Waiting p))"
    using end_run(2,3) busy_set_worker(2) [OF end_run(1), of Waiting] by (auto simp: pool_inv_def Let_def)
  then show ?case
    using end_run
    by (intro pool_inv_set_worker [OF end_run(3,1)]) (auto simp: leave_run_def pool_inv_def Let_def distinct_removeAll)
next
  case (return_ i p w)
  have "set (w_running w) \<subseteq> set (busy (set_worker i Exited p))"
    using return_(2,4) busy_set_worker(2) [OF return_(1), of Exited] by (auto simp: pool_inv_def Let_def)
  then show ?case
    using return_ by (auto simp: pool_inv_def Let_def worker_exit_def busy_def set_worker_def filter_list_update)
qed

lemma hub_upd_close_inv:
  assumes "run_state (hub_upd hub_Close) w = (u, w')" and "hub_inv (w_hub w)" and "\<not> w_crashed w"
  shows "hub_inv (w_hub w') \<and> \<not> w_crashed w' \<and> w_jobs w' = w_jobs w \<and> w_running w' = w_running w"
  using assms hub_Close_inv [of "w_hub w"] by (auto simp: hub_upd_def upd_def split: option.splits)

lemma serve_process:
  assumes "run_state (serve e sv r) w = (x, w')"
  shows "w_running w' = w_running w" "length (w_jobs w) \<le> 100 \<Longrightarrow> length (w_jobs w') \<le> 100"
    "hub_inv (w_hub w) \<Longrightarrow> \<not> w_crashed w \<Longrightarrow> hub_inv (w_hub w') \<and> \<not> w_crashed w'"
  using keeps_run [OF requests_running.serve_keeps [of "w_running w" e sv r], of w]
    keeps_run [OF queue_bounded.serve_keeps [of e sv r], of w]
    keeps_run [OF requests_hub.serve_keeps [of e sv r], of w] assms
  by (simp_all add: on_process_def jobs_bounded_def running_is_def hub_ok_def process_of_def)

lemma service_step_inv:
  assumes "service_step deps sv s s'" and "pool_inv n s"
  shows "pool_inv n s'"
  using assms
proof (induction rule: service_step.induct)
  case (works s s')
  then show ?case by (rule worker_step_inv)
next
  case (serves e r w x w' p)
  then show ?case
    using serve_process [OF serves(1)] by (intro pool_inv_keep [OF serves(2)]) (auto simp: pool_inv_def Let_def)
next
  case (closes p w)
  then show ?case by (simp add: pool_inv_def Let_def pool_cancel_def busy_def)
next
  case (closes_hub w u w' p)
  then show ?case
    using hub_upd_close_inv [OF closes_hub(1)] by (intro pool_inv_keep [OF closes_hub(2)]) (auto simp: pool_inv_def Let_def)
next
  case (passes p w k)
  then show ?case by (simp add: pool_inv_def Let_def)
qed

lemma service_inv: "(service_step deps sv)\<^sup>*\<^sup>* s s' \<Longrightarrow> pool_inv n s \<Longrightarrow> pool_inv n s'"
  by (induction rule: rtranclp_induct) (blast intro: service_step_inv)+

lemma pool_inv_init:
  assumes "w_jobs w = []" and "w_running w = []" and "hub_inv (w_hub w)" and "\<not> w_crashed w"
  shows "pool_inv (nat c) (NewWorkerPool c, w)"
  using assms by (simp add: pool_inv_def NewWorkerPool_def Let_def)

lemma running_at_most:
  assumes "pool_inv n (p, w)"
  shows "length (w_running w) \<le> n"
proof -
  have "length (w_running w) = card (set (w_running w))"
    using assms by (simp add: pool_inv_def Let_def distinct_card)
  also have "\<dots> \<le> card (set (busy p))"
    using assms by (simp add: pool_inv_def Let_def card_mono)
  also have "\<dots> \<le> length (busy p)" by (rule card_length)
  finally show ?thesis using busy_length [of p] assms by (simp add: pool_inv_def Let_def)
qed

section \<open>The database in the service\<close>

text \<open>A predicate of the database that requests and runs keep is kept by the service.\<close>

lemma service_step_keeps:
  assumes "service_step deps sv s s'" and "J (w_db (snd s))"
    and "\<And>e did. keeps (on_db J) (run_body e deps did)" and "\<And>e r. keeps (on_db J) (serve e sv r)"
  shows "J (w_db (snd s'))"
  using assms(1,2)
proof (induction rule: service_step.induct)
  case (works s s')
  from works(1) show ?case
  proof (cases rule: worker_step.cases)
    case (do_run i p did e w u w')
    then show ?thesis using works(2) keeps_run [OF assms(3) [of e did], of w] by (simp add: on_db_def)
  qed (use works(2) in \<open>simp_all add: enter_run_def leave_run_def\<close>)
next
  case (serves e r w x w' p)
  then show ?case using keeps_run [OF assms(4) [of e r], of w] by (simp add: on_db_def)
next
  case (closes_hub w u w' p)
  then show ?case by (auto simp: hub_upd_def upd_def split: option.splits)
qed simp_all

lemma service_keeps:
  assumes "(service_step deps sv)\<^sup>*\<^sup>* s s'" and "J (w_db (snd s))"
    and "\<And>e did. keeps (on_db J) (run_body e deps did)" and "\<And>e r. keeps (on_db J) (serve e sv r)"
  shows "J (w_db (snd s'))"
  using assms(1,2) by (induction rule: rtranclp_induct) (blast intro: service_step_keeps [OF _ _ assms(3,4)])+

lemma service_evolves:
  assumes "(service_step deps sv)\<^sup>*\<^sup>* s s'" and "wd_Executor deps \<noteq> None" and "wd_Objects deps \<noteq> None"
  shows "tables_evolve (w_db (snd s)) (w_db (snd s'))"
  by (rule service_keeps [OF assms(1)])
    (simp_all add: evolution.body_keeps assms(2,3) requests_evolve.serve_keeps)


section \<open>Draining the pool\<close>

fun goroutine_weight :: "goroutine \<Rightarrow> nat" where
  "goroutine_weight Exited = 0"
| "goroutine_weight Waiting = 1"
| "goroutine_weight (Ran did) = 2"
| "goroutine_weight (Started did) = 3"

definition pool_weight :: "pool \<times> world \<Rightarrow> nat" where
  "pool_weight s = 4 * length (w_jobs (snd s)) + sum_list (map goroutine_weight (wp_workers (fst s)))"

lemma weight_set_worker:
  assumes "i < length (wp_workers p)"
  shows "sum_list (map goroutine_weight (wp_workers (set_worker i g p))) + goroutine_weight (wp_workers p ! i) =
         sum_list (map goroutine_weight (wp_workers p)) + goroutine_weight g"
proof -
  have "goroutine_weight (wp_workers p ! i) \<le> sum_list (map goroutine_weight (wp_workers p))"
    using assms elem_le_sum_list [of i "map goroutine_weight (wp_workers p)"] by simp
  then show ?thesis using assms by (simp add: set_worker_def map_update sum_list_update)
qed

lemma worker_step_weight: "worker_step deps s s' \<Longrightarrow> pool_weight s' < pool_weight s"
proof (induction rule: worker_step.induct)
  case (take_job i p w did rest)
  then show ?case using weight_set_worker [OF take_job(1), of "Started did"] by (simp add: pool_weight_def enter_run_def)
next
  case (do_run i p did e w u w')
  then show ?case
    using weight_set_worker [OF do_run(1), of "Ran did"] run_body_process(1) [OF do_run(3)] by (simp add: pool_weight_def)
next
  case (end_run i p did w)
  then show ?case using weight_set_worker [OF end_run(1), of Waiting] by (simp add: pool_weight_def leave_run_def)
next
  case (return_ i p w)
  then show ?case using weight_set_worker [OF return_(1), of Exited] by (simp add: pool_weight_def worker_exit_def)
qed

lemma worker_steps_bounded: "(worker_step deps ^^ k) s s' \<Longrightarrow> pool_weight s' + k \<le> pool_weight s"
proof (induction k arbitrary: s')
  case (Suc k)
  then obtain s1 where "(worker_step deps ^^ k) s s1" "worker_step deps s1 s'" by auto
  then show ?case using Suc.IH [of s1] worker_step_weight [of deps s1 s'] by simp
qed simp

lemma pool_weight_le: "pool_weight (p, w) \<le> 4 * length (w_jobs w) + 3 * length (wp_workers p)"
proof -
  have "sum_list (map goroutine_weight gs) \<le> 3 * length gs" for gs
  proof (induction gs)
    case (Cons g gs)
    then show ?case by (cases g) auto
  qed simp
  then show ?thesis by (simp add: pool_weight_def)
qed

lemma worker_step_closed: "worker_step deps s s' \<Longrightarrow> wp_closed (fst s) \<Longrightarrow> wp_closed (fst s')"
  by (induction rule: worker_step.induct) (simp_all add: set_worker_def worker_exit_def)

lemma worker_steps_closed: "(worker_step deps)\<^sup>*\<^sup>* s s' \<Longrightarrow> wp_closed (fst s) \<Longrightarrow> wp_closed (fst s')"
  by (induction rule: rtranclp_induct) (auto intro: worker_step_closed)

text \<open>A goroutine that has not returned can go on once the pool is closed.\<close>

lemma worker_progress:
  assumes "wp_closed p" and "i < length (wp_workers p)" and "wp_workers p ! i \<noteq> Exited"
  shows "\<exists>s. worker_step deps (p, w) s"
proof (cases "wp_workers p ! i")
  case (Started did)
  have "run_state (run_body calm deps did) w = ((), snd (run_state (run_body calm deps did) w))" by (simp add: prod_eq_iff)
  then show ?thesis using worker_step.do_run [OF assms(2) Started] by blast
qed (use assms worker_step.return_ worker_step.end_run in blast)+

lemma drained:
  assumes "pool_inv n (p, w)" and "\<forall>g \<in> set (wp_workers p). g = Exited"
  shows "wp_wg p = 0 \<and> w_running w = []"
proof -
  have "busy p = []" using assms(2) by (auto simp: busy_def)
  moreover have "filter (\<lambda>g. g \<noteq> Exited) (wp_workers p) = []" using assms(2) by (simp add: filter_empty_conv)
  ultimately show ?thesis using assms(1) by (simp add: pool_inv_def Let_def)
qed

lemma counter_zero:
  assumes "pool_inv n (p, w)" and "wp_wg p = 0"
  shows "\<forall>g \<in> set (wp_workers p). g = Exited"
  using assms by (auto simp: pool_inv_def Let_def filter_empty_conv)


section \<open>The loop of a worker as steps\<close>

lemma worker_loop_steps:
  assumes "run_state (worker_loop e deps rounds) w = (u, w')" and "i < length (wp_workers p)" and "wp_workers p ! i = Waiting"
  shows "\<exists>p'. (service_step deps sv)\<^sup>*\<^sup>* (p, w) (p', w') \<and>
    (p' = p \<or> p' = worker_exit i (pool_cancel p))"
  using assms(1)
proof (induction rounds arbitrary: w)
  case 0
  then show ?case by auto
next
  case (Suc rounds)
  let ?w1 = "w\<lparr>w_step := Suc (w_step w)\<rparr>"
  have tick: "service_step deps sv (p, w) (p, ?w1)" by (rule service_step.passes)
  consider (ended) "root_done_at e (w_step w)" | (idle) "\<not> root_done_at e (w_step w)" "w_jobs w = []"
    | (job) did rest where "\<not> root_done_at e (w_step w)" "w_jobs w = did # rest"
    by (cases "w_jobs w") auto
  then show ?case
  proof cases
    case ended
    have "service_step deps sv (p, ?w1) (pool_cancel p, ?w1)" by (rule service_step.closes)
    moreover have "service_step deps sv (pool_cancel p, ?w1) (worker_exit i (pool_cancel p), ?w1)"
      using assms(2,3) by (intro service_step.works worker_step.return_) (simp_all add: pool_cancel_def)
    moreover have "w' = ?w1" using Suc.prems ended by simp
    ultimately show ?thesis
      using tick by (intro exI [of _ "worker_exit i (pool_cancel p)"]) (auto intro: converse_rtranclp_into_rtranclp)
  next
    case idle
    then have "run_state (worker_loop e deps rounds) ?w1 = (u, w')" using Suc.prems by simp
    from Suc.IH [OF this] show ?thesis using tick by (blast intro: converse_rtranclp_into_rtranclp)
  next
    case (job did rest)
    let ?w2 = "enter_run did (?w1\<lparr>w_jobs := rest\<rparr>)"
    let ?w3 = "snd (run_state (run_body e deps did) ?w2)"
    let ?p1 = "set_worker i (Started did) p" and ?p2 = "set_worker i (Ran did) (set_worker i (Started did) p)"
    have "service_step deps sv (p, ?w1) (?p1, ?w2)"
      using assms(2,3) job by (intro service_step.works worker_step.take_job) simp_all
    moreover have "service_step deps sv (?p1, ?w2) (?p2, ?w3)"
      using assms(2) by (intro service_step.works worker_step.do_run [where u = "()" and e = e]) (simp_all add: set_worker_def prod_eq_iff)
    moreover have "service_step deps sv (?p2, ?w3) (set_worker i Waiting ?p2, leave_run did ?w3)"
      using assms(2) by (intro service_step.works worker_step.end_run) (simp_all add: set_worker_def)
    moreover have "set_worker i Waiting ?p2 = p"
      using assms(2,3) by (simp add: set_worker_def list_update_id [of "wp_workers p" i, unfolded assms(3)])
    moreover have "run_state (worker_loop e deps rounds) (leave_run did ?w3) = (u, w')"
      using Suc.prems job worker_run_parts [of e deps did "?w1\<lparr>w_jobs := rest\<rparr>"] by simp
    then obtain p' where "(service_step deps sv)\<^sup>*\<^sup>* (p, leave_run did ?w3) (p', w')"
      "p' = p \<or> p' = worker_exit i (pool_cancel p)"
      using Suc.IH by blast
    ultimately show ?thesis using tick by (metis converse_rtranclp_into_rtranclp)
  qed
qed

end
