(* ===== verification/Service_Properties.thy ===== *)
theory Service_Properties
  imports Service
begin

text \<open>
  What holds in every state the service reaches from its start, that the goroutines of the pool carry out
  the loop of the worker, that a closed pool drains, and the end of \<open>run\<close> in \<open>cmd/server/main.go\<close>.
\<close>

section \<open>From the configuration to every reachable state\<close>

text \<open>A process that has just started: nothing queued, nothing running, an empty hub.\<close>

definition fresh_process :: "world \<Rightarrow> bool" where
  "fresh_process w = (w_jobs w = [] \<and> w_running w = [] \<and> w_hub w = NewEventHub \<and> \<not> w_crashed w)"

lemma fresh_pool: "fresh_process w \<Longrightarrow> pool_inv (nat c) (NewWorkerPool c, w)"
  by (rule pool_inv_init) (simp_all add: fresh_process_def hub_inv_def NewEventHub_def all_subs_def)

lemma reachable_pool:
  assumes "fresh_process w0" and "(service_step deps srv)\<^sup>*\<^sup>* (NewWorkerPool c, w0) (p, w)"
  shows "pool_inv (nat c) (p, w)"
  using assms(2) fresh_pool [OF assms(1)] by (rule service_inv)

text \<open>
  C7. The service is sound from its configuration on. When \<open>LoadConfig\<close> accepts the environment and the
  parts come up, then in every state the running service reaches - whatever requests are served,
  whatever the workers run, whatever calls fail, and also while it shuts down - the process has not
  panicked and the hub is sound, at most 100 drills are queued, the drills in the running set are in
  the hands of different workers and at most as many as configured, never more than 20, the counter of
  the wait group is the number of workers that have not returned, no worker has returned while the
  pool is open, and the database has evolved along the life cycle of drills only.
\<close>

theorem service_sound:
  assumes "LoadConfig toLower getenv = Inr cfg"
    and "fst (run_state (start_service e cwd minio migrate master_key cfg) w) = Some (Inr sv)"
    and "fresh_process w0"
    and "(service_step (sv_deps sv) srv)\<^sup>*\<^sup>* (NewWorkerPool (sv_concurrency sv), w0) (p, w')"
  shows "\<not> w_crashed w' \<and> hub_inv (w_hub w') \<and> length (w_jobs w') \<le> 100 \<and>
    distinct (w_running w') \<and> set (w_running w') \<subseteq> set (busy p) \<and>
    length (wp_workers p) = nat (cf_MaxConcurrentDrills cfg) \<and>
    length (w_running w') \<le> length (wp_workers p) \<and> length (wp_workers p) \<le> 20 \<and>
    wp_wg p = int (length (filter (\<lambda>g. g \<noteq> Exited) (wp_workers p))) \<and>
    (Exited \<in> set (wp_workers p) \<longrightarrow> wp_closed p) \<and>
    tables_evolve (w_db w0) (w_db w')"
proof -
  have ready: "service_ready cfg sv" using assms(2) by (rule start_service_ready)
  have inv: "pool_inv (nat (cf_MaxConcurrentDrills cfg)) (p, w')"
    using reachable_pool [OF assms(3,4)] ready by (simp add: service_ready_def)
  have "cf_MaxConcurrentDrills cfg \<le> 20" using LoadConfig_accepts [OF assms(1)] by simp
  moreover have "tables_evolve (w_db w0) (w_db w')"
    using service_evolves [OF assms(4)] ready by (simp add: service_ready_def)
  ultimately show ?thesis
    using inv running_at_most [OF inv] by (simp add: pool_inv_def Let_def)
qed

text \<open>
  The goroutines carry out the loop: whatever \<open>worker_loop\<close> - the translation of \<open>worker\<close> with \<open>run\<close> -
  does to the world in any number of rounds, a goroutine of the step relation that waits in its
  \<open>select\<close> can do by its steps, and it ends waiting again or, when the root context was done, returned.
\<close>

lemma worker_loop_refines:
  assumes "run_state (worker_loop e deps rounds) w = (u, w')"
    and "i < length (wp_workers p)" and "wp_workers p ! i = Waiting"
  shows "\<exists>p'. (service_step deps srv)\<^sup>*\<^sup>* (p, w) (p', w') \<and>
    (p' = p \<or> wp_workers p' = (wp_workers p)[i := Exited] \<and> wp_wg p' = wp_wg p - 1 \<and> wp_closed p')"
  using worker_loop_steps [OF assms, of srv]
  by (auto simp: worker_exit_def pool_cancel_def set_worker_def)

text \<open>
  C39. A cancellation is final. When \<open>CancelDrill\<close> answers without an error, the identifier named a drill of
  the caller's organization that had not ended, and in every state the service reaches afterwards - whatever
  requests are served and whatever a worker that has the drill in hand still does, its failures included -
  that row is the drill as it was, with the status \<open>CANCELLED\<close>, the time of the statement and the summary
  of the cancellation.
\<close>

theorem cancellation_is_final:
  assumes "wd_Executor deps \<noteq> None" and "wd_Objects deps \<noteq> None" and "keys_unique (w_db w)"
    and "run_state (CancelDrill e org id') w = (None, w1)" and "(service_step deps srv)\<^sup>*\<^sup>* (p, w1) (p', w')"
  shows "\<exists>did d. pg_uuid e id' = Some did \<and> d \<in> set (recovery_drills (db_seen e w)) \<and> dr_id d = did \<and>
    dr_organization_id d = org \<and> dr_status d \<notin> {DrillSucceeded, DrillFailed, DrillCancelled, DrillInconclusive} \<and>
    drill_by_id (w_db w') did =
      Some (d\<lparr>dr_status := DrillCancelled, dr_completed_at := Some (clock_at e (w_step w)),
              dr_updated_at := clock_at e (w_step w), dr_summary := ''Cancelled by an authorized user''\<rparr>)"
proof -
  obtain did d where d: "pg_uuid e id' = Some did" "d \<in> set (recovery_drills (db_seen e w))" "dr_id d = did"
      "dr_organization_id d = org" "\<not> terminal (dr_status d)"
      "drill_by_id (w_db w1) did = Some (d\<lparr>dr_status := DrillCancelled, dr_completed_at := Some (clock_at e (w_step w)),
         dr_updated_at := clock_at e (w_step w), dr_summary := ''Cancelled by an authorized user''\<rparr>)"
    using CancelDrill_row [OF assms(3,4)] by blast
  have "tables_evolve (w_db w1) (w_db w')"
    using service_evolves [OF assms(5,1,2)] by simp
  with d(6) have "drill_by_id (w_db w') did = drill_by_id (w_db w1) did"
    by (fastforce simp: tables_evolve_def row_evolves_def terminal_def)
  with d show ?thesis by (auto simp: terminal_def)
qed

text \<open>
  C10. A closed pool drains. In a reachable state in which the root context is cancelled, the workers can
  take at most 4 steps for each queued drill and 3 for each worker, and whenever they can take no more
  steps they have all returned: no drill is running, the counter is 0, and a \<open>Close\<close> whose context is not
  done returns without an error. And \<open>Close\<close> with such a context returns only then.
\<close>

theorem pool_drains:
  assumes "fresh_process w0"
    and "(service_step deps srv)\<^sup>*\<^sup>* (NewWorkerPool c, w0) (p, w)" and "wp_closed p"
  shows "(\<forall>k s. (worker_step deps ^^ k) (p, w) s \<longrightarrow> k \<le> 4 * length (w_jobs w) + 3 * nat c) \<and>
    (\<forall>p' w'. (worker_step deps)\<^sup>*\<^sup>* (p, w) (p', w') \<longrightarrow>
       (\<forall>s. \<not> worker_step deps (p', w') s) \<or> (\<exists>r. close_returns p' None r) \<longrightarrow>
       (\<forall>g \<in> set (wp_workers p'). g = Exited) \<and> w_running w' = [] \<and> close_returns p' None None)"
proof (intro conjI allI impI)
  have inv: "pool_inv (nat c) (p, w)" by (rule reachable_pool [OF assms(1,2)])
  fix k s
  assume "(worker_step deps ^^ k) (p, w) s"
  then show "k \<le> 4 * length (w_jobs w) + 3 * nat c"
    using worker_steps_bounded [of k deps "(p, w)" s] pool_weight_le [of p w] inv by (simp add: pool_inv_def Let_def)
next
  fix p' w'
  assume steps: "(worker_step deps)\<^sup>*\<^sup>* (p, w) (p', w')"
    and stop: "(\<forall>s. \<not> worker_step deps (p', w') s) \<or> (\<exists>r. close_returns p' None r)"
  have "(service_step deps srv)\<^sup>*\<^sup>* (p, w) (p', w')"
    using steps by (rule rtranclp_mono [THEN predicate2D, rotated]) (auto intro: service_step.works)
  then have inv: "pool_inv (nat c) (p', w')"
    using reachable_pool [OF assms(1), of deps srv c] assms(2) by (meson rtranclp_trans)
  have shut: "wp_closed p'" using worker_steps_closed [OF steps] assms(3) by simp
  have all: "\<forall>g \<in> set (wp_workers p'). g = Exited"
    using stop
  proof
    assume stuck: "\<forall>s. \<not> worker_step deps (p', w') s"
    show ?thesis using worker_progress [OF shut, of _ deps w'] stuck by (metis in_set_conv_nth)
  qed (use counter_zero [OF inv] in \<open>auto simp: close_returns_def\<close>)
  then show "\<forall>g \<in> set (wp_workers p'). g = Exited" "w_running w' = []" "close_returns p' None None"
    using drained [OF inv all] by (auto simp: close_returns_def)
qed

section \<open>Witnesses\<close>

definition example_getenv :: getenv where
  "example_getenv k =
     (if k = ''RESTOREGUARD_DATABASE_URL'' then ''postgres://db''
      else if k = ''RESTOREGUARD_SESSION_SECRET'' then replicate 32 (CHR ''x'') else [])"

definition no_minio :: "string \<Rightarrow> string \<Rightarrow> string \<Rightarrow> bool \<Rightarrow> minio_client result" where
  "no_minio a b c t = Inl (Errorf ''no S3'')"

lemma idle_fresh: "fresh_process idle"
  by (simp add: fresh_process_def)

lemma example_loads:
  obtains cfg where "LoadConfig (\<lambda>s. s) example_getenv = Inr cfg"
    "cf_MaxConcurrentDrills cfg = 2" "cf_ObjectStorageType cfg = ''local''" "cf_MaxArtifactBytes cfg = 2 ^ 30"
    "cf_MasterKey cfg = []" "cf_BootstrapEmail cfg = []"
proof -
  note defs = LoadConfig_def Let_def env_or_def boolEnv_def intEnv_def int64Env_def
    example_getenv_def ParseDuration_30m ParseInt_def TrimSpace_def trim_left.simps trim_right.simps
  have "\<exists>cfg. LoadConfig (\<lambda>s. s) example_getenv = Inr cfg"
    by (simp add: defs)
  then obtain cfg where load: "LoadConfig (\<lambda>s. s) example_getenv = Inr cfg" ..
  then have "cf_MaxConcurrentDrills cfg = 2 \<and> cf_ObjectStorageType cfg = ''local'' \<and> cf_MaxArtifactBytes cfg = 2 ^ 30 \<and>
      cf_MasterKey cfg = [] \<and> cf_BootstrapEmail cfg = []"
    by (auto simp: defs)
  with load show ?thesis using that by blast
qed

lemma example_starts:
  assumes "cf_ObjectStorageType cfg = ''local''" "cf_MaxArtifactBytes cfg = 2 ^ 30" "cf_MasterKey cfg = []" "cf_BootstrapEmail cfg = []"
  shows "\<exists>objects. fst (run_state (start_service calm ''/'' no_minio (State_Monad.return None) (\<lambda>_. None) cfg) idle) =
    Some (Inr (service_of cfg objects))"
  using assms
  by (simp add: start_service_def open_storage_def BootstrapDemo_def NewLocal_def obj_Health_def local_Health_def
      call_def os_CreateTemp_def os_Remove_def fate_err_def Let_def) blast

theorem service_sound_witness:
  "\<exists>cfg sv. LoadConfig (\<lambda>s. s) example_getenv = Inr cfg \<and>
     fst (run_state (start_service calm ''/'' no_minio (State_Monad.return None) (\<lambda>_. None) cfg) idle) = Some (Inr sv) \<and>
     (service_step (sv_deps sv) example_server)\<^sup>*\<^sup>*
       (NewWorkerPool (sv_concurrency sv), idle) (pool_cancel (NewWorkerPool (sv_concurrency sv)), idle) \<and>
     wp_wg (pool_cancel (NewWorkerPool (sv_concurrency sv))) = 2"
proof -
  obtain cfg where cfg: "LoadConfig (\<lambda>s. s) example_getenv = Inr cfg"
    "cf_MaxConcurrentDrills cfg = 2" "cf_ObjectStorageType cfg = ''local''" "cf_MaxArtifactBytes cfg = 2 ^ 30"
    "cf_MasterKey cfg = []" "cf_BootstrapEmail cfg = []"
    by (rule example_loads)
  obtain objects where started: "fst (run_state (start_service calm ''/'' no_minio (State_Monad.return None) (\<lambda>_. None) cfg) idle) =
      Some (Inr (service_of cfg objects))"
    using example_starts [OF cfg(3-6)] by blast
  let ?p = "NewWorkerPool (sv_concurrency (service_of cfg objects))"
  have steps: "(service_step (sv_deps (service_of cfg objects)) example_server)\<^sup>*\<^sup>* (?p, idle) (pool_cancel ?p, idle)"
    by (intro r_into_rtranclp service_step.closes)
  have "filter (\<lambda>g. g \<noteq> Exited) (wp_workers (pool_cancel ?p)) = wp_workers ?p"
    by (simp add: NewWorkerPool_def pool_cancel_def)
  then have "wp_wg (pool_cancel ?p) = 2"
    using service_sound [OF cfg(1) started idle_fresh steps] cfg(2) by (simp add: pool_cancel_def)
  then show ?thesis using cfg(1) started steps by blast
qed

theorem cancellation_is_final_witness:
  "\<exists>w'. run_state (CancelDrill calm ''o1'' ''0123456789ab'') (idle\<lparr>w_db := no_rows\<lparr>recovery_drills := [queued_drill]\<rparr>\<rparr>) = (None, w') \<and>
     (service_step example_deps example_server)\<^sup>*\<^sup>* (NewWorkerPool 1, w') (pool_cancel (NewWorkerPool 1), w') \<and>
     drill_by_id (w_db w') ''0123456789ab'' =
       Some (queued_drill\<lparr>dr_status := DrillCancelled, dr_completed_at := Some (clock_at calm 0), dr_updated_at := clock_at calm 0,
                          dr_summary := ''Cancelled by an authorized user''\<rparr>)"
proof -
  let ?w = "idle\<lparr>w_db := no_rows\<lparr>recovery_drills := [queued_drill]\<rparr>\<rparr>"
  obtain w' where run: "run_state (CancelDrill calm ''o1'' ''0123456789ab'') ?w = (None, w')"
    by (simp add: CancelDrill_def exec_by_id_def calm_exec cancel_drill_def rows_affected_def cancel_where_def queued_drill_def)
  have step: "(service_step example_deps example_server)\<^sup>*\<^sup>* (NewWorkerPool 1, w') (pool_cancel (NewWorkerPool 1), w')"
    by (intro r_into_rtranclp service_step.closes)
  have "keys_unique (w_db ?w)" by (simp add: keys_unique_def drill_keys_def)
  moreover have "recovery_drills (db_seen calm ?w) = [queued_drill]" by (simp add: db_seen_def calm_interleave)
  ultimately show ?thesis
    using cancellation_is_final [OF _ _ _ run step] run step by (auto simp: example_deps_def idle_def)
qed

theorem pool_drains_witness:
  "\<exists>p'. (worker_step example_deps)\<^sup>*\<^sup>* (pool_cancel (NewWorkerPool 1), idle) (p', idle) \<and>
     wp_workers p' = [Exited] \<and> close_returns p' None None"
proof -
  let ?p = "pool_cancel (NewWorkerPool 1)"
  let ?q = "worker_exit 0 ?p"
  have step: "(worker_step example_deps)\<^sup>*\<^sup>* (?p, idle) (?q, idle)"
    by (intro r_into_rtranclp worker_step.return_) (simp_all add: NewWorkerPool_def pool_cancel_def)
  have reach: "(service_step example_deps example_server)\<^sup>*\<^sup>* (NewWorkerPool 1, idle) (?p, idle)"
    by (intro r_into_rtranclp service_step.closes)
  have workers: "wp_workers ?q = [Exited]" "wp_closed ?p"
    by (simp_all add: NewWorkerPool_def pool_cancel_def worker_exit_def set_worker_def)
  then have "\<forall>s. \<not> worker_step example_deps (?q, idle) s"
    by (auto elim!: worker_stepE)
  then have "close_returns ?q None None"
    using pool_drains [OF idle_fresh reach workers(2)] step by blast
  with step workers(1) show ?thesis by blast
qed

end
