(* ===== verification/Shutdown.thy ===== *)
theory Shutdown
  imports Service_Properties
begin

text \<open>
  The end of \<open>run\<close> in \<open>cmd/server/main.go\<close>: a signal or an error of the listener, the shutdown of the HTTP
  server, \<open>Close\<close> of the worker pool, and the deferred \<open>Close\<close> of the hub. The scheduler's context and the
  database pool, which are released on the same ways out, are not part of the state.
\<close>

datatype stopped = Signalled | Listener_Failed go_error

text \<open>The error with which \<open>run\<close> returns at once: an error of the listener other than
  \<open>http.ErrServerClosed\<close>.\<close>

definition listener_error :: "(go_error \<Rightarrow> bool) \<Rightarrow> stopped \<Rightarrow> go_error option" where
  "listener_error is_server_closed why =
     (case why of Signalled \<Rightarrow> None | Listener_Failed er \<Rightarrow> if \<not> is_server_closed er then Some er else None)"

definition close_hub :: "pool \<times> world \<Rightarrow> pool \<times> world" where
  "close_hub s = (fst s, snd (run_state (hub_upd hub_Close) (snd s)))"

text \<open>
  Until \<open>server.Shutdown\<close> returns, requests are finished and the workers go on; afterwards no request
  is served. \<open>r\<close> is the error of \<open>Shutdown\<close> or of \<open>workers.Close\<close>, whose context has a deadline.
\<close>

inductive run_ends ::
    "WorkerDependencies \<Rightarrow> Server \<Rightarrow> (go_error \<Rightarrow> bool) \<Rightarrow> stopped \<Rightarrow> pool \<times> world \<Rightarrow> go_error option \<Rightarrow> pool \<times> world \<Rightarrow> bool"
  for deps srv is_server_closed why where
  listener: "listener_error is_server_closed why = Some er \<Longrightarrow>
    run_ends deps srv is_server_closed why s (Some er) (close_hub s)"
| http_shutdown_failed: "listener_error is_server_closed why = None \<Longrightarrow> (service_step deps srv)\<^sup>*\<^sup>* s s1 \<Longrightarrow>
    run_ends deps srv is_server_closed why s (Some er) (close_hub s1)"
| pool_closed: "listener_error is_server_closed why = None \<Longrightarrow> (service_step deps srv)\<^sup>*\<^sup>* s (p1, w1) \<Longrightarrow>
    (worker_step deps)\<^sup>*\<^sup>* (pool_cancel p1, w1) (p2, w2) \<Longrightarrow> close_returns p2 deadline r \<Longrightarrow>
    run_ends deps srv is_server_closed why s r (close_hub (p2, w2))"

inductive_cases run_endsE: "run_ends deps srv is_server_closed why s r s'"

lemma close_hub_state:
  assumes "pool_inv n s"
  shows "pool_inv n (close_hub s) \<and> fst (close_hub s) = fst s \<and> subscribers (w_hub (snd (close_hub s))) = [] \<and>
    w_db (snd (close_hub s)) = w_db (snd s) \<and> w_running (snd (close_hub s)) = w_running (snd s)"
proof -
  obtain p w where s: "s = (p, w)" by (cases s)
  have "hub_inv (w_hub w)" using assms s by (simp add: pool_inv_def Let_def)
  then obtain h where h: "hub_Close (w_hub w) = Some h" "hub_inv h" using hub_Close_inv by blast
  then have "close_hub s = (p, w\<lparr>w_hub := h\<rparr>)" by (simp add: close_hub_def s hub_upd_def)
  moreover have "subscribers h = []" using h(1) by (auto simp: hub_Close_def)
  ultimately show ?thesis using assms s h(2) by (simp add: pool_inv_def Let_def)
qed

lemma worker_steps_service: "(worker_step deps)\<^sup>*\<^sup>* s s' \<Longrightarrow> (service_step deps srv)\<^sup>*\<^sup>* s s'"
  by (rule rtranclp_mono [THEN predicate2D, rotated]) (auto intro: service_step.works)

text \<open>Every way out goes through states the service can reach, and closes the hub last.\<close>

lemma run_ends_state:
  assumes "run_ends deps srv is_server_closed why s r s'"
  obtains s1 where "(service_step deps srv)\<^sup>*\<^sup>* s s1" "s' = close_hub s1" "r = None \<longrightarrow> wp_wg (fst s1) = 0"
  using assms
proof (cases rule: run_ends.cases)
  case (pool_closed p1 w1 p2 w2 deadline)
  have "(service_step deps srv)\<^sup>*\<^sup>* s (pool_cancel p1, w1)"
    using pool_closed(3) service_step.closes by (rule rtranclp.rtrancl_into_rtrancl)
  then have "(service_step deps srv)\<^sup>*\<^sup>* s (p2, w2)"
    using worker_steps_service [OF pool_closed(4)] by (rule rtranclp_trans)
  then show ?thesis using that [of "(p2, w2)"] pool_closed by (auto simp: close_returns_def)
next
  case (listener er)
  then show ?thesis using that [of s] by simp
next
  case (http_shutdown_failed s1 er)
  then show ?thesis using that [of s1] by simp
qed

text \<open>
  C40. A clean exit leaves nothing behind: when \<open>run\<close> returns without an error, every worker has returned
  and no drill is in the running set. However it returns, no stream is subscribed any more, the process
  has not panicked while it went down, and the database has evolved along the life cycle of drills only.
\<close>

theorem clean_exit:
  assumes "fresh_process w0" and "wd_Executor deps \<noteq> None" and "wd_Objects deps \<noteq> None"
    and "(service_step deps srv)\<^sup>*\<^sup>* (NewWorkerPool c, w0) s"
    and "run_ends deps srv is_server_closed why s r (p', w')"
  shows "(r = None \<longrightarrow> (\<forall>g \<in> set (wp_workers p'). g = Exited) \<and> w_running w' = []) \<and>
    subscribers (w_hub w') = [] \<and> \<not> w_crashed w' \<and> tables_evolve (w_db w0) (w_db w')"
proof -
  obtain s1 where s1: "(service_step deps srv)\<^sup>*\<^sup>* s s1" "(p', w') = close_hub s1" "r = None \<longrightarrow> wp_wg (fst s1) = 0"
    using assms(5) by (rule run_ends_state)
  have reach: "(service_step deps srv)\<^sup>*\<^sup>* (NewWorkerPool c, w0) s1"
    using assms(4) s1(1) by (rule rtranclp_trans)
  then have inv: "pool_inv (nat c) s1"
    using reachable_pool [OF assms(1), of deps srv c "fst s1" "snd s1"] by simp
  note st = close_hub_state [OF inv, folded s1(2), simplified]
  have "\<forall>g \<in> set (wp_workers p'). g = Exited" "w_running w' = []" if "r = None"
  proof -
    have "pool_inv (nat c) (p', w')" using st by blast
    moreover have "wp_wg p' = 0" using st s1(3) that by simp
    ultimately show "\<forall>g \<in> set (wp_workers p'). g = Exited" by (rule counter_zero)
    then show "w_running w' = []" using drained \<open>pool_inv (nat c) (p', w')\<close> by blast
  qed
  moreover have "tables_evolve (w_db w0) (w_db w')"
    using service_evolves [OF reach assms(2,3)] st by simp
  ultimately show ?thesis using st by (simp add: pool_inv_def Let_def)
qed

text \<open>One worker, a signal, and no drill: the pool closes and \<open>run\<close> returns without an error.\<close>

theorem clean_exit_witness:
  "\<exists>s. run_ends example_deps example_server (\<lambda>_. False) Signalled (NewWorkerPool 1, idle) None s \<and>
     wp_workers (fst s) = [Exited] \<and> subscribers (w_hub (snd s)) = []"
proof -
  let ?p = "pool_cancel (NewWorkerPool 1)"
  let ?q = "worker_exit 0 ?p"
  have step: "(worker_step example_deps)\<^sup>*\<^sup>* (?p, idle) (?q, idle)"
    by (intro r_into_rtranclp worker_step.return_) (simp_all add: NewWorkerPool_def pool_cancel_def)
  have "close_returns ?q None None"
    by (simp add: close_returns_def worker_exit_def set_worker_def pool_cancel_def NewWorkerPool_def)
  then have ends: "run_ends example_deps example_server (\<lambda>_. False) Signalled (NewWorkerPool 1, idle) None (close_hub (?q, idle))"
    using step by (intro run_ends.pool_closed [where ?p1.0 = "NewWorkerPool 1" and ?w1.0 = idle]) (simp_all add: listener_error_def)
  have "fst (close_hub (?q, idle)) = ?q" by (simp add: close_hub_def)
  then have "close_hub (?q, idle) = (?q, snd (close_hub (?q, idle)))" by (simp add: prod_eq_iff)
  with ends have "run_ends example_deps example_server (\<lambda>_. False) Signalled (NewWorkerPool 1, idle) None
      (?q, snd (close_hub (?q, idle)))" by simp
  from clean_exit [OF idle_fresh example_configured rtranclp.rtrancl_refl this]
  have "subscribers (w_hub (snd (close_hub (?q, idle)))) = []" by simp
  with ends show ?thesis
    by (intro exI [of _ "close_hub (?q, idle)"])
      (simp add: close_hub_def worker_exit_def set_worker_def pool_cancel_def NewWorkerPool_def)
qed

text \<open>A failed shutdown of the HTTP server, such as one that waits for an open event stream until the
  deadline, skips \<open>Close\<close> of the pool: \<open>run\<close> returns while a drill is still in the hands of a worker.\<close>

lemma failed_shutdown_skips_pool:
  assumes "w_jobs w = did # rest"
  shows "\<exists>p' w'. run_ends deps srv is_server_closed Signalled (NewWorkerPool 1, w) (Some er) (p', w') \<and>
    wp_workers p' = [Started did] \<and> \<not> wp_closed p'"
proof -
  let ?p = "set_worker 0 (Started did) (NewWorkerPool 1)"
  have "(service_step deps srv)\<^sup>*\<^sup>* (NewWorkerPool 1, w) (?p, enter_run did (w\<lparr>w_jobs := rest\<rparr>))"
    using assms by (intro r_into_rtranclp service_step.works worker_step.take_job) (simp_all add: NewWorkerPool_def)
  from run_ends.http_shutdown_failed [OF _ this, of is_server_closed Signalled er]
  show ?thesis
    by (auto simp: listener_error_def close_hub_def set_worker_def NewWorkerPool_def)
qed

end
