(* ===== verification/Drill_Types.thy ===== *)
theory Drill_Types
  imports Drill_Stages Resource_Properties
begin

text \<open>
  The type of the drill table: which columns are filled in which status, and the keys. Every statement of
  the workers and of the requests keeps it.
\<close>

section \<open>Well-typed rows\<close>

text \<open>The assessment and the confidence a status allows.\<close>

fun assessed :: "DrillStatus \<Rightarrow> (Assessment option \<times> Confidence option) set" where
  "assessed DrillSucceeded = {(Some Verified, Some ConfidenceHigh), (Some PartiallyVerified, Some ConfidenceMedium)}"
| "assessed DrillFailed = {(Some AssessmentFailed, Some ConfidenceLow)}"
| "assessed DrillInconclusive = {(Some AssessmentUnknown, Some ConfidenceLow)}"
| "assessed DrillCancelled = {(None, None), (Some AssessmentUnknown, Some ConfidenceLow)}"
| "assessed _ = {(None, None)}"

definition row_typed :: "drill_row \<Rightarrow> bool" where
  "row_typed d =
     ((terminal (dr_status d) \<longleftrightarrow> dr_completed_at d \<noteq> None) \<and>
      (dr_recovery_status d, dr_confidence d) \<in> assessed (dr_status d) \<and>
      (dr_status d = DrillSucceeded \<longleftrightarrow> dr_measured_rpo_seconds d \<noteq> None) \<and>
      (dr_status d = DrillSucceeded \<longleftrightarrow> dr_measured_rto_seconds d \<noteq> None) \<and>
      (dr_status d = DrillSucceeded \<longleftrightarrow> dr_rpo_result d \<noteq> None) \<and>
      (dr_status d = DrillSucceeded \<longleftrightarrow> dr_rto_result d \<noteq> None))"

definition drills_typed :: "tables \<Rightarrow> bool" where
  "drills_typed t = (keys_unique t \<and> list_all row_typed (recovery_drills t))"

lemma typed_same:
  "drills_typed t \<Longrightarrow> recovery_drills t' = recovery_drills t \<Longrightarrow> drills_typed t'"
  by (simp add: drills_typed_def keys_unique_def drill_keys_def)

lemma typed_update:
  assumes "drills_typed t" and "recovery_drills t' = update_where p f (recovery_drills t)"
    and "drill_keys t' = drill_keys t"
    and "\<And>d. d \<in> set (recovery_drills t) \<Longrightarrow> p d \<Longrightarrow> row_typed d \<Longrightarrow> row_typed (f d)"
  shows "drills_typed t'"
  using assms by (auto simp: drills_typed_def keys_unique_def list_all_iff update_where_def)

text \<open>Identifiers are unique, so the row of a drill is the one its status is read from.\<close>

lemma find_key: "distinct (map f xs) \<Longrightarrow> x \<in> set xs \<Longrightarrow> find (\<lambda>y. f y = f x) xs = Some x"
  by (induction xs) (auto simp: image_iff)

lemma typed_row:
  assumes "drills_typed t" and "d \<in> set (recovery_drills t)"
  shows "drill_by_id t (dr_id d) = Some d"
proof -
  have "distinct (map dr_id (recovery_drills t))"
    using assms(1) by (simp add: drills_typed_def keys_unique_iff)
  then show ?thesis
    using find_key [OF _ assms(2), of dr_id] by (simp add: drill_by_id_def row_with_def)
qed

lemma terminal_cases:
  "status \<in> {DrillFailed, DrillCancelled, DrillInconclusive} \<Longrightarrow> terminal status \<and> status \<noteq> DrillSucceeded \<and>
     (Some (if status = DrillFailed then AssessmentFailed else AssessmentUnknown), Some ConfidenceLow) \<in> assessed status"
  by (auto simp: terminal_def)

lemma not_terminal_assessed: "\<not> terminal s \<Longrightarrow> assessed s = {(None, None)} \<and> s \<noteq> DrillSucceeded"
  by (cases s) (auto simp: terminal_def)

lemma typed_insert:
  assumes "drills_typed t"
  shows "drills_typed (fst (insert_drill org a s p u k i now t))"
  unfolding drills_typed_def
proof
  show "keys_unique (fst (insert_drill org a s p u k i now t))"
    using assms by (simp add: drills_typed_def insert_drill_keys)
  show "list_all row_typed (recovery_drills (fst (insert_drill org a s p u k i now t)))"
    using assms by (simp add: drills_typed_def insert_drill_def Let_def row_typed_def terminal_def)
qed

lemma typed_cancel:
  assumes "drills_typed t"
  shows "drills_typed (fst (cancel_drill org did now t))"
proof (rule typed_update [OF assms, where p = "cancel_where org did"])
  fix d
  assume "cancel_where org did d" "row_typed d"
  then have "\<not> terminal (dr_status d)" by (auto simp: cancel_where_def terminal_def)
  then show "row_typed (d\<lparr>dr_status := DrillCancelled, dr_completed_at := Some now, dr_updated_at := now,
      dr_summary := ''Cancelled by an authorized user''\<rparr>)"
    using \<open>row_typed d\<close> not_terminal_assessed by (auto simp: row_typed_def terminal_def)
qed (simp add: cancel_drill_def, simp)

lemma typed_ends:
  assumes "drills_typed t" and "status \<in> {DrillFailed, DrillCancelled, DrillInconclusive}"
  shows "drills_typed (fst (set_terminal did status su now t))"
proof (rule typed_update [OF assms(1), where p = "terminal_where did"])
  fix d
  assume "terminal_where did d" "row_typed d"
  then have "dr_status d \<noteq> DrillSucceeded" by (simp add: terminal_where_def)
  then show "row_typed (d\<lparr>dr_status := status, dr_completed_at := Some now, dr_updated_at := now,
      dr_recovery_status := Some (if status = DrillFailed then AssessmentFailed else AssessmentUnknown),
      dr_confidence := Some ConfidenceLow, dr_summary := su\<rparr>)"
    using \<open>row_typed d\<close> terminal_cases [OF assms(2)] by (auto simp: row_typed_def)
qed (simp add: set_terminal_def, simp)

lemma typed_moves:
  assumes "drills_typed t" and "drill_status t did = Some s" and "CanTransition s to" and "\<not> terminal to"
  shows "drills_typed (transition_writes did to ty n now t)"
proof -
  have "drills_typed (update_status did to x now t)" for x
  proof (rule typed_update [OF assms(1), where p = "\<lambda>d. dr_id d = did"])
    fix d
    assume d: "d \<in> set (recovery_drills t)" "dr_id d = did" "row_typed d"
    then have "dr_status d = s" using typed_row [OF assms(1) d(1)] assms(2) by (simp add: drill_status_def)
    then have "\<not> terminal (dr_status d)" using assms(3) terminal_no_successor by blast
    then show "row_typed (d\<lparr>dr_status := to, dr_started_at := (case dr_started_at d of None \<Rightarrow> x | Some x \<Rightarrow> Some x),
        dr_updated_at := now\<rparr>)"
      using d(3) not_terminal_assessed [of "dr_status d"] not_terminal_assessed [OF assms(4)] assms(4)
      by (auto simp: row_typed_def)
  qed (simp add: update_status_def, simp)
  then show ?thesis
    unfolding transition_writes_def by (rule typed_same) simp
qed

lemma typed_transition_tx:
  assumes "drills_typed t" and "\<not> terminal to"
  shows "drills_typed (fst (transition_tx did to ty n now t))"
proof (cases "drill_by_id t did")
  case (Some d)
  then show ?thesis
    using typed_moves [OF assms(1), of did "dr_status d" to ty n now] assms
    by (simp add: transition_tx_def transition_writes_def drill_status_def Transition_def)
qed (simp add: transition_tx_def assms(1))

lemma drill_outcome_assessed:
  "(Some (oc_assessment (drill_outcome job ready)), Some (oc_confidence (drill_outcome job ready))) \<in> assessed DrillSucceeded"
  by (simp add: drill_outcome_def drill_assessment_def Let_def split: prod.split)

lemma typed_final:
  assumes "drills_typed t"
  shows "drills_typed (final_writes org did art new_id now (drill_outcome job ready) t)"
  by (rule typed_update [OF assms, where p = "finish_where did"], simp add: final_writes_rows finish_drill_def, simp)
    (use drill_outcome_assessed [of job ready] in \<open>simp add: row_typed_def terminal_def\<close>)

lemma typed_other:
  assumes "drills_typed t"
  shows "drills_typed (apply_other now op t)"
  using assms typed_same [OF assms]
  by (auto simp: apply_other_def final_tx_of_def typed_insert typed_cancel typed_transition_tx typed_ends typed_final
      split: other.split sum.split)

interpretation typed: drill_invariant did drills_typed for did
proof unfold_locales
  show "stable (Some did) drills_typed" by (simp add: stable_def typed_other)
qed (simp_all add: typed_ends typed_moves typed_final typed_same)

end
