(* ===== verification/Drill_Service.thy ===== *)
theory Drill_Service
  imports Drill_Types Service
begin

text \<open>
  Drills in the running service: the evidence behind every success, the recorded stages and the types of
  the rows are kept by every request of every principal as well as by the workers, so they hold in every
  state the service reaches.
\<close>

section \<open>Requests\<close>

text \<open>The statements of requests that are not about drills leave everything a drill has alone.\<close>

definition drills_alone :: "tables \<Rightarrow> tables \<Rightarrow> bool" where
  "drills_alone t t' = (same_drills t t' \<and> same_evidence t t' \<and> drill_steps t' = drill_steps t)"

lemma drills_alone_statements [simp]:
  "drills_alone t (fst (insert_session org user th ch ex t))"
  "drills_alone t (revoke_session digest now t)"
  "drills_alone t (revoke_all p ss now (set_password p us hash now t))"
  "drills_alone t (fst (insert_audit e new_id p ev ty rid md ip now t))"
  "drills_alone t (fst (insert_asset org a i now t))"
  "drills_alone t (fst (insert_source org s i now t))"
  "drills_alone t (fst (update_discovery org i now t))"
  "drills_alone t (fst (insert_policy e org po i now t))"
  by (simp_all add: drills_alone_def)
    (auto simp: same_evidence_def insert_session_def revoke_session_def revoke_all_def set_password_def insert_audit_def
      insert_asset_def insert_source_def update_discovery_def insert_policy_def split: option.splits)

lemma alone_kept:
  assumes "drills_alone t t'"
  shows "all_backed t \<Longrightarrow> all_backed t'" and "all_staged t \<Longrightarrow> all_staged t'" and "drills_typed t \<Longrightarrow> drills_typed t'"
proof -
  have same: "same_drills t t'" "recovery_drills t' = recovery_drills t" "same_evidence t t'" "drill_steps t' = drill_steps t"
    using assms by (auto simp: drills_alone_def same_drills_def)
  then have row: "drill_by_id t' did = drill_by_id t did" for did by (simp add: drill_by_id_def)
  show "all_backed t'" if "all_backed t"
    by (rule all_backed_mono [OF that same_drills_evolve [OF same(1)] same(3)])
      (use that same(2) row in \<open>simp_all add: all_backed_ids\<close>)
  show "all_staged t'" if "all_staged t"
    using that row same(4) by (simp add: all_staged_def stages_recorded_def recorded_steps_def)
  show "drills_typed t \<Longrightarrow> drills_typed t'" by (rule typed_same [OF _ same(2)])
qed

lemma staged_drills:
  assumes "all_staged t"
  shows "all_staged (fst (insert_drill org a s p u k i now t))" and "all_staged (fst (cancel_drill org did now t))"
  using staged_other [OF assms, of now "OtherCreate org a s p u k i"] staged_other [OF assms, of now "OtherCancel org did"]
  by (simp_all add: apply_other_def)

interpretation requests_backed: server_invariant e all_backed for e
  by unfold_locales (auto simp: others_keep_def all_backed_other all_backed_drills alone_kept(1) [rotated])

interpretation requests_staged: server_invariant e all_staged for e
  by unfold_locales (auto simp: others_keep_def staged_other staged_drills alone_kept(2) [rotated])

interpretation requests_typed: server_invariant e drills_typed for e
  by unfold_locales (auto simp: others_keep_def typed_other typed_insert typed_cancel alone_kept(3) [rotated])


section \<open>Every reachable state\<close>

lemma service_backed:
  assumes "(service_step deps sv)\<^sup>*\<^sup>* s s'" and "wd_Executor deps \<noteq> None" and "wd_Objects deps \<noteq> None"
  shows "all_backed (w_db (snd s)) \<Longrightarrow> all_backed (w_db (snd s'))"
    and "all_staged (w_db (snd s)) \<Longrightarrow> all_staged (w_db (snd s'))"
    and "drills_typed (w_db (snd s)) \<Longrightarrow> drills_typed (w_db (snd s'))"
  by (rule service_keeps [OF assms(1)];
      simp add: backed.body_keeps staged.body_keeps typed.body_keeps requests_backed.serve_keeps
        requests_staged.serve_keeps requests_typed.serve_keeps assms(2,3))+

text \<open>A run of a worker is three of its steps.\<close>

lemma run_steps:
  "(service_step deps sv)\<^sup>*\<^sup>* (NewWorkerPool 1, w\<lparr>w_jobs := [did]\<rparr>)
     (NewWorkerPool 1, snd (run_state (worker_run e deps did) (w\<lparr>w_jobs := []\<rparr>)))"
proof -
  let ?p = "NewWorkerPool 1" and ?w = "enter_run did (w\<lparr>w_jobs := []\<rparr>)"
  let ?s = "set_worker 0 (Started did) ?p" and ?r = "set_worker 0 (Ran did) (set_worker 0 (Started did) ?p)"
  obtain u w' where run: "run_state (run_body e deps did) ?w = (u, w')" by (metis surj_pair)
  have "worker_step deps (?p, w\<lparr>w_jobs := [did]\<rparr>) (?s, ?w)"
    using worker_step.take_job [of 0 ?p "w\<lparr>w_jobs := [did]\<rparr>" did "[]" deps] by (simp add: NewWorkerPool_def)
  moreover have "worker_step deps (?s, ?w) (?r, w')"
    by (rule worker_step.do_run [OF _ _ run]) (simp_all add: NewWorkerPool_def set_worker_def)
  moreover have "worker_step deps (?r, w') (set_worker 0 Waiting ?r, leave_run did w')"
    by (rule worker_step.end_run) (simp_all add: NewWorkerPool_def set_worker_def)
  moreover have "set_worker 0 Waiting ?r = ?p" by (simp add: NewWorkerPool_def set_worker_def)
  moreover have "snd (run_state (worker_run e deps did) (w\<lparr>w_jobs := []\<rparr>)) = leave_run did w'"
    by (simp add: worker_run_parts run)
  ultimately show ?thesis
    by (metis (no_types) converse_rtranclp_into_rtranclp r_into_rtranclp service_step.works)
qed

end
