(* ===== verification/Spec2Isabelle.thy ===== *)
theory Spec2Isabelle
  imports Drill_Stages Worker_Cleanup Evidence_Store Example_Run Report Bootstrap Resource_Properties Http_Findings
    Backup_Provider Webhook Startup Shutdown Drill_Service
begin

text \<open>
  RestoreGuard runs recovery drills: it takes a backup artifact of a protected asset, restores it in
  an isolated Docker sandbox, checks the result, stores evidence, and decides whether recovery
  objectives are met. This development models its backend (the Go code under \<open>src/backend\<close>) and proves
  what makes its parts and their composition correct. Frontend, deployment files and tests are not
  modelled.

  How the program is modelled. A Go operation is a function of the state: pure code is a HOL function,
  code with effects a program of the state monad over the record \<open>world\<close> (theory \<open>World\<close>): the database as
  tables of rows, the host's files, the object bucket, the Docker commands issued, the queue and the
  running set of the worker pool, the event hub, and whether the process has panicked. An error is a
  value of \<open>go_error\<close>, a result a sum with the error on the left, a panic of a function \<open>None\<close>. A SQL
  statement is a function of the tables with the constraints of \<open>migrations/001_initial.sql\<close> that it can
  meet. What lies outside is the record \<open>env\<close>, which every theorem quantifies over: for the n-th external
  call it says whether the call is performed, refused, or performed with its answer lost, what the clocks,
  random sources, UUIDs and the command runner yield, when contexts are done, in which order a query
  returns rows that its \<open>ORDER BY\<close> does not tell apart (\<open>pg_ties\<close>), and which operations of other requests
  and workers came in between. So a theorem about a run holds for every pattern of failures.

  How far interleaving goes. Operations of other requests and workers come in between any two statements
  that stand by themselves. The password change, whose result depends on it, is interleaved inside its
  transaction too: each update takes effect on the rows found when it was executed and is visible at the
  commit. The other transactions (of the worker, and the bootstrap) apply their writes together at the
  commit; what the worker's read before their commit are rows it has locked or written itself. A query
  without \<open>ORDER BY\<close> returns rows in the order of the table. The operations that come in between touch the
  database and the contexts, not the host's files or the bucket. An \<open>int64\<close> is an \<open>int\<close> with \<open>wrap64\<close> where the code can overflow; a float64
  is exact in \<open>Go_Float\<close>; byte strings are \<open>string\<close>. Instants and durations are nanoseconds. Library
  functions that the code only calls (SHA-256, Argon2id, AES-GCM, the syntax of URLs and addresses, the
  Unicode tables, the MinIO and HTTP clients) are fields of \<open>env\<close> or arguments; what it writes and reads
  with the standard library itself (paths, JSON, instants as text, durations, HMAC) is modelled.

  The parts, in the order of the imports.
  \<^item> \<open>RG_Prelude\<close>: the wrap-around of \<open>int64\<close>, string searches, the Hoare rules of the state monad; the
    collections \<open>keeps_intros\<close> (an invariant is kept), \<open>yields_intros\<close> (every result has a property) and
    \<open>frame_simps\<close>, with which the component proofs are one \<open>intro\<close>. \<open>Go_Float\<close>, \<open>Utf8\<close>, \<open>Text_Formats\<close>,
    \<open>Filepath\<close>, \<open>Go_Json\<close>, \<open>Go_Time\<close>: the pieces of the Go standard library the code depends on, as far
    as it depends on them: rounding of \<open>float64\<close>, runes, integers and hexadecimal text, clean paths, the
    JSON encoder and decoder, the calendar and durations. \<open>Json_Round_Trip\<close> shows that the decoder reads back
    what the encoder wrote.
  \<^item> \<open>Domain\<close> (\<open>domain/model.go\<close>, \<open>recovery.go\<close>): the life cycle, the measurement of RPO and RTO, the
    decision on a policy, the assessment. It is finite, every path to success takes every stage, and
    the decisions are characterised; the life cycle is the order of the type \<open>DrillStatus\<close>.
  \<^item> \<open>Tables\<close>, \<open>Statements\<close>: rows, tables, the statements on drills, and \<open>tables_evolve\<close>, the relation
    "drills only move along the life cycle" that every statement satisfies. \<open>other\<close> are the operations
    that other requests and workers can interleave.
  \<^item> \<open>Event_Hub\<close> (\<open>drill/hub.go\<close>): channels in an explicit store, so that closing a closed channel or
    sending on one is a panic; its step relation never panics.
  \<^item> \<open>Object_Storage\<close> (\<open>storage/\<close>): the local and the S3 adapter; the interface \<open>ObjectStorage\<close> is the
    locale \<open>object_store\<close>, interpreted on both adapters and on the dispatch between them. The S3 adapter is
    modelled over a client given as an argument; \<open>memory_minio\<close> is a client that meets its contract. The round
    trip is a property of the local adapter; for the S3 adapter it is what the contract of the client says.
  \<^item> \<open>Sandbox\<close> (\<open>drill/docker.go\<close>, \<open>executor.go\<close>): every Docker command in order, with its answer. The
    properties spell the commands out word by word and count what a list of commands creates and does not
    remove (\<open>left_over\<close>); locale \<open>sandbox_executor\<close>.
  \<^item> \<open>Worker\<close> (\<open>drill/worker.go\<close>): \<open>run\<close> split at its deferred calls into \<open>configured_run\<close>, \<open>stage_phase\<close>,
    \<open>sandbox_phase\<close>, \<open>restore_phase\<close>, \<open>validate_phase\<close>, \<open>collect_evidence\<close>, \<open>final_tx\<close> and \<open>finalize\<close>.
    \<open>Drill_Invariant\<close> proves once, in a locale, that an invariant of the tables survives \<open>run\<close> if it
    survives each of its statements; its interpretations are the life cycle, the evidence behind a
    success, and (in \<open>Drill_Stages\<close>) the recorded steps. \<open>Worker_Cleanup\<close> does the same for the process:
    Docker commands, hub, running set. \<open>Evidence_Document\<close>: the stored evidence reads back, and how long it
    can be. \<open>Evidence_Store\<close>: what a run leaves in the object storage agrees with what it records. \<open>Example_Run\<close>
    executes a whole successful drill, and one whose commit loses its answer.
  \<^item> \<open>Report\<close> (\<open>report/pdf.go\<close>): the bytes of the PDF; its cross-reference table and its text strings.
  \<^item> \<open>Security\<close> (\<open>security/\<close>): roles, passwords, secrets.
  \<^item> \<open>Accounts\<close>, \<open>Account_Rules\<close>, \<open>Account_Properties\<close>, \<open>Bootstrap\<close> (\<open>database/store.go\<close>): login, sessions,
    password change, audit and the demo bootstrap; locale \<open>account_invariant\<close>.
  \<^item> \<open>Resources\<close>, \<open>Resource_Properties\<close> (\<open>database/resources.go\<close>): assets, sources, policies and drills
    of an organization, listed in pages, created and cancelled. Pages partition a list whose rows were created
    at different moments; rows of the same moment may repeat or be missing (\<open>ties_repeat_row\<close>).
  \<^item> \<open>Http_Requests\<close>, \<open>Http_Handlers\<close>, \<open>Http_Server\<close> (\<open>httpapi/\<close>): decoding and replies, every handler,
    routes and middleware. \<open>Http_Rules\<close> states, as the locales \<open>request_invariant\<close> and
    \<open>server_invariant\<close>, what a predicate of the database needs to survive every request;
    \<open>Http_Properties\<close> uses them for access control, tenant isolation and the life cycle; \<open>Http_Stream\<close>
    shows that the event stream refines a bounded queue; \<open>Http_Findings\<close> holds the behaviours that
    the code does not intend.
  \<^item> \<open>Validation\<close> (\<open>drill/validation.go\<close>), \<open>Backup_Provider\<close> (\<open>drill/local_provider.go\<close>, \<open>provider.go\<close>),
    \<open>Webhook\<close> (\<open>notify/notifier.go\<close>): the typed checks, the local backup source (its interface is the locale
    \<open>backup_provider\<close>), the notifications.
  \<^item> \<open>Startup\<close> (\<open>platform/config.go\<close>, \<open>database/migrate.go\<close>, \<open>scheduler/scheduler.go\<close>,
    \<open>cmd/server/main.go\<close>): configuration, migrations, scheduler, and \<open>run\<close> up to the listener. The ledger of
    the migrations keeps every file sent to the server with its answer.
  \<^item> \<open>Service\<close>, \<open>Service_Properties\<close>, \<open>Shutdown\<close>: the composition. The goroutines of the pool, the
    requests, and the closing of pool and hub are a step relation on the pool and the world. Every
    reachable state is sound, a cancelled drill stays as it was cancelled, a closed pool
    drains within a number of steps that is given, and \<open>run\<close> returns without an error only then.
  \<^item> This theory: the properties of a drill's run.

  Bounds. Loops are structural or have a measure, with two exceptions that run for a given number of
  rounds: the loops of the worker and of the scheduler, which the program never leaves by itself
  (theorems hold for every number of rounds), and the readiness loop of the sandbox, which has a round
  for each tick until its context is done. The event stream runs against an explicit list of wake-ups.

  Not modelled: opening sockets and starting processes, logging, TLS and HTTP framing, the plans and
  locks of PostgreSQL beyond the atomicity of statements and transactions, and memory. In the step
  relation of \<open>Service\<close> a request and the body of a run are one step each; what comes in between their
  statements is in their environments.
\<close>

section \<open>Properties of a drill's run\<close>

lemma example_success:
  obtains d where "drill_by_id (w_db (snd (run_state (worker_run calm example_deps ''d1'') example_world))) ''d1'' = Some d"
    "dr_status d = DrillSucceeded"
  using example_run(1) by (auto simp: drill_status_def)

lemma example_backed: "all_backed (w_db example_world)"
proof -
  have "recovery_drills (w_db example_world) = [example_drill]"
    by (simp add: example_world_def)
  then show ?thesis
    by (auto simp: all_backed_def success_backed_def drill_by_id_def row_with_single example_drill_def uuid_form_def
        is_alnum_def is_lower_def is_upper_def is_digit_def split: if_splits)
qed

lemma example_staged: "all_staged (w_db example_world)"
  by (auto simp: all_staged_def stages_recorded_def drill_by_id_def row_with_single example_world_def example_drill_def
      split: if_splits)

lemma example_typed: "drills_typed (w_db example_world)"
  by (simp add: drills_typed_def keys_unique_def drill_keys_def row_typed_def terminal_def example_world_def example_drill_def)

text \<open>The service that runs the queued drill of the example: its database after the run is a reachable one.\<close>

abbreviation example_queued :: world where
  "example_queued \<equiv> example_world\<lparr>w_jobs := [''d1'']\<rparr>"

abbreviation example_final :: world where
  "example_final \<equiv> snd (run_state (worker_run calm example_deps ''d1'') example_world)"

lemma example_service:
  "(service_step example_deps example_server)\<^sup>*\<^sup>* (NewWorkerPool 1, example_queued) (NewWorkerPool 1, example_final)"
proof -
  have "example_world\<lparr>w_jobs := []\<rparr> = example_world" by (simp add: example_world_def)
  then show ?thesis using run_steps [where w = example_world and did = "''d1''" and e = calm] by simp
qed

text \<open>The policy behind the outcome a successful drill records.\<close>

lemma outcome_policy:
  assumes "job_at did job t" and "drill_by_id t did = Some d"
  obtains p where "p \<in> set (recovery_policies t)" "dr_recovery_policy_id d = Some (p_id p)"
    "p_organization_id p = dr_organization_id d" "j_required job = p_required_validations p"
proof -
  obtain s p where "(d, s, p) \<in> set (job_rows did t)" "scan_job (d, s, p) = Inr job"
    using assms by (auto simp: job_at_def job_rows_iff)
  then show ?thesis
    using that by (auto simp: job_rows_iff scan_job_def split: option.splits)
qed

lemma example_verified:
  assumes "drill_by_id (w_db example_final) ''d1'' = Some d" and "dr_status d = DrillSucceeded"
  shows "dr_recovery_status d = Some Verified"
proof -
  have "success_backed ''d1'' (w_db example_final)"
    using service_backed(1) [OF example_service example_configured] example_backed by (simp add: all_backed_def)
  then obtain job ready where job: "job_at ''d1'' job (w_db example_final)"
    and oc: "outcome_recorded d (drill_outcome job ready)"
    using assms unfolding success_backed_def by blast
  obtain p where "p \<in> set (recovery_policies (w_db example_final))" and req: "j_required job = p_required_validations p"
    using outcome_policy [OF job assms(1)] by blast
  moreover have "recovery_policies (w_db example_final) = [example_policy]" by (rule example_run(2))
  ultimately have "unmarshal_strings (j_required job) = [''POSTGRES_CONNECTIVITY'']"
    by (simp add: example_policy_def unmarshal_strings_def)
  then show ?thesis
    using oc by (auto simp: outcome_recorded_def drill_outcome_def drill_assessment_def Let_def split: prod.splits)
qed

text \<open>
  C2. A success is backed by evidence. In every state the service reaches, whatever the requests, the
  workers and the failures: a drill that is \<open>SUCCEEDED\<close> has its evidence row, the artifact row it refers to
  with the same digest and the storage key of this drill, and an available report, and the drill's
  measurements, policy results, assessment and confidence are those computed from the snapshot and the
  policy of the drill's own organization. The database the service starts with has this property, for
  instance because it has no drills.
\<close>

theorem success_has_evidence:
  assumes "wd_Executor deps \<noteq> None" and "wd_Objects deps \<noteq> None" and "all_backed (w_db w0)"
    and "(service_step deps srv)\<^sup>*\<^sup>* (p0, w0) (p, w)"
    and "drill_by_id (w_db w) did = Some d" and "dr_status d = DrillSucceeded"
  shows "evidence_complete (dr_organization_id d) did (w_db w) \<and>
    (\<exists>job ready. job_at did job (w_db w) \<and> outcome_recorded d (drill_outcome job ready))"
  using service_backed(1) [OF assms(4,1,2)] assms(3,5,6) by (simp add: all_backed_def success_backed_def)

theorem success_has_evidence_witness:
  "\<exists>d job ready. drill_by_id (w_db example_final) ''d1'' = Some d \<and> dr_status d = DrillSucceeded \<and>
     evidence_complete (dr_organization_id d) ''d1'' (w_db example_final) \<and>
     job_at ''d1'' job (w_db example_final) \<and> outcome_recorded d (drill_outcome job ready)"
proof -
  obtain d where d: "drill_by_id (w_db example_final) ''d1'' = Some d" "dr_status d = DrillSucceeded"
    by (rule example_success)
  from success_has_evidence [OF example_configured _ example_service d] example_backed d show ?thesis by auto
qed

text \<open>
  C3. \<open>VERIFIED\<close> is earned. In every state the service reaches, a drill that is \<open>SUCCEEDED\<close> with the
  assessment \<open>VERIFIED\<close> has high confidence and a policy of its own organization all of whose required
  validations, as far as they decode as strings, are the connectivity check the worker performed.
\<close>

theorem verified_is_earned:
  assumes "wd_Executor deps \<noteq> None" and "wd_Objects deps \<noteq> None" and "all_backed (w_db w0)"
    and "(service_step deps srv)\<^sup>*\<^sup>* (p0, w0) (p, w)"
    and "drill_by_id (w_db w) did = Some d"
    and "dr_status d = DrillSucceeded" and "dr_recovery_status d = Some Verified"
  shows "dr_confidence d = Some ConfidenceHigh \<and>
    (\<exists>po. po \<in> set (recovery_policies (w_db w)) \<and>
       dr_recovery_policy_id d = Some (p_id po) \<and> p_organization_id po = dr_organization_id d \<and>
       list_all (\<lambda>check. check = ''POSTGRES_CONNECTIVITY'') (unmarshal_strings (p_required_validations po)))"
proof -
  have "success_backed did (w_db w)"
    using service_backed(1) [OF assms(4,1,2)] assms(3) by (simp add: all_backed_def)
  then obtain job ready where job: "job_at did job (w_db w)" and oc: "outcome_recorded d (drill_outcome job ready)"
    using assms(5,6) unfolding success_backed_def by blast
  obtain po where po: "po \<in> set (recovery_policies (w_db w))" "dr_recovery_policy_id d = Some (p_id po)"
    "p_organization_id po = dr_organization_id d" "j_required job = p_required_validations po"
    using outcome_policy [OF job assms(5)] by blast
  have "limitations_of (unmarshal_strings (j_required job)) = [] \<and> dr_confidence d = Some ConfidenceHigh"
    using oc assms(7)
    by (auto simp: outcome_recorded_def drill_outcome_def drill_assessment_def Let_def split: prod.splits if_splits)
  then show ?thesis using po limitations_empty [of "unmarshal_strings (j_required job)"] by auto
qed

theorem verified_is_earned_witness:
  "\<exists>d (po :: policy_row). drill_by_id (w_db example_final) ''d1'' = Some d \<and>
     dr_recovery_status d = Some Verified \<and> dr_confidence d = Some ConfidenceHigh \<and>
     dr_recovery_policy_id d = Some (p_id po) \<and> list_all (\<lambda>check. check = ''POSTGRES_CONNECTIVITY'') (unmarshal_strings (p_required_validations po))"
proof -
  obtain d where d: "drill_by_id (w_db example_final) ''d1'' = Some d" "dr_status d = DrillSucceeded"
    by (rule example_success)
  have "dr_recovery_status d = Some Verified"
    by (rule example_verified [OF d])
  then show ?thesis
    using verified_is_earned [OF example_configured _ example_service d] example_backed d(1) by auto
qed

text \<open>
  C9. No stage is skipped. In every state the service reaches, the recorded steps and the start time of
  every drill agree with its status; in particular a drill that \<open>SUCCEEDED\<close> has recorded the transitions
  to \<open>PREPARING\<close>, \<open>RESTORING\<close>, \<open>VALIDATING\<close> and \<open>FINALIZING\<close> (the steps 1, 3, 4 and 5), and one that is
  \<open>FAILED\<close> or \<open>INCONCLUSIVE\<close> had been started.
\<close>

theorem service_records_stages:
  assumes "wd_Executor deps \<noteq> None" and "wd_Objects deps \<noteq> None" and "all_staged (w_db w0)"
    and "(service_step deps srv)\<^sup>*\<^sup>* (p0, w0) (p, w)"
    and "drill_by_id (w_db w) did = Some d"
  shows "stages_before (dr_status d) \<subseteq> recorded_steps did (w_db w) \<and>
    (dr_status d \<in> {DrillQueued, DrillCancelled} \<or> dr_started_at d \<noteq> None)"
  using service_backed(2) [OF assms(4,1,2)] assms(3,5) by (auto simp: all_staged_def stages_recorded_def)

theorem service_records_stages_witness:
  "{1, 3, 4, 5} \<subseteq> recorded_steps ''d1'' (w_db example_final)"
proof -
  obtain d where d: "drill_by_id (w_db example_final) ''d1'' = Some d" "dr_status d = DrillSucceeded"
    by (rule example_success)
  from service_records_stages [OF example_configured _ example_service d(1)] example_staged d(2) show ?thesis by simp
qed

text \<open>
  C11. The rows of drills are well-typed. In every state the service reaches, no two drills share an
  identifier or, within an organization, an idempotency key; a drill has a completion time exactly when its
  status is terminal, its four measurement columns are filled exactly when it \<open>SUCCEEDED\<close>, and
  its assessment and confidence are those its status allows: \<open>VERIFIED\<close> with high or \<open>PARTIALLY_VERIFIED\<close>
  with medium confidence for a success, \<open>FAILED\<close> or \<open>UNKNOWN\<close> with low confidence for a drill the worker
  ended, and none before.
\<close>

theorem drill_rows_typed:
  assumes "wd_Executor deps \<noteq> None" and "wd_Objects deps \<noteq> None" and "drills_typed (w_db w0)"
    and "(service_step deps srv)\<^sup>*\<^sup>* (p0, w0) (p, w)"
  shows "drills_typed (w_db w)"
  using service_backed(3) [OF assms(4,1,2)] assms(3) by simp

theorem drill_rows_typed_witness:
  "drills_typed (w_db example_final) \<and> drill_status (w_db example_final) ''d1'' = Some DrillSucceeded"
  using drill_rows_typed [OF example_configured _ example_service] example_typed example_run(1) by simp

text \<open>
  C8. Nothing is left running: whatever fails, every network, volume and container that a Docker command of a
  run created, or may have created, is removed by a later command of the same run, and all commands are the
  fixed ones of the drill over one container, network and volume. The only exception is a run whose one and
  only Docker command is the creation of a network, answered with an error: it is not followed by a removal.
\<close>

theorem run_removes_sandbox:
  "\<exists>cs org path c n v. w_docker (snd (run_state (worker_run e deps did) w)) = w_docker w @ cs \<and>
     fst ` set cs \<subseteq> drill_cmds (worker_spec deps did org) path c n v \<and>
     (left_over cs = [] \<or> (\<exists>cmd n out er. cs = [(cmd, out, Some er)] \<and> creation cmd = Some (Network n)))"
proof -
  let ?w1 = "w\<lparr>w_running := List.insert did (w_running w), w_cancelled := removeAll did (w_cancelled w)\<rparr>"
  have "run_log deps did (w_docker w) (w_docker (snd (run_state (run_body e deps did) ?w1)))"
    using hoare_run [OF run_body_log [of "w_docker w" e deps did], of ?w1] by simp
  moreover have "w_docker (snd (run_state (worker_run e deps did) w)) = w_docker (snd (run_state (run_body e deps did) ?w1))"
    by (simp add: worker_run_def split: prod.splits)
  ultimately show ?thesis unfolding run_log_def log_clean_def nothing_left_def by metis
qed

text \<open>
  The pool stays usable: after a run the drill is no longer in the running set, no other
  drill left it, the hub is well-formed and no publication of the run has panicked.
\<close>

theorem run_leaves_pool_sound:
  assumes "hub_inv (w_hub w)" and "\<not> w_crashed w"
  shows "hub_inv (w_hub (snd (run_state (worker_run e deps did) w))) \<and>
    \<not> w_crashed (snd (run_state (worker_run e deps did) w)) \<and>
    w_running (snd (run_state (worker_run e deps did) w)) = removeAll did (w_running w)"
  by (rule run_leaves_pool [OF assms prod.collapse [symmetric]])

theorem run_leaves_pool_sound_witness:
  "\<not> w_crashed (snd (run_state (worker_run calm example_deps ''d1'') (example_world\<lparr>w_running := [''d2'']\<rparr>))) \<and>
   w_running (snd (run_state (worker_run calm example_deps ''d1'') (example_world\<lparr>w_running := [''d2'']\<rparr>))) = [''d2'']"
proof -
  let ?w = "example_world\<lparr>w_running := [''d2'']\<rparr>"
  have "hub_inv (w_hub ?w)" "\<not> w_crashed ?w"
    by (simp_all add: example_world_def hub_inv_def NewEventHub_def all_subs_def)
  from run_leaves_pool_sound [OF this, of calm example_deps "''d1''"] show ?thesis by simp
qed

text \<open>
  C4. A recorded success has its evidence in the object storage. Whatever fails and whatever other requests
  and workers do: when a run takes a drill to \<open>SUCCEEDED\<close> and no answer of a call was lost, the object
  storage holds, under the key of the drill and its organization, the evidence document of the very
  measurements the row records, and the database holds an artifact row with this key and the digest of
  these bytes. This holds for the local and the S3 adapter.
\<close>

theorem run_stores_evidence:
  assumes "wd_Executor deps = Some executor" and "wd_Objects deps = Some objects" and "obj_inv objects"
    and "\<And>n er. fate_at e n \<noteq> Lost er"
    and "drill_status (w_db w) did \<noteq> Some DrillSucceeded"
    and "run_state (worker_run e deps did) w = (u, w')"
    and "drill_by_id (w_db w') did = Some d" and "dr_status d = DrillSucceeded"
  shows "\<exists>job ready sid h. job_at did job (w_db w') \<and> outcome_recorded d (drill_outcome job ready) \<and>
    obj_at objects w' (evidence_key (dr_organization_id d) did) = Some (worker_evidence job sid ready h) \<and>
    list_ex (\<lambda>a. ea_storage_key a = evidence_key (dr_organization_id d) did \<and>
      ea_sha256 a = hex_sha256 e (worker_evidence job sid ready h)) (evidence_artifacts (w_db w'))"
proof -
  have "on_db (unfinished did) w" using assms(5) by (simp add: on_db_def unfinished_def)
  from hoareD [OF run_settles [OF assms(1,2,4,3)] this assms(6)] have "settled e objects did w'" .
  moreover have "\<not> unfinished did (w_db w')" using assms(7,8) by (simp add: unfinished_def drill_status_def)
  ultimately show ?thesis using assms(7) unfolding settled_def evidence_stored_def holds_def by auto
qed

theorem run_stores_evidence_witness:
  "\<exists>d job ready sid h. drill_by_id (w_db example_final) ''d1'' = Some d \<and> dr_status d = DrillSucceeded \<and>
     obj_at (OnLocal example_local) example_final (evidence_key (dr_organization_id d) ''d1'') = Some (worker_evidence job sid ready h)"
proof -
  obtain d where d: "drill_by_id (w_db example_final) ''d1'' = Some d" "dr_status d = DrillSucceeded"
    by (rule example_success)
  have deps: "\<exists>ex. wd_Executor example_deps = Some ex" "wd_Objects example_deps = Some (OnLocal example_local)"
    by (simp_all add: example_deps_def)
  then obtain ex where ex: "wd_Executor example_deps = Some ex" by blast
  have "obj_inv (OnLocal example_local)" using example_local_inv by (simp add: obj_inv_def)
  moreover have "drill_status (w_db example_world) ''d1'' \<noteq> Some DrillSucceeded"
    by (simp add: drill_status_def drill_by_id_def row_with_single example_world_def example_drill_def)
  moreover have "run_state (worker_run calm example_deps ''d1'') example_world = ((), example_final)"
    by (simp add: prod_eq_iff)
  ultimately show ?thesis
    using run_stores_evidence [OF ex deps(2), of calm example_world "''d1''" "()" example_final d] d by auto
qed

end
